(* ===== verification/Prelude.thy ===== *)
theory Prelude
  imports Main "HOL-Library.Word"
begin

text \<open>
  What every component of the development shares: the machine integers of the C-ABI,
  the effect type of the Rust closures (a value, a panic, an abort of the process, or
  undefined behaviour, together with the state), the three ways a call into a linked
  crate can end, and generic lemmas about words and byte lists.
\<close>

section \<open>Machine integers and byte strings\<close>

type_synonym u8 = "8 word"
type_synonym u64 = "64 word"
type_synonym usize = "64 word" \<comment> \<open>the 64-bit targets\<close>
type_synonym c_int = "32 word" \<comment> \<open>two's complement\<close>
type_synonym bytes = "u8 list"
type_synonym addr = nat \<comment> \<open>a raw pointer; 0 is null\<close>

definition isize_max :: nat where
  "isize_max = 2 ^ 63 - 1"

definition is_null :: "addr \<Rightarrow> bool" where
  "is_null p \<longleftrightarrow> p = 0"

named_theorems run_simps \<open>evaluation of the effect combinators\<close>
named_theorems mem_simps \<open>reading memory after writing it\<close>

section \<open>Effects: outcomes and their sequencing\<close>

text \<open>The payload of a panic: what \<open>payload.downcast_ref\<close> can find in it.\<close>

datatype panic_payload = StrPayload string | StringPayload string | OtherPayload

text \<open>
  \<open>Abort\<close> is the end of the process (a failed allocation); it does not unwind and no
  panic guard sees it. \<open>Undefined\<close> is undefined behaviour: a raw pointer used outside
  its contract.
\<close>

datatype 'a outcome = Done 'a | Panic panic_payload | Abort | Undefined

type_synonym ('s, 'a) comp = "'s \<Rightarrow> 'a outcome \<times> 's"

definition ret :: "'a \<Rightarrow> ('s, 'a) comp" where
  "ret x = (\<lambda>s. (Done x, s))"

definition undefined_behaviour :: "('s, 'a) comp" where
  "undefined_behaviour = (\<lambda>s. (Undefined, s))"

definition bind_comp :: "('s, 'a) comp \<Rightarrow> ('a \<Rightarrow> ('s, 'b) comp) \<Rightarrow> ('s, 'b) comp" where
  "bind_comp m k = (\<lambda>s. case m s of
       (Done x, s') \<Rightarrow> k x s'
     | (Panic p, s') \<Rightarrow> (Panic p, s')
     | (Abort, s') \<Rightarrow> (Abort, s')
     | (Undefined, s') \<Rightarrow> (Undefined, s'))"

lemma ret_run [run_simps, simp]: "ret x s = (Done x, s)"
  by (simp add: ret_def)

lemma undefined_behaviour_run [run_simps, simp]: "undefined_behaviour s = (Undefined, s)"
  by (simp add: undefined_behaviour_def)

lemma bind_Done [run_simps]: "m s = (Done x, s') \<Longrightarrow> bind_comp m k s = k x s'"
  by (simp add: bind_comp_def)

lemma bind_Panic [run_simps]: "m s = (Panic p, s') \<Longrightarrow> bind_comp m k s = (Panic p, s')"
  by (simp add: bind_comp_def)

lemma bind_Abort [run_simps]: "m s = (Abort, s') \<Longrightarrow> bind_comp m k s = (Abort, s')"
  by (simp add: bind_comp_def)

lemma bind_Undefined [run_simps]: "m s = (Undefined, s') \<Longrightarrow> bind_comp m k s = (Undefined, s')"
  by (simp add: bind_comp_def)

lemma bind_ret_left [simp]: "bind_comp (ret x) k = k x"
  by (simp add: bind_comp_def fun_eq_iff)

lemma bind_ret_right [simp]: "bind_comp m ret = m"
  by (auto simp: bind_comp_def fun_eq_iff split: prod.splits outcome.splits)

lemma bind_bind: "bind_comp (bind_comp m f) g = bind_comp m (\<lambda>x. bind_comp (f x) g)"
  by (auto simp: bind_comp_def fun_eq_iff split: prod.splits outcome.splits)

lemma bind_cong [fundef_cong]:
  assumes "m s = m' s" and "s = s'"
    and "\<And>x t. m' s' = (Done x, t) \<Longrightarrow> k x t = k' x t"
  shows "bind_comp m k s = bind_comp m' k' s'"
  using assms by (auto simp: bind_comp_def split: prod.splits outcome.splits)

text \<open>
  The end of a scope: the destructor \<open>d\<close> runs when the scope is left by a value (any
  \<open>return\<close> included) and when a panic unwinds through it.
\<close>

definition scope_drop :: "('s, 'a) comp \<Rightarrow> ('s \<Rightarrow> 's) \<Rightarrow> ('s, 'a) comp" where
  "scope_drop m d = (\<lambda>s. case m s of
       (Done x, s') \<Rightarrow> (Done x, d s')
     | (Panic p, s') \<Rightarrow> (Panic p, d s')
     | (Abort, s') \<Rightarrow> (Abort, s')
     | (Undefined, s') \<Rightarrow> (Undefined, s'))"

lemma scope_drop_Done [run_simps]: "m s = (Done x, s') \<Longrightarrow> scope_drop m d s = (Done x, d s')"
  by (simp add: scope_drop_def)

lemma scope_drop_Panic [run_simps]: "m s = (Panic p, s') \<Longrightarrow> scope_drop m d s = (Panic p, d s')"
  by (simp add: scope_drop_def)

lemma scope_drop_outcome: "fst (scope_drop m d s) = fst (m s)"
  by (simp add: scope_drop_def split: prod.splits outcome.splits)

section \<open>Calls into a linked crate\<close>

text \<open>
  A function of \<open>aws-lc-rs\<close> returns a value, returns its opaque error, or panics (which
  the guard of the boundary has to stop). \<open>ext_case r e k\<close> is the source's
  \<open>match r { Ok(x) => k x, Err(_) => e }\<close>, and also \<open>r.map_err(..)?\<close> where \<open>e\<close>
  returns the mapped error.
\<close>

datatype 'a ext = ExtOk 'a | ExtErr | ExtPanic panic_payload

definition ext_case :: "'a ext \<Rightarrow> ('s, 'b) comp \<Rightarrow> ('a \<Rightarrow> ('s, 'b) comp) \<Rightarrow> ('s, 'b) comp" where
  "ext_case r e k = (case r of
       ExtOk x \<Rightarrow> k x
     | ExtErr \<Rightarrow> e
     | ExtPanic p \<Rightarrow> (\<lambda>s. (Panic p, s)))"

lemma ext_case_run [run_simps, simp]:
  "ext_case (ExtOk x) e k = k x"
  "ext_case ExtErr e k = e"
  "ext_case (ExtPanic p) e k s = (Panic p, s)"
  by (simp_all add: ext_case_def)

section \<open>Bytes of a 64-bit word\<close>

text \<open>Rust's \<open>u64::to_be_bytes\<close> and the little-endian store of a \<open>usize\<close>.\<close>

definition be_bytes :: "u64 \<Rightarrow> bytes" where
  "be_bytes v = map (\<lambda>i. ucast (drop_bit (8 * (7 - i)) v)) [0..<8]"

definition le_bytes :: "u64 \<Rightarrow> bytes" where
  "le_bytes v = map (\<lambda>i. ucast (drop_bit (8 * i) v)) [0..<8]"

lemma length_be_bytes [simp]: "length (be_bytes v) = 8"
  by (simp add: be_bytes_def)

lemma length_le_bytes [simp]: "length (le_bytes v) = 8"
  by (simp add: le_bytes_def)

lemma word64_eqI_bytes:
  fixes v w :: u64
  assumes "\<And>i. i < 8 \<Longrightarrow> (ucast (drop_bit (8 * i) v) :: u8) = ucast (drop_bit (8 * i) w)"
  shows "v = w"
proof (rule bit_word_eqI)
  fix n assume "n < LENGTH(64)"
  then have n: "n < 64" by simp
  have "bit (ucast (drop_bit (8 * (n div 8)) v) :: u8) (n mod 8)
      = bit (ucast (drop_bit (8 * (n div 8)) w) :: u8) (n mod 8)"
    using assms [of "n div 8"] n by simp
  then show "bit v n = bit w n"
    using n by (simp add: bit_simps)
qed

lemma le_bytes_inj: "le_bytes v = le_bytes w \<longleftrightarrow> v = w"
proof
  assume eq: "le_bytes v = le_bytes w"
  show "v = w"
  proof (rule word64_eqI_bytes)
    fix i :: nat assume "i < 8"
    then show "(ucast (drop_bit (8 * i) v) :: u8) = ucast (drop_bit (8 * i) w)"
      using arg_cong [OF eq, where f = "\<lambda>xs. xs ! i"] by (simp add: le_bytes_def)
  qed
qed simp

lemma be_bytes_rev: "be_bytes v = rev (le_bytes v)"
  by (simp add: be_bytes_def le_bytes_def upt_conv_Cons)

lemma be_bytes_inj: "be_bytes v = be_bytes w \<longleftrightarrow> v = w"
  by (simp add: be_bytes_rev le_bytes_inj)

section \<open>Lists cut into blocks\<close>

lemma append_eq_same_length:
  "length xs = length us \<Longrightarrow> xs @ ys = us @ vs \<longleftrightarrow> xs = us \<and> ys = vs"
  by simp

text \<open>
  \<open>blocks n xs\<close> cuts \<open>xs\<close> into pieces of \<open>n\<close> bytes, the last one possibly shorter.
\<close>

function blocks :: "nat \<Rightarrow> 'a list \<Rightarrow> 'a list list" where
  "blocks n xs = (if n = 0 \<or> xs = [] then [] else take n xs # blocks n (drop n xs))"
  by pat_completeness auto
termination
  by (relation "measure (\<lambda>(n, xs). length xs)") auto

declare blocks.simps [simp del]

lemma blocks_Nil [simp]: "blocks n [] = []"
  by (simp add: blocks.simps)

lemma blocks_step: "0 < n \<Longrightarrow> xs \<noteq> [] \<Longrightarrow> blocks n xs = take n xs # blocks n (drop n xs)"
  by (subst blocks.simps) simp

lemma blocks_eq_Nil [simp]: "0 < n \<Longrightarrow> blocks n xs = [] \<longleftrightarrow> xs = []"
  by (subst blocks.simps) simp

lemma concat_blocks: "0 < n \<Longrightarrow> concat (blocks n xs) = xs"
proof (induction n xs rule: blocks.induct)
  case (1 n xs)
  then show ?case by (cases "xs = []") (simp_all add: blocks_step)
qed

lemma blocks_not_empty: "b \<in> set (blocks n xs) \<Longrightarrow> b \<noteq> []"
proof (induction n xs rule: blocks.induct)
  case (1 n xs)
  then show ?case by (cases "n = 0 \<or> xs = []") (auto simp: blocks_step blocks.simps [of 0])
qed

lemma blocks_bound: "b \<in> set (blocks n xs) \<Longrightarrow> length b \<le> n"
proof (induction n xs rule: blocks.induct)
  case (1 n xs)
  then show ?case by (cases "n = 0 \<or> xs = []") (auto simp: blocks_step blocks.simps [of 0])
qed

text \<open>Every piece but the last is full, and such a list of pieces is cut back into itself.\<close>

fun cut_ok :: "nat \<Rightarrow> 'a list list \<Rightarrow> bool" where
  "cut_ok n [] \<longleftrightarrow> True"
| "cut_ok n [b] \<longleftrightarrow> b \<noteq> [] \<and> length b \<le> n"
| "cut_ok n (b # c # bs) \<longleftrightarrow> length b = n \<and> cut_ok n (c # bs)"

lemma cut_ok_Cons: "bs \<noteq> [] \<Longrightarrow> cut_ok n (b # bs) \<longleftrightarrow> length b = n \<and> cut_ok n bs"
  by (cases bs) simp_all

lemma cut_ok_blocks: "0 < n \<Longrightarrow> cut_ok n (blocks n xs)"
proof (induction n xs rule: blocks.induct)
  case (1 n xs)
  show ?case
  proof (cases "length xs \<le> n")
    case True
    with "1.prems" show ?thesis by (cases "xs = []") (simp_all add: blocks_step)
  next
    case False
    then have "xs \<noteq> []" and "blocks n (drop n xs) \<noteq> []" using "1.prems" by auto
    with False "1.prems" "1.IH" show ?thesis by (simp add: blocks_step cut_ok_Cons)
  qed
qed

lemma blocks_concat: "0 < n \<Longrightarrow> cut_ok n bs \<Longrightarrow> blocks n (concat bs) = bs"
proof (induction n bs rule: cut_ok.induct)
  case (3 n b c bs)
  from "3.prems" have "b \<noteq> []" by auto
  with 3 show ?case by (simp add: blocks_step)
qed (simp_all add: blocks_step)

lemma cut_ok_append: "cut_ok n (bs @ [b]) \<longleftrightarrow> (\<forall>x\<in>set bs. length x = n) \<and> b \<noteq> [] \<and> length b \<le> n"
  by (induction bs) (auto simp: cut_ok_Cons)

lemma cut_ok_full: "0 < n \<Longrightarrow> \<forall>x\<in>set bs. length x = n \<Longrightarrow> cut_ok n bs"
  by (induction bs rule: rev_induct) (auto simp: cut_ok_append)

lemma length_concat_full: "\<forall>x\<in>set bs. length x = n \<Longrightarrow> length (concat bs) = n * length bs"
  by (induction bs) auto

end
