(* ===== verification/World.thy ===== *)
theory World
  imports Prelude
begin

text \<open>
  The state the native core runs in: the caller's memory behind the raw pointers of the
  C-ABI, and what the operating system and the Rust runtime keep for it (files, locked
  pages, the panic hook, the allocator's answers). Raw-pointer operations check their
  contract: an address outside it is the outcome \<open>Undefined\<close>, so that "no undefined
  behaviour" is a theorem and not a convention.
\<close>

section \<open>The state\<close>

datatype io_error = IoError string \<comment> \<open>what \<open>std::io::Error::to_string\<close> prints\<close>

text \<open>The environment's choice for one \<open>read(2)\<close>: at most \<open>k + 1\<close> bytes, or an error.\<close>

datatype read_event = ReadShort nat | ReadFail io_error

datatype panic_hook = SilentHook | ReportingHook nat

record world =
  mem :: "addr \<rightharpoonup> u8"
  rng :: nat                          \<comment> \<open>state of the CSPRNG of AWS-LC, opaque\<close>
  hook :: panic_hook
  panic_log :: "panic_payload list"   \<comment> \<open>panics a reporting hook has printed\<close>
  mlock_rc :: "nat \<Rightarrow> nat \<Rightarrow> int"       \<comment> \<open>answer of \<open>mlock\<close>: bytes locked so far, length\<close>
  locked_bytes :: nat
  vec_zeroize :: "bytes \<Rightarrow> bytes \<times> bytes" \<comment> \<open>crate \<open>zeroize\<close> on a \<open>Vec\<close>: its memory, its elements after\<close>
  released :: "bytes list"            \<comment> \<open>memory of secret buffers when freed\<close>
  alloc_ok :: "nat \<Rightarrow> bool"           \<comment> \<open>whether the allocator grants \<open>n\<close> zeroed bytes\<close>
  names :: "bytes \<rightharpoonup> nat"             \<comment> \<open>path to inode\<close>
  inodes :: "nat \<Rightarrow> bytes"            \<comment> \<open>contents of each inode\<close>
  next_ino :: nat
  open_err :: "bytes \<Rightarrow> io_error option"    \<comment> \<open>permissions and the like\<close>
  create_err :: "bytes \<Rightarrow> io_error option"
  read_plan :: "read_event list"
  disk_room :: nat                    \<comment> \<open>bytes the disk still takes\<close>

section \<open>Byte memory\<close>

type_synonym heap = "addr \<rightharpoonup> u8"

definition mapped :: "heap \<Rightarrow> addr \<Rightarrow> nat \<Rightarrow> bool" where
  "mapped m p n \<longleftrightarrow> list_all (\<lambda>a. m a \<noteq> None) [p..<p + n]"

primrec bytes_at :: "heap \<Rightarrow> addr \<Rightarrow> bytes \<Rightarrow> bool" where
  "bytes_at m p [] \<longleftrightarrow> True"
| "bytes_at m p (b # bs) \<longleftrightarrow> m p = Some b \<and> bytes_at m (Suc p) bs"

definition read_range :: "heap \<Rightarrow> addr \<Rightarrow> nat \<Rightarrow> bytes" where
  "read_range m p n = map (\<lambda>a. the (m a)) [p..<p + n]"

definition put_bytes :: "addr \<Rightarrow> bytes \<Rightarrow> heap \<Rightarrow> heap" where
  "put_bytes p bs m = (\<lambda>a. if p \<le> a \<and> a < p + length bs then Some (bs ! (a - p)) else m a)"

definition disjoint :: "addr \<Rightarrow> nat \<Rightarrow> addr \<Rightarrow> nat \<Rightarrow> bool" where
  "disjoint p m q n \<longleftrightarrow> p + m \<le> q \<or> q + n \<le> p"

lemma mapped_iff: "mapped m p n \<longleftrightarrow> (\<forall>i<n. m (p + i) \<noteq> None)"
proof -
  have "mapped m p n \<longleftrightarrow> (\<forall>a. p \<le> a \<and> a < p + n \<longrightarrow> m a \<noteq> None)"
    by (auto simp: mapped_def list_all_iff)
  also have "\<dots> \<longleftrightarrow> (\<forall>i<n. m (p + i) \<noteq> None)"
    by (metis add_less_cancel_left le_Suc_ex le_add1)
  finally show ?thesis .
qed

lemma mapped_le: "mapped m p n \<Longrightarrow> k \<le> n \<Longrightarrow> mapped m p k"
  by (simp add: mapped_iff)

lemma bytes_at_nth: "bytes_at m p bs \<longleftrightarrow> (\<forall>i<length bs. m (p + i) = Some (bs ! i))"
proof (induction bs arbitrary: p)
  case (Cons b bs)
  show ?case by (simp add: Cons.IH All_less_Suc2)
qed simp

lemma bytes_at_append: "bytes_at m p (bs @ cs) \<longleftrightarrow> bytes_at m p bs \<and> bytes_at m (p + length bs) cs"
  by (induction bs arbitrary: p) simp_all

lemma bytes_at_mapped: "bytes_at m p bs \<Longrightarrow> mapped m p (length bs)"
  by (simp add: bytes_at_nth mapped_iff)

lemma length_read_range [simp]: "length (read_range m p n) = n"
  by (simp add: read_range_def)

lemma read_range_nth: "i < n \<Longrightarrow> read_range m p n ! i = the (m (p + i))"
  by (simp add: read_range_def)

lemma read_range_eq: "bytes_at m p bs \<Longrightarrow> n = length bs \<Longrightarrow> read_range m p n = bs"
  by (rule nth_equalityI) (simp_all add: read_range_nth bytes_at_nth)

lemma mapped_read_range: "mapped m p n \<Longrightarrow> bytes_at m p (read_range m p n)"
  by (simp add: bytes_at_nth mapped_iff read_range_nth)

subsection \<open>Reading after writing\<close>

lemma put_bytes_apply [mem_simps]:
  "put_bytes p bs m a = (if p \<le> a \<and> a < p + length bs then Some (bs ! (a - p)) else m a)"
  by (simp add: put_bytes_def)

lemma put_bytes_Nil [simp]: "put_bytes p [] m = m"
  by (rule ext) (auto simp: put_bytes_def)

lemma bytes_at_put_same [mem_simps, simp]: "bytes_at (put_bytes p bs m) p bs"
  by (simp add: bytes_at_nth put_bytes_def)

lemma bytes_at_cong:
  "(\<And>i. i < length cs \<Longrightarrow> m' (q + i) = m (q + i)) \<Longrightarrow> bytes_at m' q cs = bytes_at m q cs"
  by (simp add: bytes_at_nth)

lemma put_bytes_outside: "disjoint p (length bs) q n \<Longrightarrow> i < n \<Longrightarrow> put_bytes p bs m (q + i) = m (q + i)"
  by (auto simp: put_bytes_def disjoint_def)

lemma bytes_at_put_other [mem_simps]:
  "disjoint p (length bs) q (length cs) \<Longrightarrow> bytes_at (put_bytes p bs m) q cs = bytes_at m q cs"
  by (rule bytes_at_cong) (rule put_bytes_outside)

lemma mapped_put [mem_simps]: "mapped m q n \<Longrightarrow> mapped (put_bytes p bs m) q n"
  by (simp add: mapped_iff put_bytes_def)

lemma disjoint_sym: "disjoint p m q n \<longleftrightarrow> disjoint q n p m"
  by (auto simp: disjoint_def)

lemma disjoint_le: "disjoint p m q n \<Longrightarrow> m' \<le> m \<Longrightarrow> n' \<le> n \<Longrightarrow> disjoint p m' q n'"
  by (auto simp: disjoint_def)

text \<open>Memory that differs at most inside \<open>n\<close> bytes at \<open>p\<close>.\<close>

definition same_outside :: "addr \<Rightarrow> nat \<Rightarrow> heap \<Rightarrow> heap \<Rightarrow> bool" where
  "same_outside p n m m' \<longleftrightarrow> (\<forall>a. a < p \<or> p + n \<le> a \<longrightarrow> m' a = m a)"

lemma same_outside_put: "length bs \<le> n \<Longrightarrow> same_outside p n m (put_bytes p bs m)"
  by (auto simp: same_outside_def put_bytes_def)

section \<open>Slices and stores through raw pointers\<close>

text \<open>
  \<open>slice_ok\<close> is the contract of \<open>slice::from_raw_parts\<close>: non-null, at most
  \<open>isize::MAX\<close> bytes, all mapped. \<open>slice_at\<close> adds what the bytes are, \<open>out_ok\<close> and
  \<open>len_ok\<close> are the contracts of the output buffers and their \<open>*mut usize\<close> (which has
  to be aligned).
\<close>

definition slice_ok :: "heap \<Rightarrow> addr \<Rightarrow> nat \<Rightarrow> bool" where
  "slice_ok m p n \<longleftrightarrow> \<not> is_null p \<and> n \<le> isize_max \<and> mapped m p n"

definition slice_at :: "heap \<Rightarrow> addr \<Rightarrow> usize \<Rightarrow> bytes \<Rightarrow> bool" where
  "slice_at m p n bs \<longleftrightarrow>
     \<not> is_null p \<and> unat n = length bs \<and> length bs \<le> isize_max \<and> bytes_at m p bs"

definition out_ok :: "heap \<Rightarrow> addr \<Rightarrow> usize \<Rightarrow> bool" where
  "out_ok m p cap \<longleftrightarrow> is_null p \<or> slice_ok m p (unat cap)"

definition len_ok :: "heap \<Rightarrow> addr \<Rightarrow> bool" where
  "len_ok m p \<longleftrightarrow> is_null p \<or> p mod 8 = 0 \<and> mapped m p 8"

definition from_raw_parts :: "addr \<Rightarrow> usize \<Rightarrow> (world, bytes) comp" where
  "from_raw_parts p n = (\<lambda>w.
     if slice_ok (mem w) p (unat n) then (Done (read_range (mem w) p (unat n)), w)
     else (Undefined, w))"

definition store_usize :: "addr \<Rightarrow> usize \<Rightarrow> (world, unit) comp" where
  "store_usize p v = (\<lambda>w.
     if \<not> is_null p \<and> p mod 8 = 0 \<and> mapped (mem w) p 8
     then (Done (), w\<lparr>mem := put_bytes p (le_bytes v) (mem w)\<rparr>)
     else (Undefined, w))"

text \<open>\<open>slice::from_raw_parts_mut(out, src.len())\<close> and \<open>dst.copy_from_slice(src)\<close>.\<close>

definition copy_to_raw :: "addr \<Rightarrow> bytes \<Rightarrow> (world, unit) comp" where
  "copy_to_raw p src = (\<lambda>w.
     if slice_ok (mem w) p (length src) then (Done (), w\<lparr>mem := put_bytes p src (mem w)\<rparr>)
     else (Undefined, w))"

lemma slice_at_ok: "slice_at m p n bs \<Longrightarrow> slice_ok m p (unat n)"
  by (simp add: slice_at_def slice_ok_def bytes_at_mapped)

lemma slice_ok_at: "slice_ok m p (unat n) \<Longrightarrow> slice_at m p n (read_range m p (unat n))"
  by (simp add: slice_at_def slice_ok_def mapped_read_range)

lemma slice_at_read: "slice_at m p n bs \<Longrightarrow> read_range m p (unat n) = bs"
  by (simp add: slice_at_def read_range_eq)

lemma slice_at_not_null [simp]: "slice_at m p n bs \<Longrightarrow> \<not> is_null p"
  by (simp add: slice_at_def)

lemma slice_at_length: "slice_at m p n bs \<Longrightarrow> unat n = length bs"
  by (simp add: slice_at_def)

lemma slice_at_put:
  "slice_at m q n cs \<Longrightarrow> disjoint p (length bs) q (length cs) \<Longrightarrow> slice_at (put_bytes p bs m) q n cs"
  by (simp add: slice_at_def bytes_at_put_other)

lemma slice_at_zero: "slice_at m p n [] \<longleftrightarrow> \<not> is_null p \<and> n = 0"
  by (auto simp: slice_at_def unat_eq_0)

lemma slice_at_bytes:
  assumes "bytes_at m p bs" "\<not> is_null p" "length bs \<le> isize_max"
  shows "slice_at m p (of_nat (length bs)) bs"
proof -
  have "length bs < 2 ^ 64" using assms(3) by (simp add: isize_max_def)
  then have "unat (of_nat (length bs) :: usize) = length bs" by (simp add: unat_of_nat take_bit_nat_eq_self)
  then show ?thesis using assms by (simp add: slice_at_def)
qed

lemma from_raw_parts_run [run_simps]:
  "slice_at (mem w) p n bs \<Longrightarrow> from_raw_parts p n w = (Done bs, w)"
  by (auto simp: from_raw_parts_def slice_at_ok dest: slice_at_length)
     (simp add: slice_at_def read_range_eq)

lemma store_usize_run [run_simps]:
  "\<not> is_null p \<Longrightarrow> len_ok (mem w) p \<Longrightarrow>
     store_usize p v w = (Done (), w\<lparr>mem := put_bytes p (le_bytes v) (mem w)\<rparr>)"
  by (simp add: store_usize_def len_ok_def)

lemma copy_to_raw_run [run_simps]:
  "\<not> is_null p \<Longrightarrow> out_ok (mem w) p cap \<Longrightarrow> length src \<le> unat cap \<Longrightarrow>
     copy_to_raw p src w = (Done (), w\<lparr>mem := put_bytes p src (mem w)\<rparr>)"
  by (auto simp: copy_to_raw_def out_ok_def slice_ok_def elim: mapped_le)

lemma out_ok_put [mem_simps]: "out_ok m q cap \<Longrightarrow> out_ok (put_bytes p bs m) q cap"
  by (auto simp: out_ok_def slice_ok_def mapped_put)

lemma len_ok_put [mem_simps]: "len_ok m q \<Longrightarrow> len_ok (put_bytes p bs m) q"
  by (auto simp: len_ok_def mapped_put)

lemma slice_ok_put [mem_simps]: "slice_ok m q n \<Longrightarrow> slice_ok (put_bytes p bs m) q n"
  by (auto simp: slice_ok_def mapped_put)

text \<open>The \<open>usize\<close> cell at \<open>p\<close> holds \<open>v\<close>; it holds one value only.\<close>

definition usize_at :: "heap \<Rightarrow> addr \<Rightarrow> usize \<Rightarrow> bool" where
  "usize_at m p v \<longleftrightarrow> bytes_at m p (le_bytes v)"

lemma usize_at_unique: "usize_at m p v \<Longrightarrow> usize_at m p v' \<Longrightarrow> v = v'"
proof -
  assume "usize_at m p v" and "usize_at m p v'"
  then have "read_range m p 8 = le_bytes v" and "read_range m p 8 = le_bytes v'"
    unfolding usize_at_def by (auto intro: read_range_eq)
  then show ?thesis by (simp add: le_bytes_inj)
qed

lemma usize_at_put_same [mem_simps, simp]: "usize_at (put_bytes p (le_bytes v) m) p v"
  by (simp add: usize_at_def)

lemma usize_at_put_other [mem_simps]:
  "disjoint p (length bs) q 8 \<Longrightarrow> usize_at (put_bytes p bs m) q v = usize_at m q v"
  by (simp add: usize_at_def bytes_at_put_other)

text \<open>
  Inputs that may be null when their length is 0: \<open>in_ok\<close> is their contract, \<open>input_at\<close>
  says which bytes they stand for.
\<close>

definition in_ok :: "heap \<Rightarrow> addr \<Rightarrow> usize \<Rightarrow> bool" where
  "in_ok m p n \<longleftrightarrow> is_null p \<or> slice_ok m p (unat n)"

definition input_at :: "heap \<Rightarrow> addr \<Rightarrow> usize \<Rightarrow> bytes \<Rightarrow> bool" where
  "input_at m p n bs \<longleftrightarrow> (if n = 0 then bs = [] else slice_at m p n bs)"

lemma input_at_null: "input_at m p n bs \<Longrightarrow> is_null p \<Longrightarrow> n = 0"
  by (auto simp: input_at_def slice_at_def split: if_splits)

lemma slice_at_input: "slice_at m p n bs \<Longrightarrow> input_at m p n bs"
  by (auto simp: input_at_def slice_at_def)

lemma input_at_put:
  "input_at m q n cs \<Longrightarrow> disjoint p (length bs) q (length cs) \<Longrightarrow> input_at (put_bytes p bs m) q n cs"
  by (auto simp: input_at_def slice_at_put)

lemma from_raw_parts_Done [simp]:
  "from_raw_parts p n w = (Done x, w') \<longleftrightarrow>
     slice_ok (mem w) p (unat n) \<and> x = read_range (mem w) p (unat n) \<and> w' = w"
  by (auto simp: from_raw_parts_def)

end
