(* ===== verification/Status.thy ===== *)
theory Status
  imports World
begin

text \<open>
  \<open>error.rs\<close>: the status codes of the ABI, the internal error type, the panic guard, the
  writer of output buffers and the reduction of a result to a status code.
\<close>

section \<open>Status codes\<close>

datatype PqForgeStatus =
    Ok | InvalidKey | InvalidCiphertext | AuthFailed | Unaligned | Io | Device | Anchor
  | Unsupported | Internal | NullArgument | BufferTooSmall

fun code :: "PqForgeStatus \<Rightarrow> c_int" where
  "code Ok = 0"
| "code InvalidKey = 1"
| "code InvalidCiphertext = 2"
| "code AuthFailed = 3"
| "code Unaligned = 4"
| "code Io = 5"
| "code Device = 6"
| "code Anchor = 7"
| "code Unsupported = 8"
| "code Internal = 9"
| "code NullArgument = 10"
| "code BufferTooSmall = 11"

definition from_code :: "c_int \<Rightarrow> PqForgeStatus" where
  "from_code c =
    (if c = 0 then Ok
     else if c = 1 then InvalidKey
     else if c = 2 then InvalidCiphertext
     else if c = 3 then AuthFailed
     else if c = 4 then Unaligned
     else if c = 5 then Io
     else if c = 6 then Device
     else if c = 7 then Anchor
     else if c = 8 then Unsupported
     else if c = 10 then NullArgument
     else if c = 11 then BufferTooSmall
     else Internal)"

fun status_name :: "PqForgeStatus \<Rightarrow> string" where
  "status_name Ok = ''ok''"
| "status_name InvalidKey = ''invalid_key''"
| "status_name InvalidCiphertext = ''invalid_ciphertext''"
| "status_name AuthFailed = ''auth_failed''"
| "status_name Unaligned = ''unaligned''"
| "status_name Io = ''io''"
| "status_name Device = ''device''"
| "status_name Anchor = ''anchor''"
| "status_name Unsupported = ''unsupported''"
| "status_name Internal = ''internal''"
| "status_name NullArgument = ''null_argument''"
| "status_name BufferTooSmall = ''buffer_too_small''"

text \<open>The statuses are finitely many, in the order of their codes.\<close>

definition all_statuses :: "PqForgeStatus list" where
  "all_statuses = [Ok, InvalidKey, InvalidCiphertext, AuthFailed, Unaligned, Io, Device, Anchor,
     Unsupported, Internal, NullArgument, BufferTooSmall]"

lemma all_statuses_UNIV: "UNIV = set all_statuses"
proof -
  have "s \<in> set all_statuses" for s
    by (cases s) (simp_all add: all_statuses_def)
  then show ?thesis by auto
qed

instantiation PqForgeStatus :: enum
begin

definition enum_PqForgeStatus :: "PqForgeStatus list" where
  "enum_PqForgeStatus = all_statuses"

definition enum_all_PqForgeStatus :: "(PqForgeStatus \<Rightarrow> bool) \<Rightarrow> bool" where
  "enum_all_PqForgeStatus P \<longleftrightarrow> list_all P all_statuses"

definition enum_ex_PqForgeStatus :: "(PqForgeStatus \<Rightarrow> bool) \<Rightarrow> bool" where
  "enum_ex_PqForgeStatus P \<longleftrightarrow> list_ex P all_statuses"

instance
  by standard
     (simp_all only: enum_PqForgeStatus_def enum_all_PqForgeStatus_def enum_ex_PqForgeStatus_def
        all_statuses_UNIV list_all_iff list_ex_iff, simp_all add: all_statuses_def)

end

lemma from_code_code [simp]: "from_code (code s) = s"
  by (cases s) (simp_all add: from_code_def)

lemma code_inj [simp]: "code s = code t \<longleftrightarrow> s = t"
  by (metis from_code_code)

instantiation PqForgeStatus :: linorder
begin

definition less_eq_PqForgeStatus :: "PqForgeStatus \<Rightarrow> PqForgeStatus \<Rightarrow> bool" where
  "less_eq_PqForgeStatus s t \<longleftrightarrow> code s \<le> code t"

definition less_PqForgeStatus :: "PqForgeStatus \<Rightarrow> PqForgeStatus \<Rightarrow> bool" where
  "less_PqForgeStatus s t \<longleftrightarrow> code s < code t"

instance
proof
  fix s t u :: PqForgeStatus
  show "s < t \<longleftrightarrow> s \<le> t \<and> \<not> t \<le> s"
    by (auto simp: less_eq_PqForgeStatus_def less_PqForgeStatus_def not_le)
  show "s \<le> s" by (simp add: less_eq_PqForgeStatus_def)
  show "s \<le> t \<Longrightarrow> t \<le> u \<Longrightarrow> s \<le> u" by (simp add: less_eq_PqForgeStatus_def)
  show "s \<le> t \<or> t \<le> s" by (auto simp: less_eq_PqForgeStatus_def)
  show "s \<le> t \<Longrightarrow> t \<le> s \<Longrightarrow> s = t"
    unfolding less_eq_PqForgeStatus_def by (metis antisym code_inj)
qed

end

lemma code_eq_iff [simp]:
  "code s = 0 \<longleftrightarrow> s = Ok"
  "code s = 1 \<longleftrightarrow> s = InvalidKey"
  "code s = 2 \<longleftrightarrow> s = InvalidCiphertext"
  "code s = 3 \<longleftrightarrow> s = AuthFailed"
  "code s = 4 \<longleftrightarrow> s = Unaligned"
  "code s = 5 \<longleftrightarrow> s = Io"
  "code s = 6 \<longleftrightarrow> s = Device"
  "code s = 7 \<longleftrightarrow> s = Anchor"
  "code s = 8 \<longleftrightarrow> s = Unsupported"
  "code s = 9 \<longleftrightarrow> s = Internal"
  "code s = 10 \<longleftrightarrow> s = NullArgument"
  "code s = 11 \<longleftrightarrow> s = BufferTooSmall"
  by (cases s; simp)+

lemma code_from_code: "code (from_code c) = (if c \<le> 11 then c else 9)"
proof (cases "c \<le> 11")
  case True
  then have "unat c \<le> 11" by (simp add: word_le_nat_alt)
  then have "unat c \<in> {0, 1, 2, 3, 4, 5, 6, 7, 8, 9, 10, 11}" by (simp; presburger)
  then have "of_nat (unat c) \<in> (of_nat :: nat \<Rightarrow> c_int) ` {0, 1, 2, 3, 4, 5, 6, 7, 8, 9, 10, 11}"
    by (rule imageI)
  then have "c \<in> {0, 1, 2, 3, 4, 5, 6, 7, 8, 9, 10, 11}" by simp
  then show ?thesis using True by (auto simp: from_code_def)
next
  case False
  then show ?thesis by (auto simp: from_code_def)
qed

section \<open>Errors and results\<close>

datatype PqForgeError =
    EInvalidKey string | EInvalidCiphertext | EAuthFailed | EIo string | EUnsupported string
  | EInternal string

fun status :: "PqForgeError \<Rightarrow> PqForgeStatus" where
  "status (EInvalidKey _) = InvalidKey"
| "status EInvalidCiphertext = InvalidCiphertext"
| "status EAuthFailed = AuthFailed"
| "status (EIo _) = Io"
| "status (EUnsupported _) = Unsupported"
| "status (EInternal _) = Internal"

type_synonym 'a PqResult = "PqForgeError + 'a"

text \<open>
  The bodies of the entry points are closures of type \<open>PqResult<PqForgeStatus>\<close>:
  \<open>returns s\<close> is \<open>return Ok(s)\<close> and \<open>fails e\<close> is \<open>return Err(e)\<close>.
\<close>

type_synonym closure = "(world, PqForgeStatus PqResult) comp"

definition returns :: "PqForgeStatus \<Rightarrow> ('s, PqForgeStatus PqResult) comp" where
  "returns s = ret (Inr s)"

definition fails :: "PqForgeError \<Rightarrow> ('s, 'a PqResult) comp" where
  "fails e = ret (Inl e)"

text \<open>The \<open>?\<close> operator.\<close>

definition try_comp :: "('s, 'a PqResult) comp \<Rightarrow> ('a \<Rightarrow> ('s, 'b PqResult) comp) \<Rightarrow> ('s, 'b PqResult) comp" where
  "try_comp m k = bind_comp m (\<lambda>r. case r of Inl e \<Rightarrow> fails e | Inr x \<Rightarrow> k x)"

lemma returns_run [run_simps, simp]: "returns s w = (Done (Inr s), w)"
  by (simp add: returns_def)

lemma fails_run [run_simps, simp]: "fails e w = (Done (Inl e), w)"
  by (simp add: fails_def)

lemma try_ok [run_simps]: "m s = (Done (Inr x), s') \<Longrightarrow> try_comp m k s = k x s'"
  by (simp add: try_comp_def run_simps)

lemma try_err [run_simps]: "m s = (Done (Inl e), s') \<Longrightarrow> try_comp m k s = (Done (Inl e), s')"
  by (simp add: try_comp_def run_simps)

section \<open>The panic guard and the reduction to a code\<close>

fun panic_message :: "panic_payload \<Rightarrow> string" where
  "panic_message (StrPayload s) = s"
| "panic_message (StringPayload s) = s"
| "panic_message OtherPayload = ''non-string panic payload''"

text \<open>
  The panic hook runs when a panic starts. No code between the start of a panic and
  \<open>catch_unwind\<close> replaces the hook, so the model runs it where the panic is caught.
\<close>

definition run_hook :: "panic_payload \<Rightarrow> world \<Rightarrow> world" where
  "run_hook p w = (case hook w of
       SilentHook \<Rightarrow> w
     | ReportingHook _ \<Rightarrow> w\<lparr>panic_log := panic_log w @ [p]\<rparr>)"

definition guard :: "(world, 'a PqResult) comp \<Rightarrow> (world, 'a PqResult) comp" where
  "guard f = (\<lambda>w. case f w of
       (Panic p, w') \<Rightarrow> (Done (Inl (EInternal (panic_message p))), run_hook p w')
     | (Done r, w') \<Rightarrow> (Done r, w')
     | (Abort, w') \<Rightarrow> (Abort, w')
     | (Undefined, w') \<Rightarrow> (Undefined, w'))"

definition finish :: "PqForgeStatus PqResult \<Rightarrow> c_int" where
  "finish r = (case r of Inr s \<Rightarrow> code s | Inl e \<Rightarrow> code (status e))"

text \<open>\<open>finish(guard(|| body))\<close>, the shape of every fallible entry point.\<close>

definition boundary :: "closure \<Rightarrow> (world, c_int) comp" where
  "boundary body = bind_comp (guard body) (\<lambda>r. ret (finish r))"

lemma guard_Done [run_simps]: "f w = (Done r, w') \<Longrightarrow> guard f w = (Done r, w')"
  by (simp add: guard_def)

lemma guard_Panic [run_simps]:
  "f w = (Panic p, w') \<Longrightarrow> guard f w = (Done (Inl (EInternal (panic_message p))), run_hook p w')"
  by (simp add: guard_def)

lemma boundary_ok [run_simps]: "body w = (Done (Inr s), w') \<Longrightarrow> boundary body w = (Done (code s), w')"
  by (simp add: boundary_def run_simps finish_def)

lemma boundary_err [run_simps]:
  "body w = (Done (Inl e), w') \<Longrightarrow> boundary body w = (Done (code (status e)), w')"
  by (simp add: boundary_def run_simps finish_def)

lemma boundary_Panic [run_simps]:
  "body w = (Panic p, w') \<Longrightarrow> boundary body w = (Done (code Internal), run_hook p w')"
  by (simp add: boundary_def run_simps finish_def)

lemma run_hook_mem [simp]: "mem (run_hook p w) = mem w"
  by (simp add: run_hook_def split: panic_hook.splits)

section \<open>Writing an output buffer\<close>

definition write_out :: "bytes \<Rightarrow> addr \<Rightarrow> usize \<Rightarrow> addr \<Rightarrow> (world, PqForgeStatus) comp" where
  "write_out src out cap len =
    (if is_null len then ret NullArgument
     else bind_comp (store_usize len (of_nat (length src))) (\<lambda>_.
       if is_null out then ret NullArgument
       else if unat cap < length src then ret BufferTooSmall
       else bind_comp (copy_to_raw out src) (\<lambda>_. ret Ok)))"

text \<open>What \<open>write_out\<close> does to memory and what it answers, in one equation.\<close>

definition write_out_status :: "bytes \<Rightarrow> addr \<Rightarrow> usize \<Rightarrow> addr \<Rightarrow> PqForgeStatus" where
  "write_out_status src out cap len =
    (if is_null len \<or> is_null out then NullArgument
     else if unat cap < length src then BufferTooSmall else Ok)"

definition write_out_mem :: "bytes \<Rightarrow> addr \<Rightarrow> usize \<Rightarrow> addr \<Rightarrow> heap \<Rightarrow> heap" where
  "write_out_mem src out cap len m =
    (if is_null len then m
     else let m1 = put_bytes len (le_bytes (of_nat (length src))) m
          in if is_null out \<or> unat cap < length src then m1 else put_bytes out src m1)"

lemma write_out_run:
  assumes "out_ok (mem w) out cap" and "len_ok (mem w) len"
  shows "write_out src out cap len w =
    (Done (write_out_status src out cap len), w\<lparr>mem := write_out_mem src out cap len (mem w)\<rparr>)"
  using assms
  by (auto simp: write_out_def write_out_status_def write_out_mem_def bind_comp_def
        store_usize_run copy_to_raw_run [where cap = cap] out_ok_put Let_def)

lemma write_out_mem_keeps:
  "mapped m q n \<Longrightarrow> mapped (write_out_mem src out cap len m) q n"
  "slice_ok m q n \<Longrightarrow> slice_ok (write_out_mem src out cap len m) q n"
  "out_ok m q c \<Longrightarrow> out_ok (write_out_mem src out cap len m) q c"
  "len_ok m q \<Longrightarrow> len_ok (write_out_mem src out cap len m) q"
  by (simp_all add: write_out_mem_def Let_def mem_simps)

text \<open>Whatever it did, what was a valid output before is one after.\<close>

lemma write_out_Done_keeps:
  "write_out src out cap len w = (Done s, w') \<Longrightarrow>
     (\<forall>q c. out_ok (mem w) q c \<longrightarrow> out_ok (mem w') q c) \<and> (\<forall>q. len_ok (mem w) q \<longrightarrow> len_ok (mem w') q)"
  by (auto simp: write_out_def bind_comp_def store_usize_def copy_to_raw_def mem_simps
      split: if_splits)

lemma write_out_status_Ok:
  "write_out_status src out cap len = Ok \<longleftrightarrow>
     \<not> is_null len \<and> \<not> is_null out \<and> length src \<le> unat cap"
  by (auto simp: write_out_status_def)

text \<open>A complete write: the cell holds the length, the buffer the bytes.\<close>

lemma write_out_mem_complete:
  assumes "\<not> is_null len" "\<not> is_null out" "length src \<le> unat cap" "disjoint len 8 out (length src)"
  shows "bytes_at (write_out_mem src out cap len m) out src"
    and "usize_at (write_out_mem src out cap len m) len (of_nat (length src))"
  using assms by (simp_all add: write_out_mem_def usize_at_put_other disjoint_sym [of out])

lemma write_out_mem_other:
  assumes "is_null len \<or> disjoint len 8 q (length bs)"
    and "is_null out \<or> disjoint out (unat cap) q (length bs)"
  shows "bytes_at (write_out_mem src out cap len m) q bs = bytes_at m q bs"
proof -
  have "is_null out \<or> length src > unat cap \<or> disjoint out (length src) q (length bs)"
    using assms(2) disjoint_le [of out "unat cap" q "length bs" "length src" "length bs"]
    by (cases "length src \<le> unat cap") auto
  with assms(1) show ?thesis
    by (auto simp: write_out_mem_def Let_def bytes_at_put_other)
qed

section \<open>Closures that stay inside their contract\<close>

text \<open>
  \<open>contained m w\<close>: running \<open>m\<close> from \<open>w\<close> neither aborts the process nor leaves defined
  behaviour. It may panic; that is what the guard is for.
\<close>

definition contained :: "('s, 'a) comp \<Rightarrow> 's \<Rightarrow> bool" where
  "contained m s \<longleftrightarrow> fst (m s) \<noteq> Abort \<and> fst (m s) \<noteq> Undefined"

named_theorems contained_intros \<open>containment of the effect combinators\<close>

lemma contained_ret [contained_intros, simp]: "contained (ret x) s"
  by (simp add: contained_def)

lemma contained_returns [contained_intros, simp]: "contained (returns x) s"
  by (simp add: contained_def)

lemma contained_fails [contained_intros, simp]: "contained (fails x) s"
  by (simp add: contained_def)

lemma contained_Done: "m s = (Done x, s') \<Longrightarrow> contained m s"
  by (simp add: contained_def)

lemma contained_bind [contained_intros]:
  "contained m s \<Longrightarrow> (\<And>x s'. m s = (Done x, s') \<Longrightarrow> contained (k x) s') \<Longrightarrow> contained (bind_comp m k) s"
  by (auto simp: contained_def bind_comp_def split: prod.splits outcome.splits)

lemma contained_bind_Done:
  "m s = (Done x, s') \<Longrightarrow> contained (k x) s' \<Longrightarrow> contained (bind_comp m k) s"
  by (simp add: contained_def run_simps)

lemma contained_try [contained_intros]:
  "contained m s \<Longrightarrow> (\<And>x s'. m s = (Done (Inr x), s') \<Longrightarrow> contained (k x) s') \<Longrightarrow> contained (try_comp m k) s"
  unfolding try_comp_def by (rule contained_bind) (auto split: sum.splits)

lemma contained_ext [contained_intros]:
  "contained e s \<Longrightarrow> (\<And>x. r = ExtOk x \<Longrightarrow> contained (k x) s) \<Longrightarrow> contained (ext_case r e k) s"
  by (cases r) (simp_all add: contained_def)

lemma contained_scope [contained_intros]: "contained m s \<Longrightarrow> contained (scope_drop m d) s"
  by (simp add: contained_def scope_drop_outcome)

lemma contained_from_raw [contained_intros]:
  "slice_ok (mem w) p (unat n) \<Longrightarrow> contained (from_raw_parts p n) w"
  by (simp add: contained_def from_raw_parts_def)

lemma contained_write_out [contained_intros]:
  "out_ok (mem w) out cap \<Longrightarrow> len_ok (mem w) len \<Longrightarrow> contained (write_out src out cap len) w"
  by (simp add: contained_def write_out_run)

text \<open>
  The interface between an entry point and the foreign caller: under the safety contract
  of its documentation the closure is contained, and then the caller gets a status code
  of the taxonomy whatever the linked crate did, panics included.
\<close>

locale ffi_entry =
  fixes body :: "'a \<Rightarrow> closure"
    and contract :: "'a \<Rightarrow> world \<Rightarrow> bool"
  assumes body_contained: "contract a w \<Longrightarrow> contained (body a) w"
begin

lemma returns_status: "contract a w \<Longrightarrow> \<exists>s w'. boundary (body a) w = (Done (code s), w')"
proof -
  assume "contract a w"
  then have c: "contained (body a) w" by (rule body_contained)
  obtain r w' where r: "body a w = (r, w')" by force
  show ?thesis
  proof (cases r)
    case (Done x)
    with r show ?thesis by (cases x) (auto simp: run_simps)
  next
    case (Panic p)
    with r have "boundary (body a) w = (Done (code Internal), run_hook p w')"
      by (simp add: run_simps)
    then show ?thesis by blast
  qed (use c r in \<open>auto simp: contained_def\<close>)
qed

lemma code_in_taxonomy: "contract a w \<Longrightarrow> \<exists>c w'. boundary (body a) w = (Done c, w') \<and> code (from_code c) = c"
  using returns_status by fastforce

lemma panic_is_internal:
  "contract a w \<Longrightarrow> body a w = (Panic p, w') \<Longrightarrow> boundary (body a) w = (Done (code Internal), run_hook p w')"
  by (simp add: run_simps)

end

text \<open>
  Whatever the caller passed, a \<open>write_out\<close> that returns has changed
  nothing outside the length cell and the first \<open>out_cap\<close> bytes of the output buffer, and
  nothing of that buffer unless it returned \<open>Ok\<close>.
\<close>

lemma write_out_bounds:
  assumes "write_out src out cap len w = (Done s, w')"
    and "\<not> (len \<le> a \<and> a < len + 8)" and "s = Ok \<Longrightarrow> \<not> (out \<le> a \<and> a < out + unat cap)"
  shows "mem w' a = mem w a \<and> w'\<lparr>mem := mem w\<rparr> = w"
  using assms
  by (auto simp: write_out_def bind_comp_def store_usize_def copy_to_raw_def put_bytes_def
      split: if_splits)

end
