(* ===== verification/Secret.thy ===== *)
theory Secret
  imports Status
begin

text \<open>
  \<open>secret.rs\<close> (the Unix configuration): the locked, wiped-on-drop key buffer, and the
  \<open>Zeroizing\<close> buffers of the crate \<open>zeroize\<close>. What that crate leaves of a vector is the
  field \<open>vec_zeroize\<close> of the world, what \<open>mlock\<close> answers is its field \<open>mlock_rc\<close>.
\<close>

section \<open>PinnedSecret\<close>

record PinnedSecret =
  sec_bytes :: bytes
  sec_locked :: bool

definition pinned_lock :: "PinnedSecret \<Rightarrow> (world, PinnedSecret) comp" where
  "pinned_lock s =
    (if sec_bytes s = [] then ret s
     else (\<lambda>w. let rc = mlock_rc w (locked_bytes w) (length (sec_bytes s)) in
       (Done (s\<lparr>sec_locked := (rc = 0)\<rparr>),
        if rc = 0 then w\<lparr>locked_bytes := locked_bytes w + length (sec_bytes s)\<rparr> else w)))"

definition pinned_from_slice :: "bytes \<Rightarrow> (world, PinnedSecret PqResult) comp" where
  "pinned_from_slice src =
    bind_comp (pinned_lock \<lparr>sec_bytes = src, sec_locked = False\<rparr>) (\<lambda>secret. ret (Inr secret))"

definition pinned_as_slice :: "PinnedSecret \<Rightarrow> bytes" where
  "pinned_as_slice s = sec_bytes s"

text \<open>
  \<open>drop\<close>: \<open>self.bytes.zeroize()\<close> and then, if the buffer was locked,
  \<open>munlock(self.bytes.as_ptr(), self.bytes.len())\<close>, with the length the vector has by then.
\<close>

definition pinned_drop :: "PinnedSecret \<Rightarrow> world \<Rightarrow> world" where
  "pinned_drop s w =
    (let (memory, elements) = vec_zeroize w (sec_bytes s);
         w1 = w\<lparr>released := released w @ [memory]\<rparr>
     in if sec_locked s then w1\<lparr>locked_bytes := locked_bytes w1 - length elements\<rparr> else w1)"

definition with_pinned :: "bytes \<Rightarrow> (PinnedSecret \<Rightarrow> (world, 'a PqResult) comp) \<Rightarrow> (world, 'a PqResult) comp" where
  "with_pinned src body =
    try_comp (pinned_from_slice src) (\<lambda>secret. scope_drop (body secret) (pinned_drop secret))"

section \<open>Zeroizing buffers\<close>

definition zeroizing_drop :: "bytes \<Rightarrow> world \<Rightarrow> world" where
  "zeroizing_drop bs w = w\<lparr>released := released w @ [fst (vec_zeroize w bs)]\<rparr>"

definition with_zeroizing :: "bytes \<Rightarrow> (bytes \<Rightarrow> (world, 'a) comp) \<Rightarrow> (world, 'a) comp" where
  "with_zeroizing bs body = scope_drop (body bs) (zeroizing_drop bs)"

section \<open>Lemmas\<close>

text \<open>Documented behaviour of the crate: the whole memory of the vector is zero.\<close>

definition wipes :: "world \<Rightarrow> bool" where
  "wipes w \<longleftrightarrow> (\<forall>bs. fst (vec_zeroize w bs) = replicate (length bs) 0)"

text \<open>Its implementation for \<open>Vec\<close> also clears the vector (\<open>self.clear()\<close>).\<close>

definition clears :: "world \<Rightarrow> bool" where
  "clears w \<longleftrightarrow> (\<forall>bs. snd (vec_zeroize w bs) = [])"

lemma zeroizing_drop_wipes:
  "wipes w \<Longrightarrow> zeroizing_drop bs w = w\<lparr>released := released w @ [replicate (length bs) 0]\<rparr>"
  by (simp add: zeroizing_drop_def wipes_def)

lemma zeroizing_drop_fields [simp]:
  "mem (zeroizing_drop bs w) = mem w"
  "rng (zeroizing_drop bs w) = rng w"
  "inodes (zeroizing_drop bs w) = inodes w"
  "released (zeroizing_drop bs w) = released w @ [fst (vec_zeroize w bs)]"
  "vec_zeroize (zeroizing_drop bs w) = vec_zeroize w"
  by (simp_all add: zeroizing_drop_def)

lemma with_zeroizing_Done [run_simps]:
  "body bs w = (Done x, w') \<Longrightarrow> with_zeroizing bs body w = (Done x, zeroizing_drop bs w')"
  by (simp add: with_zeroizing_def run_simps)

lemma with_zeroizing_Panic [run_simps]:
  "body bs w = (Panic p, w') \<Longrightarrow> with_zeroizing bs body w = (Panic p, zeroizing_drop bs w')"
  by (simp add: with_zeroizing_def run_simps)

lemma contained_zeroizing [contained_intros]:
  "contained (body bs) w \<Longrightarrow> contained (with_zeroizing bs body) w"
  by (simp add: with_zeroizing_def contained_scope)

lemma pinned_from_slice_bytes:
  "pinned_from_slice src w = (Done (Inr s), w') \<Longrightarrow> pinned_as_slice s = src"
  by (auto simp: pinned_from_slice_def pinned_lock_def pinned_as_slice_def bind_comp_def Let_def
      split: if_splits)

text \<open>
  Creation never fails: the secret holds the bytes, and it is marked locked exactly when
  pages were locked for it.
\<close>

lemma pinned_from_slice_run:
  obtains s w' where "pinned_from_slice src w = (Done (Inr s), w')" and "sec_bytes s = src"
    and "w' = w\<lparr>locked_bytes := locked_bytes w + (if sec_locked s then length src else 0)\<rparr>"
    and "sec_locked s \<longleftrightarrow> src \<noteq> [] \<and> mlock_rc w (locked_bytes w) (length src) = 0"
proof (cases "src = []")
  case True
  then have "pinned_from_slice src w = (Done (Inr \<lparr>sec_bytes = src, sec_locked = False\<rparr>), w)"
    by (simp add: pinned_from_slice_def pinned_lock_def)
  then show ?thesis by (rule that) (simp_all add: True)
next
  case False
  let ?l = "mlock_rc w (locked_bytes w) (length src) = 0"
  have "pinned_from_slice src w = (Done (Inr \<lparr>sec_bytes = src, sec_locked = ?l\<rparr>),
      w\<lparr>locked_bytes := locked_bytes w + (if ?l then length src else 0)\<rparr>)"
    using False by (simp add: pinned_from_slice_def pinned_lock_def bind_comp_def Let_def)
  then show ?thesis by (rule that) (simp_all add: False)
qed

lemma contained_pinned [contained_intros]:
  assumes "\<And>s w'. sec_bytes s = src \<Longrightarrow> w' = w\<lparr>locked_bytes := locked_bytes w'\<rparr> \<Longrightarrow> contained (body s) w'"
  shows "contained (with_pinned src body) w"
proof -
  obtain s w' where r: "pinned_from_slice src w = (Done (Inr s), w')" and "sec_bytes s = src"
    and w': "w' = w\<lparr>locked_bytes := locked_bytes w + (if sec_locked s then length src else 0)\<rparr>"
    by (rule pinned_from_slice_run)
  then have "contained (body s) w'" using assms by (simp add: w')
  with r show ?thesis
    by (simp add: with_pinned_def contained_def run_simps scope_drop_outcome)
qed

lemma pinned_drop_released [simp]:
  "released (pinned_drop s w) = released w @ [fst (vec_zeroize w (sec_bytes s))]"
  by (simp add: pinned_drop_def Let_def split: prod.splits)

lemma pinned_drop_locked:
  "locked_bytes (pinned_drop s w) =
     locked_bytes w - (if sec_locked s then length (snd (vec_zeroize w (sec_bytes s))) else 0)"
  by (simp add: pinned_drop_def Let_def split: prod.splits)

lemma pinned_drop_fields [simp]:
  "mem (pinned_drop s w) = mem w"
  "names (pinned_drop s w) = names w"
  "inodes (pinned_drop s w) = inodes w"
  "vec_zeroize (pinned_drop s w) = vec_zeroize w"
  by (simp_all add: pinned_drop_def Let_def split: prod.splits)

end
