(* ===== verification/Contract.thy ===== *)
theory Contract
  imports Secret
begin

text \<open>
  The contract the entry points of the crypto modules share with their callers: a
  cryptographic verdict on byte strings is delivered through the output pointers. A
  verdict is a refusal with a status, the bytes to hand out, or a panic of the linked
  crate; \<open>deliver\<close> says what the caller observes of it.
\<close>

datatype 'a verdict = Refuse PqForgeStatus | Produce 'a | Blow panic_payload

definition on_ext :: "'a ext \<Rightarrow> PqForgeStatus \<Rightarrow> ('a \<Rightarrow> 'b verdict) \<Rightarrow> 'b verdict" where
  "on_ext r s k = (case r of ExtOk x \<Rightarrow> k x | ExtErr \<Rightarrow> Refuse s | ExtPanic p \<Rightarrow> Blow p)"

lemma on_ext_simps [simp]:
  "on_ext (ExtOk x) s k = k x"
  "on_ext ExtErr s k = Refuse s"
  "on_ext (ExtPanic p) s k = Blow p"
  by (simp_all add: on_ext_def)

section \<open>One output buffer\<close>

definition deliver :: "bytes verdict \<Rightarrow> addr \<Rightarrow> usize \<Rightarrow> addr \<Rightarrow> world \<Rightarrow> c_int outcome \<times> world" where
  "deliver v out cap len w = (case v of
       Refuse s \<Rightarrow> (Done (code s), w)
     | Blow p \<Rightarrow> (Done (code Internal), run_hook p w)
     | Produce bs \<Rightarrow> (Done (code (write_out_status bs out cap len)),
                     w\<lparr>mem := write_out_mem bs out cap len (mem w)\<rparr>))"

lemma deliver_simps [simp]:
  "deliver (Refuse s) out cap len w = (Done (code s), w)"
  "deliver (Blow p) out cap len w = (Done (code Internal), run_hook p w)"
  "deliver (Produce bs) out cap len w = (Done (code (write_out_status bs out cap len)),
     w\<lparr>mem := write_out_mem bs out cap len (mem w)\<rparr>)"
  by (simp_all add: deliver_def)

text \<open>A result that fits is handed out whole.\<close>

lemma deliver_complete:
  assumes "v = Produce bs" "\<not> is_null len" "\<not> is_null out" "length bs \<le> unat cap"
    and "disjoint len 8 out (length bs)"
  obtains w' where "deliver v out cap len w = (Done (code Ok), w')"
    and "bytes_at (mem w') out bs" and "usize_at (mem w') len (of_nat (length bs))"
    and "w' = w\<lparr>mem := put_bytes out bs (put_bytes len (le_bytes (of_nat (length bs))) (mem w))\<rparr>"
proof -
  let ?w = "w\<lparr>mem := write_out_mem bs out cap len (mem w)\<rparr>"
  have "deliver v out cap len w = (Done (code Ok), ?w)"
    using assms(1-4) by (simp add: write_out_status_def)
  moreover have "bytes_at (mem ?w) out bs" "usize_at (mem ?w) len (of_nat (length bs))"
    using write_out_mem_complete [OF assms(2-5)] by simp_all
  ultimately show ?thesis
    by (rule that) (use assms in \<open>simp add: write_out_mem_def\<close>)
qed

text \<open>Nothing but a finished result touches the caller's memory.\<close>

lemma deliver_silent:
  "\<forall>bs. v \<noteq> Produce bs \<Longrightarrow> deliver v out cap len w = (r, w') \<Longrightarrow> mem w' = mem w"
  by (cases v) auto

section \<open>Two output buffers, the second only if the first was written\<close>

definition write_two_status ::
  "bytes \<Rightarrow> bytes \<Rightarrow> addr \<Rightarrow> usize \<Rightarrow> addr \<Rightarrow> addr \<Rightarrow> usize \<Rightarrow> addr \<Rightarrow> PqForgeStatus" where
  "write_two_status b1 b2 o1 c1 l1 o2 c2 l2 =
    (let s1 = write_out_status b1 o1 c1 l1
     in if s1 \<noteq> Ok then s1 else write_out_status b2 o2 c2 l2)"

definition write_two_mem ::
  "bytes \<Rightarrow> bytes \<Rightarrow> addr \<Rightarrow> usize \<Rightarrow> addr \<Rightarrow> addr \<Rightarrow> usize \<Rightarrow> addr \<Rightarrow> heap \<Rightarrow> heap" where
  "write_two_mem b1 b2 o1 c1 l1 o2 c2 l2 m =
    (let m1 = write_out_mem b1 o1 c1 l1 m
     in if write_out_status b1 o1 c1 l1 \<noteq> Ok then m1 else write_out_mem b2 o2 c2 l2 m1)"

definition deliver_two ::
  "(bytes \<times> bytes) verdict \<Rightarrow> addr \<Rightarrow> usize \<Rightarrow> addr \<Rightarrow> addr \<Rightarrow> usize \<Rightarrow> addr \<Rightarrow> world \<Rightarrow> c_int outcome \<times> world" where
  "deliver_two v o1 c1 l1 o2 c2 l2 w = (case v of
       Refuse s \<Rightarrow> (Done (code s), w)
     | Blow p \<Rightarrow> (Done (code Internal), run_hook p w)
     | Produce (b1, b2) \<Rightarrow> (Done (code (write_two_status b1 b2 o1 c1 l1 o2 c2 l2)),
                     w\<lparr>mem := write_two_mem b1 b2 o1 c1 l1 o2 c2 l2 (mem w)\<rparr>))"

lemma deliver_two_simps [simp]:
  "deliver_two (Refuse s) o1 c1 l1 o2 c2 l2 w = (Done (code s), w)"
  "deliver_two (Blow p) o1 c1 l1 o2 c2 l2 w = (Done (code Internal), run_hook p w)"
  "deliver_two (Produce (b1, b2)) o1 c1 l1 o2 c2 l2 w =
     (Done (code (write_two_status b1 b2 o1 c1 l1 o2 c2 l2)),
      w\<lparr>mem := write_two_mem b1 b2 o1 c1 l1 o2 c2 l2 (mem w)\<rparr>)"
  by (simp_all add: deliver_two_def)

text \<open>The statements the key generators end with: public part first, then the secret part.\<close>

lemma write_two_run:
  assumes "out_ok (mem w) o1 c1" "len_ok (mem w) l1" "out_ok (mem w) o2 c2" "len_ok (mem w) l2"
  shows "bind_comp (write_out b1 o1 c1 l1) (\<lambda>s1.
       if s1 \<noteq> Ok then returns s1
       else bind_comp (write_out b2 o2 c2 l2) (\<lambda>s2. returns s2)) w =
    (Done (Inr (write_two_status b1 b2 o1 c1 l1 o2 c2 l2)),
     w\<lparr>mem := write_two_mem b1 b2 o1 c1 l1 o2 c2 l2 (mem w)\<rparr>)"
  using assms
  by (simp add: bind_comp_def write_out_run write_out_mem_keeps write_two_status_def
      write_two_mem_def Let_def)

text \<open>Four output cells that do not overlap where they are written.\<close>

definition apart :: "bytes \<Rightarrow> bytes \<Rightarrow> addr \<Rightarrow> addr \<Rightarrow> addr \<Rightarrow> addr \<Rightarrow> bool" where
  "apart b1 b2 o1 l1 o2 l2 \<longleftrightarrow>
     disjoint l1 8 o1 (length b1) \<and> disjoint l2 8 o2 (length b2) \<and>
     disjoint l2 8 o1 (length b1) \<and> disjoint o2 (length b2) o1 (length b1) \<and>
     disjoint l2 8 l1 8 \<and> disjoint o2 (length b2) l1 8"

lemma write_two_complete:
  fixes m :: heap
  assumes "\<not> is_null l1" "\<not> is_null o1" "length b1 \<le> unat c1"
    and "\<not> is_null l2" "\<not> is_null o2" "length b2 \<le> unat c2" "apart b1 b2 o1 l1 o2 l2"
  defines "m' \<equiv> write_two_mem b1 b2 o1 c1 l1 o2 c2 l2 m"
  shows "write_two_status b1 b2 o1 c1 l1 o2 c2 l2 = Ok"
    and "bytes_at m' o1 b1" and "usize_at m' l1 (of_nat (length b1))"
    and "bytes_at m' o2 b2" and "usize_at m' l2 (of_nat (length b2))"
  using assms
  by (simp_all add: m'_def write_two_status_def write_two_mem_def write_out_status_def
      write_out_mem_def apart_def usize_at_def bytes_at_put_other disjoint_sym [of o2 _ l2]
      disjoint_sym [of o1 _ l1])

text \<open>The second buffer and its length are untouched when the first could not be written.\<close>

lemma write_two_first_fails:
  "write_out_status b1 o1 c1 l1 \<noteq> Ok \<Longrightarrow>
     write_two_status b1 b2 o1 c1 l1 o2 c2 l2 = write_out_status b1 o1 c1 l1 \<and>
     write_two_mem b1 b2 o1 c1 l1 o2 c2 l2 m = write_out_mem b1 o1 c1 l1 m"
  by (simp add: write_two_status_def write_two_mem_def)

section \<open>Calls that draw randomness, calls that only panic\<close>

definition rng_call :: "(nat \<Rightarrow> 'a \<times> nat) \<Rightarrow> (world, 'a) comp" where
  "rng_call f = (\<lambda>w. case f (rng w) of (r, g) \<Rightarrow> (Done r, w\<lparr>rng := g\<rparr>))"

definition infallible :: "panic_payload + 'a \<Rightarrow> ('a \<Rightarrow> ('s, 'b) comp) \<Rightarrow> ('s, 'b) comp" where
  "infallible r k = (case r of Inl p \<Rightarrow> (\<lambda>s. (Panic p, s)) | Inr x \<Rightarrow> k x)"

lemma rng_call_run [run_simps]: "rng_call f w = (Done (fst (f (rng w))), w\<lparr>rng := snd (f (rng w))\<rparr>)"
  by (simp add: rng_call_def split: prod.splits)

lemma rng_call_Done: "rng_call f w = (Done x, w') \<Longrightarrow> w' = w\<lparr>rng := snd (f (rng w))\<rparr>"
  by (simp add: rng_call_run)

lemma contained_rng_call [contained_intros]: "contained (rng_call f) w"
  by (simp add: contained_def rng_call_run)

lemma contained_infallible [contained_intros]:
  "(\<And>x. r = Inr x \<Longrightarrow> contained (k x) s) \<Longrightarrow> contained (infallible r k) s"
  by (auto simp: infallible_def contained_def split: sum.splits)

lemma contained_write_two [contained_intros]:
  "out_ok (mem w) o1 c1 \<Longrightarrow> len_ok (mem w) l1 \<Longrightarrow> out_ok (mem w) o2 c2 \<Longrightarrow> len_ok (mem w) l2 \<Longrightarrow>
   contained (bind_comp (write_out b1 o1 c1 l1) (\<lambda>s1.
       if s1 \<noteq> Ok then returns s1
       else bind_comp (write_out b2 o2 c2 l2) (\<lambda>s2. returns s2))) w"
  by (rule contained_Done) (rule write_two_run)

section \<open>Pushing the boundary through a closure\<close>

text \<open>
  \<open>then_wipe bufs\<close> is the end of the scopes of the wiped buffers \<open>bufs\<close>, seen from outside
  the boundary. The rules of \<open>boundary_simps\<close> evaluate an entry point statement by
  statement without naming its intermediate results.
\<close>

definition then_wipe :: "bytes list \<Rightarrow> 'a outcome \<times> world \<Rightarrow> 'a outcome \<times> world" where
  "then_wipe bufs = (\<lambda>(r, w). (r, case r of Done _ \<Rightarrow> fold zeroizing_drop bufs w | _ \<Rightarrow> w))"

definition wiped_second :: "('a \<times> bytes) verdict \<Rightarrow> bytes list" where
  "wiped_second v = (case v of Produce (_, s) \<Rightarrow> [s] | _ \<Rightarrow> [])"

definition wiped_only :: "bytes verdict \<Rightarrow> bytes list" where
  "wiped_only v = (case v of Produce s \<Rightarrow> [s] | _ \<Rightarrow> [])"

lemma wiped_simps [simp]:
  "wiped_second (Produce (b, s)) = [s]" "wiped_second (Refuse st) = []" "wiped_second (Blow p) = []"
  "wiped_only (Produce s) = [s]" "wiped_only (Refuse st) = []" "wiped_only (Blow p) = []"
  by (simp_all add: wiped_second_def wiped_only_def)

lemma then_wipe_simps [simp]:
  "then_wipe [] x = x"
  "then_wipe bufs (Done c, w) = (Done c, fold zeroizing_drop bufs w)"
  by (cases x) (simp_all add: then_wipe_def split: outcome.splits)

named_theorems boundary_simps \<open>evaluation of an entry point\<close>

lemma boundary_ext_case [boundary_simps]:
  "boundary (ext_case r e k) w = (case r of
      ExtOk x \<Rightarrow> boundary (k x) w
    | ExtErr \<Rightarrow> boundary e w
    | ExtPanic p \<Rightarrow> (Done (code Internal), run_hook p w))"
  by (cases r) (simp_all add: run_simps)

lemma boundary_infallible [boundary_simps]:
  "boundary (infallible r k) w = (case r of
      Inl p \<Rightarrow> (Done (code Internal), run_hook p w)
    | Inr x \<Rightarrow> boundary (k x) w)"
  by (cases r) (simp_all add: infallible_def run_simps)

lemma boundary_returns [boundary_simps]:
  "boundary (returns s) w = (Done (code s), w)"
  "boundary (fails e) w = (Done (code (status e)), w)"
  by (simp_all add: run_simps)

lemma boundary_bind_Done: "m w = (Done x, w') \<Longrightarrow> boundary (bind_comp m k) w = boundary (k x) w'"
  by (simp add: boundary_def guard_def bind_comp_def)

lemma boundary_rng_call [boundary_simps]:
  "boundary (bind_comp (rng_call f) k) w = boundary (k (fst (f (rng w)))) (w\<lparr>rng := snd (f (rng w))\<rparr>)"
  by (rule boundary_bind_Done) (rule rng_call_run)

lemma boundary_from_raw [boundary_simps]:
  "slice_at (mem w) p n bs \<Longrightarrow> boundary (bind_comp (from_raw_parts p n) k) w = boundary (k bs) w"
  by (rule boundary_bind_Done) (rule from_raw_parts_run)

lemma boundary_write_out [boundary_simps]:
  "out_ok (mem w) out cap \<Longrightarrow> len_ok (mem w) len \<Longrightarrow>
     boundary (bind_comp (write_out bs out cap len) (\<lambda>s. returns s)) w =
       (Done (code (write_out_status bs out cap len)), w\<lparr>mem := write_out_mem bs out cap len (mem w)\<rparr>)"
  by (simp add: boundary_bind_Done [OF write_out_run] boundary_returns)

lemma boundary_write_two [boundary_simps]:
  "out_ok (mem w) o1 c1 \<Longrightarrow> len_ok (mem w) l1 \<Longrightarrow> out_ok (mem w) o2 c2 \<Longrightarrow> len_ok (mem w) l2 \<Longrightarrow>
     boundary (bind_comp (write_out b1 o1 c1 l1) (\<lambda>s1.
       if s1 \<noteq> Ok then returns s1
       else bind_comp (write_out b2 o2 c2 l2) (\<lambda>s2. returns s2))) w =
       (Done (code (write_two_status b1 b2 o1 c1 l1 o2 c2 l2)),
        w\<lparr>mem := write_two_mem b1 b2 o1 c1 l1 o2 c2 l2 (mem w)\<rparr>)"
  by (rule boundary_ok) (rule write_two_run)

lemma run_hook_drop: "run_hook p (zeroizing_drop bs w) = zeroizing_drop bs (run_hook p w)"
  by (simp add: run_hook_def zeroizing_drop_def split: panic_hook.splits)

lemma boundary_zeroizing [boundary_simps]:
  "boundary (with_zeroizing bs body) w = then_wipe [bs] (boundary (body bs) w)"
  by (auto simp: boundary_def guard_def bind_comp_def with_zeroizing_def scope_drop_def then_wipe_def
      run_hook_drop split: prod.splits outcome.splits)

lemma mem_fold_drop [simp]:
  "mem (fold zeroizing_drop bufs w) = mem w" "rng (fold zeroizing_drop bufs w) = rng w"
  by (induction bufs arbitrary: w) simp_all

lemma zeroizing_drop_mem_update:
  "zeroizing_drop bs (w\<lparr>mem := m\<rparr>) = (zeroizing_drop bs w)\<lparr>mem := m\<rparr>"
  by (simp add: zeroizing_drop_def)

text \<open>The results of a successful call.\<close>

lemma deliver_Ok:
  assumes "deliver v out cap len w = (Done (code Ok), w')" and "v \<noteq> Refuse Ok"
  obtains bs where "v = Produce bs" "\<not> is_null len" "\<not> is_null out" "length bs \<le> unat cap"
    and "w' = w\<lparr>mem := write_out_mem bs out cap len (mem w)\<rparr>"
  using assms by (cases v) (auto simp: write_out_status_Ok)

lemma deliver_two_Ok:
  assumes "deliver_two v o1 c1 l1 o2 c2 l2 w = (Done (code Ok), w')" and "v \<noteq> Refuse Ok"
  obtains b1 b2 where "v = Produce (b1, b2)" "\<not> is_null l1" "\<not> is_null o1" "length b1 \<le> unat c1"
    and "\<not> is_null l2" "\<not> is_null o2" "length b2 \<le> unat c2"
    and "w' = w\<lparr>mem := write_two_mem b1 b2 o1 c1 l1 o2 c2 l2 (mem w)\<rparr>"
proof (cases v)
  case (Produce x)
  obtain b1 b2 where x: "x = (b1, b2)" by force
  with Produce assms(1) have s: "write_two_status b1 b2 o1 c1 l1 o2 c2 l2 = Ok"
    and w': "w' = w\<lparr>mem := write_two_mem b1 b2 o1 c1 l1 o2 c2 l2 (mem w)\<rparr>" by auto
  from s have "write_out_status b1 o1 c1 l1 = Ok" and "write_out_status b2 o2 c2 l2 = Ok"
    by (auto simp: write_two_status_def Let_def split: if_splits)
  then show ?thesis using Produce x w' that by (simp add: write_out_status_Ok)
qed (use assms in auto)

section \<open>Whole results\<close>

text \<open>An output buffer with its length cell that can take \<open>bs\<close>, and one that holds it.\<close>

definition fits :: "heap \<Rightarrow> addr \<Rightarrow> usize \<Rightarrow> addr \<Rightarrow> bytes \<Rightarrow> bool" where
  "fits m p cap l bs \<longleftrightarrow>
     \<not> is_null p \<and> \<not> is_null l \<and> out_ok m p cap \<and> len_ok m l \<and> length bs \<le> unat cap"

definition holds :: "heap \<Rightarrow> addr \<Rightarrow> addr \<Rightarrow> bytes \<Rightarrow> bool" where
  "holds m p l bs \<longleftrightarrow> bytes_at m p bs \<and> usize_at m l (of_nat (length bs))"

definition put_result :: "addr \<Rightarrow> addr \<Rightarrow> bytes \<Rightarrow> heap \<Rightarrow> heap" where
  "put_result p l bs m = put_bytes p bs (put_bytes l (le_bytes (of_nat (length bs))) m)"

lemma fits_put [mem_simps]: "fits m p cap l bs \<Longrightarrow> fits (put_result q k cs m) p cap l bs"
  by (simp add: fits_def put_result_def mem_simps)

lemma fits_contract: "fits m p cap l bs \<Longrightarrow> out_ok m p cap" "fits m p cap l bs \<Longrightarrow> len_ok m l"
  by (simp_all add: fits_def)

lemma holds_put: "disjoint l 8 p (length bs) \<Longrightarrow> holds (put_result p l bs m) p l bs"
  by (simp add: holds_def put_result_def usize_at_put_other disjoint_sym [of p])

lemma bytes_at_put_result:
  "disjoint p (length bs) q (length cs) \<Longrightarrow> disjoint l 8 q (length cs) \<Longrightarrow>
     bytes_at (put_result p l bs m) q cs = bytes_at m q cs"
  by (simp add: put_result_def bytes_at_put_other)

lemma holds_put_other:
  "disjoint p (length bs) q (length cs) \<Longrightarrow> disjoint l 8 q (length cs) \<Longrightarrow>
   disjoint p (length bs) k 8 \<Longrightarrow> disjoint l 8 k 8 \<Longrightarrow>
     holds (put_result p l bs m) q k cs = holds m q k cs"
  by (simp add: holds_def put_result_def bytes_at_put_other usize_at_put_other)

lemma slice_at_put_result:
  "slice_at m q n cs \<Longrightarrow> disjoint p (length bs) q (length cs) \<Longrightarrow> disjoint l 8 q (length cs) \<Longrightarrow>
     slice_at (put_result p l bs m) q n cs"
  by (simp add: put_result_def slice_at_put)

lemma input_at_put_result:
  "input_at m q n cs \<Longrightarrow> disjoint p (length bs) q (length cs) \<Longrightarrow> disjoint l 8 q (length cs) \<Longrightarrow>
     input_at (put_result p l bs m) q n cs"
  by (simp add: put_result_def input_at_put)

lemma holds_slice:
  assumes "holds m p l bs" "fits m' p cap l bs"
  shows "slice_at m p (of_nat (length bs)) bs"
proof (rule slice_at_bytes)
  show "length bs \<le> isize_max" using assms(2) by (auto simp: fits_def out_ok_def slice_ok_def)
qed (use assms in \<open>simp_all add: holds_def fits_def\<close>)

text \<open>A produced result that fits is handed out whole, wiped buffers or not.\<close>

lemma deliver_fits:
  assumes "v = Produce bs" "fits (mem w) p cap l bs"
  shows "\<exists>w'. then_wipe bufs (deliver v p cap l w) = (Done (code Ok), w') \<and>
    mem w' = put_result p l bs (mem w) \<and> rng w' = rng w"
  using assms by (simp add: fits_def write_out_status_def write_out_mem_def put_result_def)

lemma deliver_two_fits:
  assumes "v = Produce (b1, b2)" "fits (mem w) o1 c1 l1 b1" "fits (mem w) o2 c2 l2 b2"
  shows "\<exists>w'. then_wipe bufs (deliver_two v o1 c1 l1 o2 c2 l2 w) = (Done (code Ok), w') \<and>
    mem w' = put_result o2 l2 b2 (put_result o1 l1 b1 (mem w)) \<and> rng w' = rng w"
  using assms
  by (simp add: fits_def write_two_status_def write_two_mem_def write_out_status_def
      write_out_mem_def put_result_def)

section \<open>Regions of the caller's memory\<close>

text \<open>Regions (address and size) that do not overlap pairwise.\<close>

fun all_disjoint :: "(addr \<times> nat) list \<Rightarrow> bool" where
  "all_disjoint [] \<longleftrightarrow> True"
| "all_disjoint ((p, m) # rs) \<longleftrightarrow> list_all (\<lambda>(q, n). disjoint p m q n) rs \<and> all_disjoint rs"

section \<open>Messages\<close>

text \<open>
  The message argument of the signature functions (\<open>sign.rs\<close> and \<open>classical.rs\<close> repeat
  it): the empty slice if its length is 0, whatever its pointer.
\<close>

definition msg_or_empty :: "addr \<Rightarrow> usize \<Rightarrow> (world, bytes) comp" where
  "msg_or_empty msg msg_len = (if msg_len = 0 then ret [] else from_raw_parts msg msg_len)"

lemma msg_or_empty_run: "input_at (mem w) p n bs \<Longrightarrow> msg_or_empty p n w = (Done bs, w)"
  by (auto simp: msg_or_empty_def input_at_def slice_at_ok slice_at_read split: if_splits)

lemma msg_or_empty_Done: "msg_or_empty p n w = (Done x, w') \<Longrightarrow> w' = w"
  by (auto simp: msg_or_empty_def split: if_splits)

lemma boundary_msg [boundary_simps]:
  "input_at (mem w) p n bs \<Longrightarrow> boundary (bind_comp (msg_or_empty p n) k) w = boundary (k bs) w"
  by (rule boundary_bind_Done) (rule msg_or_empty_run)

lemma contained_msg [contained_intros]:
  "in_ok (mem w) p n \<Longrightarrow> \<not> (is_null p \<and> n \<noteq> 0) \<Longrightarrow> contained (msg_or_empty p n) w"
  by (auto simp: msg_or_empty_def in_ok_def intro!: contained_intros)

end
