(* ===== verification/Ffi_Caller.thy ===== *)
theory Ffi_Caller
  imports Contract
begin

text \<open>
  A caller of the C functions that owns its memory: the unit tests of the crate and the
  Dart bindings. It passes byte strings and zeroed output buffers to a C function and reads
  what that wrote. A byte string is placed in memory of its own, above everything placed
  before.
\<close>

record ffi_caller =
  t_world :: world
  t_top :: addr \<comment> \<open>the next free address\<close>

type_synonym 'a ffi = "(ffi_caller, 'a) comp"

section \<open>Placing vectors in memory\<close>

text \<open>Allocations are aligned to 16 bytes and, the empty ones too, have an address of their own.\<close>

definition heap_room :: "nat \<Rightarrow> nat" where
  "heap_room n = 16 * (n div 16 + 1)"

definition vec_new :: "bytes \<Rightarrow> addr ffi" where
  "vec_new bs = (\<lambda>s.
     (Done (t_top s),
      s\<lparr>t_world := (t_world s)\<lparr>mem := put_bytes (t_top s) bs (mem (t_world s))\<rparr>,
        t_top := t_top s + heap_room (length bs)\<rparr>))"

fun place_all :: "bytes list \<Rightarrow> addr list ffi" where
  "place_all [] = ret []"
| "place_all (x # xs) =
    bind_comp (vec_new x) (\<lambda>p. bind_comp (place_all xs) (\<lambda>ps. ret (p # ps)))"

definition ffi_call :: "(world, 'a) comp \<Rightarrow> 'a ffi" where
  "ffi_call f = (\<lambda>s. case f (t_world s) of (r, w) \<Rightarrow> (r, s\<lparr>t_world := w\<rparr>))"

definition vec_read :: "addr \<Rightarrow> nat \<Rightarrow> bytes ffi" where
  "vec_read p n = (\<lambda>s. (Done (read_range (mem (t_world s)) p n), s))"

definition of_le_bytes :: "bytes \<Rightarrow> usize" where
  "of_le_bytes bs = foldr (\<lambda>b acc. or (ucast b) (push_bit 8 acc)) bs 0"

definition usize_read :: "addr \<Rightarrow> usize ffi" where
  "usize_read p = bind_comp (vec_read p 8) (\<lambda>bs. ret (of_le_bytes bs))"

section \<open>Calls\<close>

text \<open>
  A call with input slices only, with one output vector and its length, with two. They
  return the status code and, for each output, the whole vector and the length.
\<close>

definition call0 :: "bytes list \<Rightarrow> (addr list \<Rightarrow> (world, c_int) comp) \<Rightarrow> c_int ffi" where
  "call0 ins f = bind_comp (place_all ins) (\<lambda>ps. ffi_call (f ps))"

definition call1 :: "bytes list \<Rightarrow> nat \<Rightarrow> (addr list \<Rightarrow> addr \<Rightarrow> usize \<Rightarrow> addr \<Rightarrow> (world, c_int) comp)
    \<Rightarrow> (c_int \<times> bytes \<times> usize) ffi" where
  "call1 ins cap f =
    bind_comp (place_all ins) (\<lambda>ps.
    bind_comp (vec_new (replicate cap 0)) (\<lambda>out.
    bind_comp (vec_new (le_bytes 0)) (\<lambda>len.
    bind_comp (ffi_call (f ps out (of_nat cap) len)) (\<lambda>rc.
    bind_comp (vec_read out cap) (\<lambda>buf.
    bind_comp (usize_read len) (\<lambda>n. ret (rc, buf, n)))))))"

definition call2 :: "bytes list \<Rightarrow> nat \<Rightarrow> nat
    \<Rightarrow> (addr list \<Rightarrow> addr \<Rightarrow> usize \<Rightarrow> addr \<Rightarrow> addr \<Rightarrow> usize \<Rightarrow> addr \<Rightarrow> (world, c_int) comp)
    \<Rightarrow> (c_int \<times> (bytes \<times> usize) \<times> (bytes \<times> usize)) ffi" where
  "call2 ins cap1 cap2 f =
    bind_comp (place_all ins) (\<lambda>ps.
    bind_comp (vec_new (replicate cap1 0)) (\<lambda>o1.
    bind_comp (vec_new (replicate cap2 0)) (\<lambda>o2.
    bind_comp (vec_new (le_bytes 0)) (\<lambda>l1.
    bind_comp (vec_new (le_bytes 0)) (\<lambda>l2.
    bind_comp (ffi_call (f ps o1 (of_nat cap1) l1 o2 (of_nat cap2) l2)) (\<lambda>rc.
    bind_comp (vec_read o1 cap1) (\<lambda>b1.
    bind_comp (vec_read o2 cap2) (\<lambda>b2.
    bind_comp (usize_read l1) (\<lambda>n1.
    bind_comp (usize_read l2) (\<lambda>n2. ret (rc, (b1, n1), (b2, n2))))))))))))"

text \<open>What a function has allocated is freed when it returns.\<close>

definition freeing :: "'a ffi \<Rightarrow> 'a ffi" where
  "freeing m = (\<lambda>s. case m s of (r, s') \<Rightarrow> (r, s'\<lparr>t_top := t_top s\<rparr>))"

section \<open>Lemmas\<close>

lemma of_le_bytes [simp]: "of_le_bytes (le_bytes v) = v"
proof -
  have "foldr (\<lambda>b acc. or (ucast b) (push_bit 8 acc)) (map (\<lambda>i. ucast (drop_bit (8 * i) v) :: u8) [k..<8]) 0 =
      drop_bit (8 * k) v" if "k \<le> 8" for k
    using that
  proof (induction rule: inc_induct)
    case base
    have "drop_bit 64 v = 0" by (rule bit_word_eqI) (auto simp: bit_simps dest: bit_imp_le_length)
    then show ?case by simp
  next
    case (step k)
    have "or (ucast (ucast (drop_bit (8 * k) v) :: u8)) (push_bit 8 (drop_bit (8 * Suc k) v)) = drop_bit (8 * k) v"
    proof (rule bit_word_eqI)
      fix n assume n: "n < LENGTH(64)"
      have "8 * Suc k + (n - 8) = 8 * k + n" if "\<not> n < 8" using that by simp
      with n show "bit (or (ucast (ucast (drop_bit (8 * k) v) :: u8)) (push_bit 8 (drop_bit (8 * Suc k) v))) n =
          bit (drop_bit (8 * k) v) n"
        by (cases "n < 8") (simp_all add: bit_simps)
    qed
    with step show ?case by (simp add: upt_conv_Cons)
  qed
  from this [of 0] show ?thesis by (simp add: of_le_bytes_def le_bytes_def)
qed

definition t_ok :: "ffi_caller \<Rightarrow> bool" where
  "t_ok s \<longleftrightarrow> 16 \<le> t_top s \<and> t_top s mod 16 = 0"

lemma heap_room_le: "n \<le> heap_room n" "n + 1 \<le> heap_room n"
  by (simp_all add: heap_room_def)

lemma heap_room_aligned: "16 dvd heap_room n"
  by (simp add: heap_room_def)

lemma vec_new_run:
  "t_ok s \<Longrightarrow> \<exists>s'. vec_new bs s = (Done (t_top s), s') \<and> t_ok s' \<and>
     t_world s' = (t_world s)\<lparr>mem := put_bytes (t_top s) bs (mem (t_world s))\<rparr> \<and>
     t_top s + length bs \<le> t_top s'"
  using heap_room_le(1) [of "length bs"] heap_room_aligned [of "length bs"]
  by (simp add: vec_new_def t_ok_def mod_eq_0_iff_dvd)


text \<open>\<open>kept s s'\<close>: what was placed below the top of \<open>s\<close> is still there, the rest of the world is the same.\<close>

definition kept :: "ffi_caller \<Rightarrow> ffi_caller \<Rightarrow> bool" where
  "kept s s' \<longleftrightarrow> t_ok s' \<and> t_top s \<le> t_top s' \<and> (\<exists>m. t_world s' = (t_world s)\<lparr>mem := m\<rparr>) \<and>
     (\<forall>p bs. p + length bs \<le> t_top s \<longrightarrow> bytes_at (mem (t_world s)) p bs \<longrightarrow> bytes_at (mem (t_world s')) p bs)"

lemma kept_refl [simp]: "t_ok s \<Longrightarrow> kept s s"
  by (auto simp: kept_def intro: exI [of _ "mem (t_world s)"])

lemma kept_trans: "kept s s' \<Longrightarrow> kept s' s'' \<Longrightarrow> kept s s''"
  by (fastforce simp: kept_def)

lemma kept_ok: "kept s s' \<Longrightarrow> t_ok s'"
  by (simp add: kept_def)

lemma vec_new_kept:
  assumes "t_ok s"
  obtains s' where "vec_new bs s = (Done (t_top s), s')" "kept s s'" "bytes_at (mem (t_world s')) (t_top s) bs"
    "t_top s + length bs \<le> t_top s'"
proof -
  obtain s' where s': "vec_new bs s = (Done (t_top s), s')" "t_ok s'"
    "t_world s' = (t_world s)\<lparr>mem := put_bytes (t_top s) bs (mem (t_world s))\<rparr>" "t_top s + length bs \<le> t_top s'"
    using vec_new_run [OF assms] by blast
  then have "kept s s'" by (auto simp: kept_def bytes_at_put_other disjoint_def)
  with s' show ?thesis by (intro that) simp_all
qed

definition placed :: "ffi_caller \<Rightarrow> addr \<Rightarrow> bytes \<Rightarrow> bool" where
  "placed s p bs \<longleftrightarrow> 16 \<le> p \<and> p + length bs \<le> t_top s \<and> bytes_at (mem (t_world s)) p bs"

lemma placed_kept: "placed s p bs \<Longrightarrow> kept s s' \<Longrightarrow> placed s' p bs"
  by (auto simp: placed_def kept_def)

lemma vec_new_placed:
  assumes "t_ok s"
  obtains s' where "vec_new bs s = (Done (t_top s), s')" "kept s s'" "placed s' (t_top s) bs" "t_top s mod 16 = 0"
proof (rule vec_new_kept [OF assms, of bs])
  fix s' assume "vec_new bs s = (Done (t_top s), s')" "kept s s'" "bytes_at (mem (t_world s')) (t_top s) bs"
    "t_top s + length bs \<le> t_top s'"
  with assms show ?thesis by (intro that) (auto simp: placed_def t_ok_def)
qed

lemma place_all_run:
  assumes "t_ok s"
  shows "\<exists>ps s'. place_all xs s = (Done ps, s') \<and> kept s s' \<and> length ps = length xs \<and>
    (\<forall>i<length xs. placed s' (ps ! i) (xs ! i))"
  using assms
proof (induction xs arbitrary: s)
  case (Cons x xs)
  obtain s1 where 1: "vec_new x s = (Done (t_top s), s1)" "kept s s1" "placed s1 (t_top s) x"
    by (rule vec_new_placed [OF Cons.prems])
  obtain ps s2 where 2: "place_all xs s1 = (Done ps, s2)" "kept s1 s2" "length ps = length xs"
    "\<forall>i<length xs. placed s2 (ps ! i) (xs ! i)"
    using Cons.IH [OF kept_ok [OF 1(2)]] by blast
  have "placed s2 (t_top s) x" using 1(3) 2(2) by (rule placed_kept)
  with 1 2 show ?case
    by (intro exI [of _ "t_top s # ps"] exI [of _ s2]) (auto simp: run_simps nth_Cons split: nat.split intro: kept_trans)
qed simp

lemma placed_slice: "placed s p bs \<Longrightarrow> length bs \<le> isize_max \<Longrightarrow> slice_at (mem (t_world s)) p (of_nat (length bs)) bs"
  by (intro slice_at_bytes) (auto simp: placed_def is_null_def)

lemma unat_isize: "n \<le> isize_max \<Longrightarrow> unat (of_nat n :: usize) = n"
  by (simp add: isize_max_def unat_of_nat take_bit_nat_eq_self)

lemma placed_out:
  "placed s p (replicate n 0) \<Longrightarrow> n \<le> isize_max \<Longrightarrow> out_ok (mem (t_world s)) p (of_nat n)"
  by (auto simp: placed_def out_ok_def slice_ok_def unat_isize is_null_def dest: bytes_at_mapped)

lemma placed_len: "placed s p (le_bytes v) \<Longrightarrow> p mod 16 = 0 \<Longrightarrow> len_ok (mem (t_world s)) p"
  by (auto simp: placed_def len_ok_def dest: bytes_at_mapped)


section \<open>A call shows the verdict\<close>

text \<open>What the caller sees of a delivered verdict: status, vector, length.\<close>

definition seen1 :: "nat \<Rightarrow> bytes verdict \<Rightarrow> c_int \<times> bytes \<times> usize" where
  "seen1 cap v = (case v of
       Refuse st \<Rightarrow> (code st, replicate cap 0, 0)
     | Blow p \<Rightarrow> (code Internal, replicate cap 0, 0)
     | Produce bs \<Rightarrow>
         if length bs \<le> cap then (code Ok, bs @ replicate (cap - length bs) 0, of_nat (length bs))
         else (code BufferTooSmall, replicate cap 0, of_nat (length bs)))"

definition seen2 :: "nat \<Rightarrow> nat \<Rightarrow> (bytes \<times> bytes) verdict \<Rightarrow> c_int \<times> (bytes \<times> usize) \<times> (bytes \<times> usize)" where
  "seen2 cap1 cap2 v = (case v of
       Refuse st \<Rightarrow> (code st, (replicate cap1 0, 0), (replicate cap2 0, 0))
     | Blow p \<Rightarrow> (code Internal, (replicate cap1 0, 0), (replicate cap2 0, 0))
     | Produce (b1, b2) \<Rightarrow>
         (case (seen1 cap1 (Produce b1), seen1 cap2 (Produce b2)) of
            ((c1, r1), (c2, r2)) \<Rightarrow>
              if length b1 \<le> cap1 then (c2, r1, r2) else (c1, r1, (replicate cap2 0, 0))))"

text \<open>The inputs as the entry point sees them, and the state it may leave behind.\<close>

definition inputs_at :: "world \<Rightarrow> addr list \<Rightarrow> bytes list \<Rightarrow> bool" where
  "inputs_at w ps xs \<longleftrightarrow> length ps = length xs \<and>
     (\<forall>i<length xs. slice_at (mem w) (ps ! i) (of_nat (length (xs ! i))) (xs ! i))"

definition short :: "bytes list \<Rightarrow> bool" where
  "short xs \<longleftrightarrow> (\<forall>x\<in>set xs. length x \<le> isize_max)"

lemma small_short [simp]: "short (x # xs) \<longleftrightarrow> length x \<le> isize_max \<and> short xs" "short []"
  by (simp_all add: short_def)

lemma read_put_prefix:
  assumes "bytes_at m p (replicate cap 0)" "length bs \<le> cap"
  shows "read_range (put_bytes p bs m) p cap = bs @ replicate (cap - length bs) 0"
proof (rule nth_equalityI)
  fix i assume "i < length (read_range (put_bytes p bs m) p cap)"
  then have i: "i < cap" by simp
  then have "m (p + i) = Some 0" using assms(1) by (simp add: bytes_at_nth)
  with i show "read_range (put_bytes p bs m) p cap ! i = (bs @ replicate (cap - length bs) 0) ! i"
    by (simp add: read_range_nth put_bytes_apply nth_append)
qed (use assms(2) in simp)

lemma usize_read_run [simp]:
  "bytes_at (mem (t_world s)) p (le_bytes v) \<Longrightarrow> usize_read p s = (Done v, s)"
  by (simp add: usize_read_def vec_read_def bind_comp_def read_range_eq)

lemma le_bytes_read: "usize_at m p v \<Longrightarrow> read_range m p 8 = le_bytes v"
  by (simp add: usize_at_def read_range_eq)

lemma call0_run:
  assumes "t_ok s" "short ins"
    and f: "\<And>ps w. inputs_at w ps ins \<Longrightarrow> rng w = rng (t_world s) \<Longrightarrow> \<exists>w'. f ps w = (Done c, w') \<and> rng w' = g"
  shows "\<exists>s'. call0 ins f s = (Done c, s') \<and> t_ok s' \<and> rng (t_world s') = g"
proof -
  obtain ps s1 where 1: "place_all ins s = (Done ps, s1)" "kept s s1" "length ps = length ins"
    "\<forall>i<length ins. placed s1 (ps ! i) (ins ! i)"
    using place_all_run [OF assms(1)] by blast
  have "inputs_at (t_world s1) ps ins"
    using 1(3,4) assms(2) by (auto simp: inputs_at_def short_def intro!: placed_slice)
  moreover have "rng (t_world s1) = rng (t_world s)" using 1(2) by (auto simp: kept_def)
  ultimately obtain w' where "f ps (t_world s1) = (Done c, w')" "rng w' = g" using f by blast
  with 1 show ?thesis by (auto simp: call0_def run_simps ffi_call_def kept_def t_ok_def)
qed


text \<open>An empty output vector of \<open>cap\<close> bytes at \<open>p\<close> with its length cell at \<open>l\<close>.\<close>

definition out_pair :: "heap \<Rightarrow> addr \<Rightarrow> nat \<Rightarrow> addr \<Rightarrow> bool" where
  "out_pair m p cap l \<longleftrightarrow> \<not> is_null p \<and> \<not> is_null l \<and> bytes_at m p (replicate cap 0) \<and>
     bytes_at m l (le_bytes 0) \<and> disjoint l 8 p cap \<and> cap \<le> isize_max"

lemma write_out_seen:
  fixes bs :: bytes and m :: heap
  assumes "out_pair m p cap l"
  defines "m' \<equiv> write_out_mem bs p (of_nat cap) l m"
  shows "code (write_out_status bs p (of_nat cap) l) = fst (seen1 cap (Produce bs))"
    and "read_range m' p cap = fst (snd (seen1 cap (Produce bs)))"
    and "bytes_at m' l (le_bytes (snd (snd (seen1 cap (Produce bs)))))"
proof -
  have a: "\<not> is_null p" "\<not> is_null l" "bytes_at m p (replicate cap 0)" "disjoint l 8 p cap" "unat (of_nat cap :: usize) = cap"
    using assms(1) by (simp_all add: out_pair_def unat_isize)
  have z: "bytes_at (put_bytes l (le_bytes (of_nat (length bs))) m) p (replicate cap 0)"
    using a(3,4) by (simp add: bytes_at_put_other)
  show "code (write_out_status bs p (of_nat cap) l) = fst (seen1 cap (Produce bs))"
    using a by (simp add: write_out_status_def seen1_def)
  show "read_range m' p cap = fst (snd (seen1 cap (Produce bs)))"
    using a z read_put_prefix [OF z, of bs] by (simp add: m'_def write_out_mem_def seen1_def read_range_eq)
  show "bytes_at m' l (le_bytes (snd (snd (seen1 cap (Produce bs)))))"
    using a disjoint_le [OF a(4), of 8 "length bs"]
    by (simp add: m'_def write_out_mem_def seen1_def bytes_at_put_other disjoint_sym [of p])
qed

lemma deliver_seen:
  assumes "out_pair (mem w) p cap l"
  shows "\<exists>w'. then_wipe bufs (deliver v p (of_nat cap) l w) = (Done (fst (seen1 cap v)), w') \<and>
    read_range (mem w') p cap = fst (snd (seen1 cap v)) \<and>
    bytes_at (mem w') l (le_bytes (snd (snd (seen1 cap v)))) \<and> rng w' = rng w"
proof (cases v)
  case (Produce bs)
  then show ?thesis using write_out_seen [OF assms, of bs] by simp
qed (use assms in \<open>auto simp: seen1_def out_pair_def read_range_eq run_hook_def split: panic_hook.splits\<close>)

lemma write_two_seen:
  fixes b1 b2 :: bytes and m :: heap
  assumes 1: "out_pair m p cap l" and 2: "out_pair m q cap' k"
    and apart: "disjoint p cap q cap'" "disjoint p cap k 8" "disjoint l 8 q cap'" "disjoint l 8 k 8"
  defines "m' \<equiv> write_two_mem b1 b2 p (of_nat cap) l q (of_nat cap') k m"
    and "r \<equiv> seen2 cap cap' (Produce (b1, b2))"
  shows "code (write_two_status b1 b2 p (of_nat cap) l q (of_nat cap') k) = fst r"
    and "read_range m' p cap = fst (fst (snd r))" and "bytes_at m' l (le_bytes (snd (fst (snd r))))"
    and "read_range m' q cap' = fst (snd (snd r))" and "bytes_at m' k (le_bytes (snd (snd (snd r))))"
proof -
  let ?m1 = "write_out_mem b1 p (of_nat cap) l m"
  have cap: "unat (of_nat cap :: usize) = cap" "unat (of_nat cap' :: usize) = cap'"
    using 1 2 by (simp_all add: out_pair_def unat_isize)
  have keep: "bytes_at (write_out_mem bs x (of_nat n) y h) z cs = bytes_at h z cs"
    if "disjoint y 8 z (length cs)" "disjoint x n z (length cs)" "unat (of_nat n :: usize) = n" for bs x n y h z cs
    by (rule write_out_mem_other) (use that in simp_all)
  have z: "bytes_at ?m1 q (replicate cap' 0)" "bytes_at ?m1 k (le_bytes 0)"
    using 2 apart cap by (simp_all add: keep out_pair_def)
  then have two: "out_pair ?m1 q cap' k" using 2 by (simp add: out_pair_def)
  note w1 = write_out_seen [OF 1, of b1] and w2 = write_out_seen [OF two, of b2]
  have st: "write_out_status b1 p (of_nat cap) l = (if length b1 \<le> cap then Ok else BufferTooSmall)"
    using 1 cap by (simp add: write_out_status_def out_pair_def)
  have p1: "bytes_at ?m1 p (fst (snd (seen1 cap (Produce b1))))"
    using w1(2) z 1 write_out_mem_keeps(1) [of m p cap b1 p "of_nat cap" l]
    by (metis bytes_at_mapped length_replicate mapped_read_range out_pair_def)
  have len1: "length (fst (snd (seen1 cap (Produce b1)))) = cap" by (simp add: seen1_def)
  have p2: "read_range (write_out_mem b2 q (of_nat cap') k ?m1) p cap = fst (snd (seen1 cap (Produce b1)))"
    by (rule read_range_eq) (use p1 len1 apart cap in \<open>simp_all add: keep disjoint_sym [of k] disjoint_sym [of q]\<close>)
  have l2: "bytes_at (write_out_mem b2 q (of_nat cap') k ?m1) l (le_bytes (snd (snd (seen1 cap (Produce b1)))))"
    using w1(3) apart cap by (simp add: keep disjoint_sym [of k] disjoint_sym [of q])
  have q1: "read_range ?m1 q cap' = replicate cap' 0" using z(1) by (simp add: read_range_eq)
  show "code (write_two_status b1 b2 p (of_nat cap) l q (of_nat cap') k) = fst r"
    using w1(1) w2(1) st
    by (cases "length b1 \<le> cap") (simp_all add: write_two_status_def r_def seen2_def split_beta Let_def)
  show "read_range m' p cap = fst (fst (snd r))" and "bytes_at m' l (le_bytes (snd (fst (snd r))))"
    and "read_range m' q cap' = fst (snd (snd r))" and "bytes_at m' k (le_bytes (snd (snd (snd r))))"
    using w1 w2 st p2 l2 q1 z
    by (simp_all add: m'_def write_two_mem_def r_def seen2_def split_beta Let_def)
qed


lemma deliver_two_seen:
  assumes "out_pair (mem w) p cap l" "out_pair (mem w) q cap' k"
    and "disjoint p cap q cap'" "disjoint p cap k 8" "disjoint l 8 q cap'" "disjoint l 8 k 8"
  shows "\<exists>w'. then_wipe bufs (deliver_two v p (of_nat cap) l q (of_nat cap') k w) = (Done (fst (seen2 cap cap' v)), w') \<and>
    read_range (mem w') p cap = fst (fst (snd (seen2 cap cap' v))) \<and>
    bytes_at (mem w') l (le_bytes (snd (fst (snd (seen2 cap cap' v))))) \<and>
    read_range (mem w') q cap' = fst (snd (snd (seen2 cap cap' v))) \<and>
    bytes_at (mem w') k (le_bytes (snd (snd (snd (seen2 cap cap' v))))) \<and> rng w' = rng w"
proof (cases v)
  case (Produce x)
  then show ?thesis using write_two_seen [OF assms, of "fst x" "snd x"] by (cases x) simp
qed (use assms in \<open>auto simp: seen2_def out_pair_def read_range_eq run_hook_def split: panic_hook.splits\<close>)

lemma placed_pair:
  assumes "placed s p (replicate cap 0)" "placed s l (le_bytes 0)" "p + cap \<le> l \<or> l + 8 \<le> p" "cap \<le> isize_max"
  shows "out_pair (mem (t_world s)) p cap l"
  using assms by (auto simp: placed_def out_pair_def is_null_def disjoint_def)

lemma out_pair_ok:
  "out_pair m p cap l \<Longrightarrow> out_ok m p (of_nat cap)"
  "out_pair m p cap l \<Longrightarrow> l mod 8 = 0 \<Longrightarrow> len_ok m l"
  by (auto simp: out_pair_def out_ok_def slice_ok_def len_ok_def unat_isize dest: bytes_at_mapped)

text \<open>
  \<open>call1\<close> with more room than the capacity that is declared: the capacity is an argument of
  the C function of its own.
\<close>

lemma out_pair_le: "out_pair m p cap l \<Longrightarrow> c \<le> cap \<Longrightarrow> out_pair m p c l"
  by (auto simp: out_pair_def bytes_at_nth intro: disjoint_le)

lemma call1_wide:
  assumes "t_ok s" "short ins" "cap \<le> room" "room \<le> isize_max"
    and f: "\<And>ps out len w. inputs_at w ps ins \<Longrightarrow> rng w = rng (t_world s) \<Longrightarrow>
      out_ok (mem w) out (of_nat cap) \<Longrightarrow> len_ok (mem w) len \<Longrightarrow>
      \<exists>bufs w'. f ps out (of_nat room) len w = then_wipe bufs (deliver v out (of_nat cap) len w') \<and>
        mem w' = mem w \<and> rng w' = g"
  shows "\<exists>buf s'. call1 ins room f s = (Done (fst (seen1 cap v), buf, snd (snd (seen1 cap v))), s') \<and>
    length buf = room \<and> take cap buf = fst (snd (seen1 cap v)) \<and> t_ok s' \<and> rng (t_world s') = g"
proof -
  obtain ps s1 where 1: "place_all ins s = (Done ps, s1)" "kept s s1" "length ps = length ins"
    "\<forall>i<length ins. placed s1 (ps ! i) (ins ! i)"
    using place_all_run [OF assms(1)] by blast
  obtain s2 where 2: "vec_new (replicate room 0) s1 = (Done (t_top s1), s2)" "kept s1 s2" "placed s2 (t_top s1) (replicate room 0)"
    by (rule vec_new_placed [OF kept_ok [OF 1(2)]])
  obtain s3 where 3: "vec_new (le_bytes 0) s2 = (Done (t_top s2), s3)" "kept s2 s3" "placed s3 (t_top s2) (le_bytes 0)" "t_top s2 mod 16 = 0"
    by (rule vec_new_placed [OF kept_ok [OF 2(2)]])
  have "out_pair (mem (t_world s3)) (t_top s1) room (t_top s2)"
    using placed_kept [OF 2(3) 3(2)] 3(3) 2(3) assms(4) by (intro placed_pair) (auto simp: placed_def)
  then have out: "out_pair (mem (t_world s3)) (t_top s1) cap (t_top s2)" using assms(3) by (rule out_pair_le)
  have "inputs_at (t_world s3) ps ins"
    using 1(3,4) assms(2) placed_kept [OF _ kept_trans [OF 2(2) 3(2)]]
    by (auto simp: inputs_at_def short_def intro!: placed_slice)
  moreover have "rng (t_world s3) = rng (t_world s)" using 1(2) 2(2) 3(2) by (auto simp: kept_def)
  moreover have "len_ok (mem (t_world s3)) (t_top s2)" using out 3(4) by (intro out_pair_ok(2)) (auto simp: mod_eq_0_iff_dvd)
  ultimately obtain bufs w' where call: "f ps (t_top s1) (of_nat room) (t_top s2) (t_world s3) =
      then_wipe bufs (deliver v (t_top s1) (of_nat cap) (t_top s2) w')" and w': "mem w' = mem (t_world s3)" "rng w' = g"
    using f out_pair_ok(1) [OF out] by blast
  have "out_pair (mem w') (t_top s1) cap (t_top s2)" using out w'(1) by simp
  from deliver_seen [OF this, of bufs v] obtain w'' where
    "then_wipe bufs (deliver v (t_top s1) (of_nat cap) (t_top s2) w') = (Done (fst (seen1 cap v)), w'')"
    and buf: "read_range (mem w'') (t_top s1) cap = fst (snd (seen1 cap v))"
    and "bytes_at (mem w'') (t_top s2) (le_bytes (snd (snd (seen1 cap v))))" "rng w'' = g"
    using w'(2) by blast
  moreover have "t_ok s3" using 3(2) by (rule kept_ok)
  moreover have "take cap (read_range (mem w'') (t_top s1) room) = fst (snd (seen1 cap v))"
    using buf assms(3) by (simp add: read_range_def take_map take_upt)
  ultimately show ?thesis
    using 1(1) 2(1) 3(1) call by (auto simp: call1_def run_simps ffi_call_def vec_read_def t_ok_def)
qed

lemma call1_run:
  assumes "t_ok s" "short ins" "cap \<le> isize_max"
    and f: "\<And>ps out len w. inputs_at w ps ins \<Longrightarrow> rng w = rng (t_world s) \<Longrightarrow>
      out_ok (mem w) out (of_nat cap) \<Longrightarrow> len_ok (mem w) len \<Longrightarrow>
      \<exists>bufs w'. f ps out (of_nat cap) len w = then_wipe bufs (deliver v out (of_nat cap) len w') \<and> mem w' = mem w \<and> rng w' = g"
  shows "\<exists>s'. call1 ins cap f s = (Done (seen1 cap v), s') \<and> t_ok s' \<and> rng (t_world s') = g"
proof -
  have "\<exists>buf s'. call1 ins cap f s = (Done (fst (seen1 cap v), buf, snd (snd (seen1 cap v))), s') \<and>
    length buf = cap \<and> take cap buf = fst (snd (seen1 cap v)) \<and> t_ok s' \<and> rng (t_world s') = g"
    by (rule call1_wide [OF assms(1,2) order_refl assms(3)]) (rule f)
  then obtain buf s' where c: "call1 ins cap f s = (Done (fst (seen1 cap v), buf, snd (snd (seen1 cap v))), s')"
    and b: "length buf = cap" "take cap buf = fst (snd (seen1 cap v))" and s': "t_ok s'" "rng (t_world s') = g" by blast
  have "(fst (seen1 cap v), buf, snd (snd (seen1 cap v))) = seen1 cap v" using b by simp
  with c s' show ?thesis by metis
qed

lemma call2_run:
  assumes "t_ok s" "short ins" "cap \<le> isize_max" "cap' \<le> isize_max"
    and f: "\<And>ps o1 l1 o2 l2 w. inputs_at w ps ins \<Longrightarrow> rng w = rng (t_world s) \<Longrightarrow>
      out_ok (mem w) o1 (of_nat cap) \<Longrightarrow> len_ok (mem w) l1 \<Longrightarrow>
      out_ok (mem w) o2 (of_nat cap') \<Longrightarrow> len_ok (mem w) l2 \<Longrightarrow>
      \<exists>bufs w'. f ps o1 (of_nat cap) l1 o2 (of_nat cap') l2 w =
        then_wipe bufs (deliver_two v o1 (of_nat cap) l1 o2 (of_nat cap') l2 w') \<and> mem w' = mem w \<and> rng w' = g"
  shows "\<exists>s'. call2 ins cap cap' f s = (Done (seen2 cap cap' v), s') \<and> t_ok s' \<and> rng (t_world s') = g"
proof -
  obtain ps s1 where 1: "place_all ins s = (Done ps, s1)" "kept s s1" "length ps = length ins"
    "\<forall>i<length ins. placed s1 (ps ! i) (ins ! i)"
    using place_all_run [OF assms(1)] by blast
  obtain s2 where 2: "vec_new (replicate cap 0) s1 = (Done (t_top s1), s2)" "kept s1 s2" "placed s2 (t_top s1) (replicate cap 0)"
    by (rule vec_new_placed [OF kept_ok [OF 1(2)]])
  obtain s3 where 3: "vec_new (replicate cap' 0) s2 = (Done (t_top s2), s3)" "kept s2 s3" "placed s3 (t_top s2) (replicate cap' 0)"
    by (rule vec_new_placed [OF kept_ok [OF 2(2)]])
  obtain s4 where 4: "vec_new (le_bytes 0) s3 = (Done (t_top s3), s4)" "kept s3 s4" "placed s4 (t_top s3) (le_bytes 0)" "t_top s3 mod 16 = 0"
    by (rule vec_new_placed [OF kept_ok [OF 3(2)]])
  obtain s5 where 5: "vec_new (le_bytes 0) s4 = (Done (t_top s4), s5)" "kept s4 s5" "placed s5 (t_top s4) (le_bytes 0)" "t_top s4 mod 16 = 0"
    by (rule vec_new_placed [OF kept_ok [OF 4(2)]])
  note k35 = kept_trans [OF 4(2) 5(2)] and k25 = kept_trans [OF 3(2) kept_trans [OF 4(2) 5(2)]]
  note at5 = placed_kept [OF 2(3) k25] placed_kept [OF 3(3) k35] placed_kept [OF 4(3) 5(2)] 5(3)
  have below: "t_top s1 + cap \<le> t_top s2" "t_top s2 + cap' \<le> t_top s3" "t_top s3 + 8 \<le> t_top s4"
    using 2(3) 3(3) 4(3) by (simp_all add: placed_def)
  have out1: "out_pair (mem (t_world s5)) (t_top s1) cap (t_top s3)"
    using at5 below assms(3) by (intro placed_pair) auto
  have out2: "out_pair (mem (t_world s5)) (t_top s2) cap' (t_top s4)"
    using at5 below assms(4) by (intro placed_pair) auto
  have dis: "disjoint (t_top s1) cap (t_top s2) cap'" "disjoint (t_top s1) cap (t_top s4) 8"
    "disjoint (t_top s3) 8 (t_top s2) cap'" "disjoint (t_top s3) 8 (t_top s4) 8"
    using below by (auto simp: disjoint_def)
  have "inputs_at (t_world s5) ps ins"
    using 1(3,4) assms(2) placed_kept [OF _ kept_trans [OF 2(2) k25]]
    by (auto simp: inputs_at_def short_def intro!: placed_slice)
  moreover have "rng (t_world s5) = rng (t_world s)" using 1(2) 2(2) k25 by (auto simp: kept_def)
  moreover have "len_ok (mem (t_world s5)) (t_top s3)" "len_ok (mem (t_world s5)) (t_top s4)"
    using out1 out2 4(4) 5(4) by (auto intro!: out_pair_ok(2) simp: mod_eq_0_iff_dvd)
  ultimately obtain bufs w' where call: "f ps (t_top s1) (of_nat cap) (t_top s3) (t_top s2) (of_nat cap') (t_top s4) (t_world s5) =
      then_wipe bufs (deliver_two v (t_top s1) (of_nat cap) (t_top s3) (t_top s2) (of_nat cap') (t_top s4) w')"
    and w': "mem w' = mem (t_world s5)" "rng w' = g"
    using f out_pair_ok(1) [OF out1] out_pair_ok(1) [OF out2] by blast
  have outs: "out_pair (mem w') (t_top s1) cap (t_top s3)" "out_pair (mem w') (t_top s2) cap' (t_top s4)"
    using out1 out2 w'(1) by simp_all
  from deliver_two_seen [OF outs dis, of bufs v] obtain w'' where
    "then_wipe bufs (deliver_two v (t_top s1) (of_nat cap) (t_top s3) (t_top s2) (of_nat cap') (t_top s4) w') =
       (Done (fst (seen2 cap cap' v)), w'')"
    "read_range (mem w'') (t_top s1) cap = fst (fst (snd (seen2 cap cap' v)))"
    "bytes_at (mem w'') (t_top s3) (le_bytes (snd (fst (snd (seen2 cap cap' v)))))"
    "read_range (mem w'') (t_top s2) cap' = fst (snd (snd (seen2 cap cap' v)))"
    "bytes_at (mem w'') (t_top s4) (le_bytes (snd (snd (snd (seen2 cap cap' v)))))" "rng w'' = g"
    using w'(2) by blast
  moreover have "t_ok s5" using 5(2) by (rule kept_ok)
  ultimately show ?thesis
    using 1(1) 2(1) 3(1) 4(1) 5(1) call by (auto simp: call2_def run_simps ffi_call_def vec_read_def t_ok_def)
qed

section \<open>What a step yields\<close>

text \<open>\<open>yields m s x g\<close>: from \<open>s\<close> the step \<open>m\<close> returns \<open>x\<close> and leaves the generator in state \<open>g\<close>.\<close>

definition yields :: "'a ffi \<Rightarrow> ffi_caller \<Rightarrow> 'a \<Rightarrow> nat \<Rightarrow> bool" where
  "yields m s x g \<longleftrightarrow> (\<exists>s'. m s = (Done x, s') \<and> t_ok s' \<and> rng (t_world s') = g)"

lemma yields_ret: "t_ok s \<Longrightarrow> g = rng (t_world s) \<Longrightarrow> yields (ret x) s x g"
  by (simp add: yields_def)

lemma yields_Pair: "t_ok s \<Longrightarrow> g = rng (t_world s) \<Longrightarrow> yields (Pair (Done x)) s x g"
  by (simp add: yields_def)

lemma yields_bind:
  assumes "yields m s x g" "\<And>s'. t_ok s' \<Longrightarrow> rng (t_world s') = g \<Longrightarrow> yields (k x) s' y h"
  shows "yields (bind_comp m k) s y h"
  using assms by (auto simp: yields_def run_simps)

lemma yields_call1:
  assumes "t_ok s" "short ins" "cap \<le> isize_max"
    and "\<And>ps out len w. inputs_at w ps ins \<Longrightarrow> rng w = rng (t_world s) \<Longrightarrow>
      out_ok (mem w) out (of_nat cap) \<Longrightarrow> len_ok (mem w) len \<Longrightarrow>
      f ps out (of_nat cap) len w = then_wipe bufs (deliver v out (of_nat cap) len (w\<lparr>rng := g\<rparr>))"
  shows "yields (call1 ins cap f) s (seen1 cap v) g"
  unfolding yields_def by (rule call1_run [OF assms(1-3)], intro exI conjI, rule assms(4)) simp_all

lemma yields_call2:
  assumes "t_ok s" "short ins" "cap \<le> isize_max" "cap' \<le> isize_max"
    and "\<And>ps o1 l1 o2 l2 w. inputs_at w ps ins \<Longrightarrow> rng w = rng (t_world s) \<Longrightarrow>
      out_ok (mem w) o1 (of_nat cap) \<Longrightarrow> len_ok (mem w) l1 \<Longrightarrow>
      out_ok (mem w) o2 (of_nat cap') \<Longrightarrow> len_ok (mem w) l2 \<Longrightarrow>
      f ps o1 (of_nat cap) l1 o2 (of_nat cap') l2 w =
        then_wipe bufs (deliver_two v o1 (of_nat cap) l1 o2 (of_nat cap') l2 (w\<lparr>rng := g\<rparr>))"
  shows "yields (call2 ins cap cap' f) s (seen2 cap cap' v) g"
  unfolding yields_def by (rule call2_run [OF assms(1-4)], intro exI conjI, rule assms(5)) simp_all

lemma same_rng [simp]: "g = rng w \<Longrightarrow> w\<lparr>rng := g\<rparr> = (w :: world)"
  by simp

lemmas yields_call0 = call0_run [folded yields_def]

lemma yields_freeing: "yields m s x g \<Longrightarrow> t_ok s \<Longrightarrow> yields (freeing m) s x g"
  by (auto simp: yields_def freeing_def t_ok_def)

text \<open>The slices an entry point receives.\<close>

lemma inputs_at_nth:
  "inputs_at w ps xs \<Longrightarrow> i < length xs \<Longrightarrow> n = of_nat (length (xs ! i)) \<Longrightarrow> slice_at (mem w) (ps ! i) n (xs ! i)"
  by (simp add: inputs_at_def)

lemma isize_small: "n \<le> 1000 \<Longrightarrow> n \<le> isize_max"
  by (simp add: isize_max_def)

lemmas inputs_at_list = inputs_at_nth [where i = 0, simplified] inputs_at_nth [where i = 1, simplified]
  inputs_at_nth [where i = 2, simplified] inputs_at_nth [where i = 3, simplified]

text \<open>What is left of a delivered verdict when the vector is truncated to the reported length.\<close>

lemma seen1_Produce:
  "length bs \<le> cap \<Longrightarrow> seen1 cap (Produce bs) = (0, bs @ replicate (cap - length bs) 0, of_nat (length bs))"
  by (simp add: seen1_def)

lemma seen1_Refuse: "seen1 cap (Refuse st) = (code st, replicate cap 0, 0)"
  by (simp add: seen1_def)

lemma seen2_Produce:
  "length b1 \<le> cap1 \<Longrightarrow> length b2 \<le> cap2 \<Longrightarrow> seen2 cap1 cap2 (Produce (b1, b2)) =
     (0, (b1 @ replicate (cap1 - length b1) 0, of_nat (length b1)), (b2 @ replicate (cap2 - length b2) 0, of_nat (length b2)))"
  by (simp add: seen2_def seen1_Produce)

lemma seen2_Refuse: "seen2 cap1 cap2 (Refuse st) = (code st, (replicate cap1 0, 0), (replicate cap2 0, 0))"
  by (simp add: seen2_def)

end
