(* ===== verification/Test_Harness.thy ===== *)
theory Test_Harness
  imports Ffi_Caller
begin

text \<open>
  What the unit tests of the crate do around their calls: they check results with
  assertions, change single bytes and cut slices, and panic when an index is outside.
\<close>

type_synonym 'a test = "'a ffi"

text \<open>\<open>assert!\<close> and \<open>assert_eq!\<close> panic when they fail.\<close>

definition assert_that :: "bool \<Rightarrow> unit test" where
  "assert_that b = (if b then ret () else (\<lambda>s. (Panic (StringPayload ''assertion failed''), s)))"

lemma assert_that_True [simp]: "assert_that True = ret ()"
  by (simp add: assert_that_def)

section \<open>What passes\<close>

text \<open>
  \<open>passes m s\<close>: the test \<open>m\<close> returns. The rules turn a test into the conjunction of what
  its assertions say of the results the calls yield.
\<close>

definition passes :: "unit test \<Rightarrow> ffi_caller \<Rightarrow> bool" where
  "passes m s \<longleftrightarrow> fst (m s) = Done ()"

lemma passes_bind:
  assumes "yields m s x g" "\<And>s'. t_ok s' \<Longrightarrow> rng (t_world s') = g \<Longrightarrow> passes (k x) s' \<longleftrightarrow> P"
  shows "passes (bind_comp m k) s \<longleftrightarrow> P"
  using assms by (auto simp: yields_def passes_def run_simps)

lemma passes_step:
  assumes "yields m s x g" "\<And>s'. t_ok s' \<Longrightarrow> rng (t_world s') = g \<Longrightarrow> passes (k x) s'"
  shows "passes (bind_comp m k) s"
  using passes_bind [OF assms(1), of k True] assms(2) by simp

lemma passes_assert [simp]:
  "passes (assert_that b) s \<longleftrightarrow> b"
  "passes (bind_comp (assert_that b) k) s \<longleftrightarrow> b \<and> passes (k ()) s"
  "passes (ret ()) s"
  "passes (Pair (Done ())) s"
  by (auto simp: assert_that_def passes_def bind_comp_def)

text \<open>\<open>xs[i] ^= 0xFF\<close>, which panics outside the vector.\<close>

definition flip_byte :: "nat \<Rightarrow> bytes \<Rightarrow> bytes" where
  "flip_byte i xs = xs[i := xor (xs ! i) 0xFF]"

definition xor_at :: "nat \<Rightarrow> bytes \<Rightarrow> bytes test" where
  "xor_at i xs = (if i < length xs then ret (flip_byte i xs)
     else (\<lambda>s. (Panic (StringPayload ''index out of bounds''), s)))"

lemma xor_at_bind [simp]: "i < length xs \<Longrightarrow> bind_comp (xor_at i xs) k = k (flip_byte i xs)"
  by (rule ext) (simp add: xor_at_def bind_comp_def)

text \<open>\<open>&xs[..n]\<close>\<close>

definition slice_to :: "nat \<Rightarrow> bytes \<Rightarrow> bytes test" where
  "slice_to n xs = (if n \<le> length xs then ret (take n xs)
     else (\<lambda>s. (Panic (StringPayload ''range end index out of range''), s)))"

lemma slice_to_bind [simp]: "n \<le> length xs \<Longrightarrow> bind_comp (slice_to n xs) k = k (take n xs)"
  by (simp add: slice_to_def)

lemma length_flip_byte [simp]: "length (flip_byte i xs) = length xs"
  by (simp add: flip_byte_def)

lemma flip_byte_neq: "i < length xs \<Longrightarrow> flip_byte i xs \<noteq> xs"
proof
  assume i: "i < length xs" and "flip_byte i xs = xs"
  then have "flip_byte i xs ! i = xs ! i" by simp
  then have e: "xor (xs ! i) 0xFF = xs ! i" using i by (simp add: flip_byte_def)
  have "xor (xs ! i) (xor (xs ! i) 0xFF) = 0" using e by simp
  then show False by (simp flip: xor.assoc)
qed

end
