(* ===== verification/Abi.thy ===== *)
theory Abi
  imports Status
begin

text \<open>
  \<open>lib.rs\<close> and \<open>crypto/mod.rs\<close>: the ABI probe, the status round trip, the two self-tests
  and the writer of status names.
\<close>

section \<open>Probes\<close>

definition pqforge_abi_version :: "32 word" where
  "pqforge_abi_version = 1"

definition pqforge_status_echo :: "c_int \<Rightarrow> c_int" where
  "pqforge_status_echo c = code (from_code c)"

section \<open>The panic self-test\<close>

text \<open>\<open>take_hook\<close> returns the hook and leaves the default one, which reports.\<close>

definition take_hook :: "(world, panic_hook) comp" where
  "take_hook = (\<lambda>w. (Done (hook w), w\<lparr>hook := ReportingHook 0\<rparr>))"

definition set_hook :: "panic_hook \<Rightarrow> (world, unit) comp" where
  "set_hook h = (\<lambda>w. (Done (), w\<lparr>hook := h\<rparr>))"

definition pqforge_selftest_panic :: "(world, c_int) comp" where
  "pqforge_selftest_panic =
    bind_comp take_hook (\<lambda>previous.
    bind_comp (set_hook SilentHook) (\<lambda>_.
    bind_comp (guard (\<lambda>w. (Panic (StrPayload ''intentional pqforge self-test panic''), w))) (\<lambda>r.
    bind_comp (set_hook previous) (\<lambda>_.
    case r of Inr v \<Rightarrow> ret v | Inl e \<Rightarrow> ret (code (status e))))))"

section \<open>Status names\<close>

definition ascii_bytes :: "string \<Rightarrow> bytes" where
  "ascii_bytes s = map of_char s"

definition unwrap_or :: "'a \<Rightarrow> 'a PqResult \<Rightarrow> 'a" where
  "unwrap_or d r = (case r of Inr x \<Rightarrow> x | Inl _ \<Rightarrow> d)"

text \<open>\<open>guard(..).unwrap_or(Internal).code()\<close>\<close>

definition probe :: "closure \<Rightarrow> (world, c_int) comp" where
  "probe body = bind_comp (guard body) (\<lambda>r. ret (code (unwrap_or Internal r)))"

definition status_message_body :: "c_int \<Rightarrow> addr \<Rightarrow> usize \<Rightarrow> addr \<Rightarrow> closure" where
  "status_message_body c out out_cap out_len =
    (let bs = ascii_bytes (status_name (from_code c)) in
     if is_null out_len then returns NullArgument
     else bind_comp (store_usize out_len (of_nat (length bs))) (\<lambda>_.
       if is_null out then returns NullArgument
       else if unat out_cap < length bs then returns BufferTooSmall
       else bind_comp (copy_to_raw out bs) (\<lambda>_. returns Ok)))"

definition pqforge_status_message :: "c_int \<Rightarrow> addr \<Rightarrow> usize \<Rightarrow> addr \<Rightarrow> (world, c_int) comp" where
  "pqforge_status_message c out out_cap out_len = probe (status_message_body c out out_cap out_len)"

section \<open>The crypto self-test\<close>

text \<open>\<open>digest\<close> is the SHA-256 of \<open>aws-lc-rs\<close>, which returns a digest or panics.\<close>

definition aws_lc_live :: "(bytes \<Rightarrow> panic_payload + bytes) \<Rightarrow> (world, bool) comp" where
  "aws_lc_live digest = (\<lambda>w. case digest (ascii_bytes ''pqforge'') of
       Inl p \<Rightarrow> (Panic p, w)
     | Inr d \<Rightarrow> (Done (length d = 32), w))"

definition pqforge_crypto_selftest :: "(bytes \<Rightarrow> panic_payload + bytes) \<Rightarrow> (world, c_int) comp" where
  "pqforge_crypto_selftest digest =
    probe (bind_comp (aws_lc_live digest) (\<lambda>live. if live then returns Ok else returns Internal))"

section \<open>Lemmas\<close>

lemma status_name_length: "length (status_name s) \<le> 18"
  by (cases s) simp_all

lemma status_name_inj: "status_name s = status_name t \<longleftrightarrow> s = t"
  by (cases s; cases t) simp_all

lemma length_ascii_bytes [simp]: "length (ascii_bytes s) = length s"
  by (simp add: ascii_bytes_def)

text \<open>The body repeats \<open>error::write_out\<close> word by word; the two agree.\<close>

lemma status_message_is_write_out:
  "status_message_body c out cap len =
     bind_comp (write_out (ascii_bytes (status_name (from_code c))) out cap len) returns"
  by (rule ext) (simp add: status_message_body_def write_out_def bind_comp_def Let_def
      split: prod.splits outcome.splits)

lemma probe_Done [run_simps]: "body w = (Done r, w') \<Longrightarrow> probe body w = (Done (code (unwrap_or Internal r)), w')"
  by (simp add: probe_def run_simps)

lemma probe_Panic [run_simps]: "body w = (Panic p, w') \<Longrightarrow> probe body w = (Done (code Internal), run_hook p w')"
  by (simp add: probe_def run_simps unwrap_or_def)

lemma status_message_run:
  fixes c :: c_int
  assumes "out_ok (mem w) out cap" and "len_ok (mem w) len"
  defines "bs \<equiv> ascii_bytes (status_name (from_code c))"
  shows "pqforge_status_message c out cap len w =
    (Done (code (write_out_status bs out cap len)), w\<lparr>mem := write_out_mem bs out cap len (mem w)\<rparr>)"
  using write_out_run [OF assms(1,2), of bs]
  by (simp add: pqforge_status_message_def status_message_is_write_out bs_def run_simps unwrap_or_def)

lemma selftest_panic_run: "pqforge_selftest_panic w = (Done (code Internal), w)"
  by (simp add: pqforge_selftest_panic_def take_hook_def set_hook_def bind_comp_def guard_def run_hook_def)

lemma crypto_selftest_run:
  "pqforge_crypto_selftest digest w =
    (case digest (ascii_bytes ''pqforge'') of
       Inl p \<Rightarrow> (Done (code Internal), run_hook p w)
     | Inr d \<Rightarrow> (Done (code (if length d = 32 then Ok else Internal)), w))"
  by (cases "digest (ascii_bytes ''pqforge'')")
     (simp_all add: pqforge_crypto_selftest_def aws_lc_live_def bind_comp_def probe_def guard_def
        unwrap_or_def)

text \<open>The codes and the statuses are in bijection; every other code folds to \<open>Internal\<close>.\<close>

lemma status_codes:
  "from_code (code s) = s \<and> code (from_code c) = (if c \<le> 11 then c else code Internal) \<and>
   pqforge_status_echo c = (if c \<le> 11 then c else 9) \<and> from_code (pqforge_status_echo c) = from_code c"
proof -
  have "from_code (pqforge_status_echo c) = from_code c" by (simp add: pqforge_status_echo_def)
  then show ?thesis using code_from_code [of c] by (simp add: pqforge_status_echo_def)
qed

text \<open>18 bytes are enough for every name.\<close>

lemma status_message_name:
  assumes "out_ok (mem w) out cap" "len_ok (mem w) len" "\<not> is_null out" "\<not> is_null len"
    and "18 \<le> unat cap" "disjoint len 8 out 18"
  shows "let bs = ascii_bytes (status_name (from_code c)) in
    (\<exists>w'. pqforge_status_message c out cap len w = (Done (code Ok), w') \<and>
      bytes_at (mem w') out bs \<and> usize_at (mem w') len (of_nat (length bs))) \<and>
    (\<forall>s. ascii_bytes (status_name s) = bs \<longleftrightarrow> s = from_code c)"
proof -
  let ?bs = "ascii_bytes (status_name (from_code c))"
  have l: "length ?bs \<le> 18" using status_name_length by simp
  then have d: "disjoint len 8 out (length ?bs)" and cap: "length ?bs \<le> unat cap"
    using assms(5,6) disjoint_le by (blast, linarith)
  note c = write_out_mem_complete [OF assms(4,3) cap d, of "mem w"]
  have "ascii_bytes (status_name s) = ?bs \<longleftrightarrow> s = from_code c" for s
    by (cases s; cases "from_code c") (simp_all add: ascii_bytes_def)
  moreover have "pqforge_status_message c out cap len w =
      (Done (code Ok), w\<lparr>mem := write_out_mem ?bs out cap len (mem w)\<rparr>)"
    using status_message_run [OF assms(1,2), of c] cap assms(3,4) by (simp add: write_out_status_def)
  ultimately show ?thesis using c by (simp add: Let_def)
qed

interpretation status_message: ffi_entry
  "\<lambda>(c, out, cap, len). status_message_body c out cap len"
  "\<lambda>(c, out, cap, len) w. out_ok (mem w) out cap \<and> len_ok (mem w) len"
  by unfold_locales
     (auto simp: status_message_is_write_out write_out_run intro!: contained_bind_Done)

text \<open>
  The writer of status names, which repeats the code of
  \<open>write_out\<close> and unwraps the guard by hand instead of calling \<open>finish\<close>, is
  \<open>write_out\<close> under the boundary, in every state and for every argument, contracts
  broken or not.
\<close>

lemma status_message_equiv:
  "pqforge_status_message c out cap len w =
     boundary (bind_comp (write_out (ascii_bytes (status_name (from_code c))) out cap len) returns) w"
proof -
  have "probe (bind_comp m returns) w = boundary (bind_comp m returns) w" for m
    by (cases "m w"; cases "fst (m w)")
       (simp_all add: probe_def boundary_def guard_def bind_comp_def unwrap_or_def finish_def)
  then show ?thesis by (simp add: pqforge_status_message_def status_message_is_write_out)
qed

end
