(* ===== verification/Test_Abi.thy ===== *)
theory Test_Abi
  imports Test_Harness Abi "HOL-Library.Sublist"
begin

text \<open>
  The unit tests of \<open>lib.rs\<close>, \<open>error.rs\<close>, \<open>secret.rs\<close> and \<open>crypto/mod.rs\<close>.
\<close>

section \<open>lib.rs\<close>

definition abi_version_is_one :: "unit test" where
  "abi_version_is_one = assert_that (pqforge_abi_version = 1)"

definition status_echo_round_trips_and_folds_unknown :: "unit test" where
  "status_echo_round_trips_and_folds_unknown =
    bind_comp (assert_that (pqforge_status_echo 2 = 2)) (\<lambda>_.
    bind_comp (assert_that (pqforge_status_echo 11 = 11)) (\<lambda>_.
    assert_that (pqforge_status_echo 999 = code Internal)))"

definition selftest_panic_returns_internal_not_abort :: "unit test" where
  "selftest_panic_returns_internal_not_abort =
    bind_comp (ffi_call pqforge_selftest_panic) (\<lambda>rc. assert_that (rc = code Internal))"

definition status_message_writes_name :: "unit test" where
  "status_message_writes_name =
    bind_comp (call1 [] 64 (\<lambda>_ out cap len. pqforge_status_message 1 out cap len)) (\<lambda>(rc, buf, len).
    bind_comp (assert_that (rc = code Ok)) (\<lambda>_.
    bind_comp (slice_to (unat len) buf) (\<lambda>name.
    assert_that (name = ascii_bytes ''invalid_key''))))"

definition status_message_reports_buffer_too_small :: "unit test" where
  "status_message_reports_buffer_too_small =
    bind_comp (call1 [] 2 (\<lambda>_ out cap len. pqforge_status_message 1 out cap len)) (\<lambda>(rc, buf, len).
    bind_comp (assert_that (rc = code BufferTooSmall)) (\<lambda>_.
    assert_that (unat len = length ''invalid_key'')))"

definition status_message_rejects_null_out_len :: "unit test" where
  "status_message_rejects_null_out_len =
    bind_comp (call0 [replicate 64 0] (\<lambda>ps. pqforge_status_message 1 (ps ! 0) 64 0)) (\<lambda>rc.
    assert_that (rc = code NullArgument))"

section \<open>error.rs\<close>

fun for_each :: "'a list \<Rightarrow> ('a \<Rightarrow> unit test) \<Rightarrow> unit test" where
  "for_each [] f = ret ()"
| "for_each (x # xs) f = bind_comp (f x) (\<lambda>_. for_each xs f)"

definition defined_status_codes_round_trip :: "unit test" where
  "defined_status_codes_round_trip =
    for_each (map of_nat [0..<12]) (\<lambda>c. assert_that (code (from_code c) = c))"

definition unknown_codes_fold_to_internal :: "unit test" where
  "unknown_codes_fold_to_internal =
    bind_comp (assert_that (from_code 999 = Internal)) (\<lambda>_.
    assert_that (from_code (- 1) = Internal))"

text \<open>\<open>String::contains\<close> is \<open>sublist\<close>.\<close>

definition guard_converts_panic_to_internal :: "unit test" where
  "guard_converts_panic_to_internal =
    bind_comp (ffi_call (guard (\<lambda>w. (Panic (StrPayload ''boom''), w)) :: (world, unit PqResult) comp)) (\<lambda>r.
    case r of
      Inl (EInternal m) \<Rightarrow> assert_that (sublist ''boom'' m)
    | other \<Rightarrow> (\<lambda>s. (Panic (StringPayload ''expected Internal''), s)))"

definition unwrap :: "'a PqResult \<Rightarrow> 'a test" where
  "unwrap r = (case r of Inr x \<Rightarrow> ret x
     | Inl e \<Rightarrow> (\<lambda>s. (Panic (StringPayload ''called unwrap on an Err value''), s)))"

definition guard_passes_ok_through :: "unit test" where
  "guard_passes_ok_through =
    bind_comp (ffi_call (guard (ret (Inr (42 :: c_int))))) (\<lambda>r.
    bind_comp (unwrap r) (\<lambda>v. assert_that (v = 42)))"

definition errors_map_to_status :: "unit test" where
  "errors_map_to_status =
    bind_comp (assert_that (status EInvalidCiphertext = InvalidCiphertext)) (\<lambda>_.
    bind_comp (assert_that (status EAuthFailed = AuthFailed)) (\<lambda>_.
    assert_that (status (EInvalidKey ''x'') = InvalidKey)))"

section \<open>secret.rs and crypto/mod.rs\<close>

text \<open>The secret is dropped when the test returns or panics.\<close>

definition with_secret :: "bytes \<Rightarrow> (PinnedSecret \<Rightarrow> unit test) \<Rightarrow> unit test" where
  "with_secret src body =
    bind_comp (ffi_call (pinned_from_slice src)) (\<lambda>r.
    bind_comp (unwrap r) (\<lambda>secret.
    scope_drop (body secret) (\<lambda>s. s\<lparr>t_world := pinned_drop secret (t_world s)\<rparr>)))"

definition copies_and_exposes_bytes :: "unit test" where
  "copies_and_exposes_bytes =
    with_secret [1, 2, 3, 4] (\<lambda>secret. assert_that (pinned_as_slice secret = [1, 2, 3, 4]))"

definition empty_secret_is_fine :: "unit test" where
  "empty_secret_is_fine =
    with_secret [] (\<lambda>secret. assert_that (pinned_as_slice secret = []))"

definition aws_lc_links_and_digests :: "(bytes \<Rightarrow> panic_payload + bytes) \<Rightarrow> unit test" where
  "aws_lc_links_and_digests digest = bind_comp (ffi_call (aws_lc_live digest)) assert_that"

section \<open>What the tests check\<close>

lemma ffi_call_bind: "f (t_world s) = (Done x, w) \<Longrightarrow> bind_comp (ffi_call f) k s = k x (s\<lparr>t_world := w\<rparr>)"
  by (simp add: ffi_call_def bind_comp_def)

lemma passes_ffi: "f (t_world s) = (Done x, w) \<Longrightarrow> passes (k x) (s\<lparr>t_world := w\<rparr>) \<Longrightarrow> passes (bind_comp (ffi_call f) k) s"
  by (simp add: passes_def ffi_call_bind)

lemma unwrap_Inr [simp]: "unwrap (Inr x) = ret x"
  by (simp add: unwrap_def)

lemma probe_tests_pass:
  "passes abi_version_is_one s" "passes status_echo_round_trips_and_folds_unknown s"
  "passes selftest_panic_returns_internal_not_abort s"
  by (simp_all add: abi_version_is_one_def pqforge_abi_version_def status_echo_round_trips_and_folds_unknown_def
      pqforge_status_echo_def from_code_def selftest_panic_returns_internal_not_abort_def
      passes_ffi [OF selftest_panic_run])

lemma yields_status_message:
  assumes "t_ok s" "cap \<le> isize_max"
  shows "yields (call1 [] cap (\<lambda>_ out cap len. pqforge_status_message c out cap len)) s
    (seen1 cap (Produce (ascii_bytes (status_name (from_code c))))) (rng (t_world s))"
  by (rule yields_call1 [OF assms(1) _ assms(2), where bufs = "[]"])
     (simp_all add: short_def status_message_run)

lemma status_message_tests_pass:
  assumes "t_ok s"
  shows "passes status_message_writes_name s" "passes status_message_reports_buffer_too_small s"
    "passes status_message_rejects_null_out_len s"
proof -
  have n: "ascii_bytes (status_name (from_code 1)) = ascii_bytes ''invalid_key''" by (simp add: from_code_def)
  show "passes status_message_writes_name s"
    unfolding status_message_writes_name_def
    by (rule passes_step [OF yields_status_message [OF assms]])
       (simp_all add: isize_small n seen1_Produce unat_of_nat)
  show "passes status_message_reports_buffer_too_small s"
    unfolding status_message_reports_buffer_too_small_def
    by (rule passes_step [OF yields_status_message [OF assms]])
       (simp_all add: isize_small n seen1_def unat_of_nat)
  have "yields (call0 [replicate 64 0] (\<lambda>ps. pqforge_status_message 1 (ps ! 0) 64 0)) s (code NullArgument) (rng (t_world s))"
  proof (rule yields_call0 [OF assms])
    fix ps and w :: world assume i: "inputs_at w ps [replicate 64 0]" and r: "rng w = rng (t_world s)"
    have "out_ok (mem w) (ps ! 0) 64"
      using inputs_at_nth [OF i, of 0 64] slice_at_ok by (fastforce simp: out_ok_def)
    with r show "\<exists>w'. pqforge_status_message 1 (ps ! 0) 64 0 w = (Done (code NullArgument), w') \<and> rng w' = rng (t_world s)"
      by (simp add: status_message_run len_ok_def is_null_def write_out_status_def)
  qed (simp add: short_def isize_small)
  then show "passes status_message_rejects_null_out_len s"
    unfolding status_message_rejects_null_out_len_def by (rule passes_step) simp
qed

lemma error_tests_pass:
  "passes defined_status_codes_round_trip s" "passes unknown_codes_fold_to_internal s"
  "passes guard_converts_panic_to_internal s" "passes guard_passes_ok_through s" "passes errors_map_to_status s"
proof -
  show "passes defined_status_codes_round_trip s"
    by (simp add: defined_status_codes_round_trip_def upt_rec code_from_code)
  show "passes unknown_codes_fold_to_internal s" "passes errors_map_to_status s"
    by (simp_all add: unknown_codes_fold_to_internal_def from_code_def errors_map_to_status_def)
  show "passes guard_converts_panic_to_internal s"
    unfolding guard_converts_panic_to_internal_def by (rule passes_ffi, rule guard_Panic, rule refl) simp
  show "passes guard_passes_ok_through s"
    unfolding guard_passes_ok_through_def by (rule passes_ffi, rule guard_Done, rule ret_run) simp
qed

lemma with_secret_passes: "(\<And>secret. pinned_as_slice secret = src \<Longrightarrow> body secret = ret ()) \<Longrightarrow> passes (with_secret src body) s"
proof -
  assume b: "\<And>secret. pinned_as_slice secret = src \<Longrightarrow> body secret = ret ()"
  obtain sec w where r: "pinned_from_slice src (t_world s) = (Done (Inr sec), w)" "sec_bytes sec = src"
    by (rule pinned_from_slice_run [of src "t_world s"])
  then have "body sec = ret ()" using b by (simp add: pinned_as_slice_def)
  then show ?thesis
    unfolding with_secret_def
    by (intro passes_ffi [where f = "pinned_from_slice src" and s = s and x = "Inr sec" and w = w] r(1))
       (simp add: passes_def run_simps)
qed

lemma secret_tests_pass: "passes copies_and_exposes_bytes s" "passes empty_secret_is_fine s"
  unfolding copies_and_exposes_bytes_def empty_secret_is_fine_def by (rule with_secret_passes, simp)+

lemma digest_test_iff:
  "passes (aws_lc_links_and_digests digest) s \<longleftrightarrow> (\<exists>d. digest (ascii_bytes ''pqforge'') = Inr d \<and> length d = 32)"
  by (cases "digest (ascii_bytes ''pqforge'')")
     (auto simp: aws_lc_links_and_digests_def aws_lc_live_def ffi_call_def passes_def bind_comp_def assert_that_def)

end
