(* ===== verification/Aead.thy ===== *)
theory Aead
  imports Contract
begin

text \<open>
  \<open>crypto/aead.rs\<close>: AES-256-GCM and ChaCha20-Poly1305 across the C-ABI. The primitives of
  \<open>aws-lc-rs\<close> are the record \<open>aead_lib\<close>; its type parameter is their opaque key.
\<close>

section \<open>The linked primitives\<close>

datatype aead_algorithm = AES_256_GCM | CHACHA20_POLY1305

record 'k aead_lib =
  unbound_key_new :: "aead_algorithm \<Rightarrow> bytes \<Rightarrow> 'k ext"
  nonce_new :: "bytes \<Rightarrow> bytes ext"                       \<comment> \<open>\<open>try_assume_unique_for_key\<close>\<close>
  seal_append_tag :: "'k \<Rightarrow> bytes \<Rightarrow> bytes \<Rightarrow> bytes \<Rightarrow> bytes ext" \<comment> \<open>nonce, aad, plaintext\<close>
  open_in_place :: "'k \<Rightarrow> bytes \<Rightarrow> bytes \<Rightarrow> bytes \<Rightarrow> bytes ext"   \<comment> \<open>nonce, aad, ciphertext and tag\<close>

definition TAG_LEN :: nat where
  "TAG_LEN = 16"

definition aead_alg :: "c_int \<Rightarrow> aead_algorithm option" where
  "aead_alg aid = (if aid = 0 then Some AES_256_GCM else if aid = 1 then Some CHACHA20_POLY1305 else None)"

section \<open>Entry points\<close>

definition empty_or :: "addr \<Rightarrow> usize \<Rightarrow> (world, bytes) comp" where
  "empty_or ptr len = (if len = 0 then ret [] else from_raw_parts ptr len)"

definition make_key :: "'k aead_lib \<Rightarrow> aead_algorithm \<Rightarrow> bytes \<Rightarrow> 'k ext" where
  "make_key L alg key = unbound_key_new L alg key"

definition aead_seal_body ::
  "'k aead_lib \<Rightarrow> c_int \<Rightarrow> addr \<Rightarrow> usize \<Rightarrow> addr \<Rightarrow> usize \<Rightarrow> addr \<Rightarrow> usize \<Rightarrow> addr \<Rightarrow> usize
    \<Rightarrow> addr \<Rightarrow> usize \<Rightarrow> addr \<Rightarrow> closure" where
  "aead_seal_body L alg_id key key_len nonce nonce_len aad aad_len plaintext plaintext_len
      ct_out ct_cap ct_len =
    (case aead_alg alg_id of
       None \<Rightarrow> returns InvalidKey
     | Some alg \<Rightarrow>
       if is_null key \<or> is_null nonce \<or> (is_null aad \<and> aad_len \<noteq> 0)
          \<or> (is_null plaintext \<and> plaintext_len \<noteq> 0)
       then returns NullArgument
       else
         bind_comp (from_raw_parts key key_len) (\<lambda>key_slice.
         bind_comp (from_raw_parts nonce nonce_len) (\<lambda>nonce_slice.
         bind_comp (empty_or aad aad_len) (\<lambda>aad_slice.
         bind_comp (empty_or plaintext plaintext_len) (\<lambda>pt_slice.
         ext_case (make_key L alg key_slice) (returns InvalidKey) (\<lambda>sealing.
         ext_case (nonce_new L nonce_slice) (returns InvalidKey) (\<lambda>nonce_obj.
         ext_case (seal_append_tag L sealing nonce_obj aad_slice pt_slice)
           (fails (EInternal ''AEAD seal failed'')) (\<lambda>in_out.
         bind_comp (write_out in_out ct_out ct_cap ct_len) (\<lambda>s. returns s)))))))))"

definition pqforge_aead_seal ::
  "'k aead_lib \<Rightarrow> c_int \<Rightarrow> addr \<Rightarrow> usize \<Rightarrow> addr \<Rightarrow> usize \<Rightarrow> addr \<Rightarrow> usize \<Rightarrow> addr \<Rightarrow> usize
    \<Rightarrow> addr \<Rightarrow> usize \<Rightarrow> addr \<Rightarrow> (world, c_int) comp" where
  "pqforge_aead_seal L alg_id key key_len nonce nonce_len aad aad_len plaintext plaintext_len
      ct_out ct_cap ct_len =
    boundary (aead_seal_body L alg_id key key_len nonce nonce_len aad aad_len
      plaintext plaintext_len ct_out ct_cap ct_len)"

definition aead_open_body ::
  "'k aead_lib \<Rightarrow> c_int \<Rightarrow> addr \<Rightarrow> usize \<Rightarrow> addr \<Rightarrow> usize \<Rightarrow> addr \<Rightarrow> usize \<Rightarrow> addr \<Rightarrow> usize
    \<Rightarrow> addr \<Rightarrow> usize \<Rightarrow> addr \<Rightarrow> closure" where
  "aead_open_body L alg_id key key_len nonce nonce_len aad aad_len ciphertext ciphertext_len
      pt_out pt_cap pt_len =
    (case aead_alg alg_id of
       None \<Rightarrow> returns InvalidKey
     | Some alg \<Rightarrow>
       if is_null key \<or> is_null nonce \<or> is_null ciphertext \<or> (is_null aad \<and> aad_len \<noteq> 0)
       then returns NullArgument
       else if unat ciphertext_len < TAG_LEN then returns InvalidCiphertext
       else
         bind_comp (from_raw_parts key key_len) (\<lambda>key_slice.
         bind_comp (from_raw_parts nonce nonce_len) (\<lambda>nonce_slice.
         bind_comp (empty_or aad aad_len) (\<lambda>aad_slice.
         bind_comp (from_raw_parts ciphertext ciphertext_len) (\<lambda>ct_slice.
         ext_case (make_key L alg key_slice) (returns InvalidKey) (\<lambda>opening.
         ext_case (nonce_new L nonce_slice) (returns InvalidKey) (\<lambda>nonce_obj.
         with_zeroizing ct_slice (\<lambda>in_out.
         ext_case (open_in_place L opening nonce_obj aad_slice in_out)
           (returns AuthFailed) (\<lambda>plaintext.
         bind_comp (write_out plaintext pt_out pt_cap pt_len) (\<lambda>s. returns s))))))))))"

definition pqforge_aead_open ::
  "'k aead_lib \<Rightarrow> c_int \<Rightarrow> addr \<Rightarrow> usize \<Rightarrow> addr \<Rightarrow> usize \<Rightarrow> addr \<Rightarrow> usize \<Rightarrow> addr \<Rightarrow> usize
    \<Rightarrow> addr \<Rightarrow> usize \<Rightarrow> addr \<Rightarrow> (world, c_int) comp" where
  "pqforge_aead_open L alg_id key key_len nonce nonce_len aad aad_len ciphertext ciphertext_len
      pt_out pt_cap pt_len =
    boundary (aead_open_body L alg_id key key_len nonce nonce_len aad aad_len
      ciphertext ciphertext_len pt_out pt_cap pt_len)"

section \<open>The verdict on byte strings\<close>

definition aead_seal_spec :: "'k aead_lib \<Rightarrow> c_int \<Rightarrow> bytes \<Rightarrow> bytes \<Rightarrow> bytes \<Rightarrow> bytes \<Rightarrow> bytes verdict" where
  "aead_seal_spec L aid k n a p = (case aead_alg aid of
       None \<Rightarrow> Refuse InvalidKey
     | Some alg \<Rightarrow>
       on_ext (unbound_key_new L alg k) InvalidKey (\<lambda>kk.
       on_ext (nonce_new L n) InvalidKey (\<lambda>nn.
       on_ext (seal_append_tag L kk nn a p) Internal Produce)))"

definition aead_open_spec :: "'k aead_lib \<Rightarrow> c_int \<Rightarrow> bytes \<Rightarrow> bytes \<Rightarrow> bytes \<Rightarrow> bytes \<Rightarrow> bytes verdict" where
  "aead_open_spec L aid k n a c = (case aead_alg aid of
       None \<Rightarrow> Refuse InvalidKey
     | Some alg \<Rightarrow>
       if length c < TAG_LEN then Refuse InvalidCiphertext else
       on_ext (unbound_key_new L alg k) InvalidKey (\<lambda>kk.
       on_ext (nonce_new L n) InvalidKey (\<lambda>nn.
       on_ext (open_in_place L kk nn a c) AuthFailed Produce)))"

text \<open>Whether the decryption buffer is reached, and so has to be wiped.\<close>

definition aead_open_wiped :: "'k aead_lib \<Rightarrow> c_int \<Rightarrow> bytes \<Rightarrow> bytes \<Rightarrow> bytes \<Rightarrow> bytes list" where
  "aead_open_wiped L aid k n c =
    (case aead_alg aid of
       Some alg \<Rightarrow> (case (unbound_key_new L alg k, nonce_new L n) of
           (ExtOk kk, ExtOk nn) \<Rightarrow> if length c < TAG_LEN then [] else [c]
         | _ \<Rightarrow> [])
     | None \<Rightarrow> [])"

text \<open>Documented behaviour of the primitives.\<close>

definition aead_correct :: "'k aead_lib \<Rightarrow> nat \<Rightarrow> bool" where
  "aead_correct L limit \<longleftrightarrow>
    (\<forall>k n a p. length n = 12 \<longrightarrow> length p \<le> limit \<longrightarrow>
      (\<exists>c. seal_append_tag L k n a p = ExtOk c \<and> length c = length p + 16
           \<and> open_in_place L k n a c = ExtOk p))
    \<and> (\<forall>n. nonce_new L n = (if length n = 12 then ExtOk n else ExtErr))"

text \<open>
  An opened ciphertext is the one its plaintext seals to: the tag is recomputed and
  compared, and the keystream is a permutation of the text.
\<close>

definition aead_tidy :: "'k aead_lib \<Rightarrow> bool" where
  "aead_tidy L \<longleftrightarrow> (\<forall>k n a c p. open_in_place L k n a c = ExtOk p \<longrightarrow>
      seal_append_tag L k n a p = ExtOk c \<and> length c = length p + 16)"

text \<open>Opening in place returns a prefix of the buffer, shorter by the tag.\<close>

definition open_shortens :: "'k aead_lib \<Rightarrow> bool" where
  "open_shortens L \<longleftrightarrow> (\<forall>k n a f p. open_in_place L k n a f = ExtOk p \<longrightarrow> length p + 16 \<le> length f)"

section \<open>Lemmas\<close>

lemma aead_correct_seal:
  assumes "aead_correct L limit" "length n = 12" "length p \<le> limit"
  obtains c where "seal_append_tag L k n a p = ExtOk c" "length c = length p + 16"
    and "open_in_place L k n a c = ExtOk p" "nonce_new L n = ExtOk n"
proof -
  have "\<exists>c. seal_append_tag L k n a p = ExtOk c \<and> length c = length p + 16 \<and> open_in_place L k n a c = ExtOk p"
    and "nonce_new L n = ExtOk n"
    using assms by (simp_all add: aead_correct_def)
  then show ?thesis using that by blast
qed

text \<open>Keys of 32 bytes are accepted and no others: both algorithms have 256-bit keys.\<close>

definition aead_keys :: "'k aead_lib \<Rightarrow> bool" where
  "aead_keys L \<longleftrightarrow> (\<forall>alg k. if length k = 32 then \<exists>kk. unbound_key_new L alg k = ExtOk kk
     else unbound_key_new L alg k = ExtErr)"

lemma aead_keys_round:
  assumes "aead_keys L" "aead_correct L limit" "aead_alg aid = Some alg"
    and "length k = 32" "length n = 12" "length p \<le> limit"
  obtains c where "aead_seal_spec L aid k n a p = Produce c" "length c = length p + 16"
    "aead_open_spec L aid k n a c = Produce p"
proof -
  obtain kk where kk: "unbound_key_new L alg k = ExtOk kk" using assms(1,4) unfolding aead_keys_def by metis
  obtain c where c: "seal_append_tag L kk n a p = ExtOk c" "length c = length p + 16"
    "open_in_place L kk n a c = ExtOk p" "nonce_new L n = ExtOk n"
    by (rule aead_correct_seal [OF assms(2,5,6)])
  show ?thesis
    by (rule that [of c]) (simp_all add: aead_seal_spec_def aead_open_spec_def assms(3) kk c TAG_LEN_def)
qed

lemma empty_or_run [run_simps]: "input_at (mem w) p n bs \<Longrightarrow> empty_or p n w = (Done bs, w)"
  by (auto simp: empty_or_def input_at_def slice_at_ok slice_at_read split: if_splits)

lemma empty_or_Done: "empty_or p n w = (Done x, w') \<Longrightarrow> w' = w"
  by (auto simp: empty_or_def split: if_splits)

lemma contained_empty_or [contained_intros]:
  "in_ok (mem w) p n \<Longrightarrow> \<not> (is_null p \<and> n \<noteq> 0) \<Longrightarrow> contained (empty_or p n) w"
  by (auto simp: empty_or_def in_ok_def intro!: contained_intros)

definition aead_contract :: "heap \<Rightarrow> addr \<Rightarrow> usize \<Rightarrow> addr \<Rightarrow> usize \<Rightarrow> addr \<Rightarrow> usize \<Rightarrow> addr \<Rightarrow> usize
    \<Rightarrow> addr \<Rightarrow> usize \<Rightarrow> addr \<Rightarrow> bool" where
  "aead_contract m key key_len nonce nonce_len aad aad_len input input_len out cap len \<longleftrightarrow>
     in_ok m key key_len \<and> in_ok m nonce nonce_len \<and> in_ok m aad aad_len \<and>
     in_ok m input input_len \<and> out_ok m out cap \<and> len_ok m len"

interpretation aead_seal: ffi_entry
  "\<lambda>(L, i, key, kl, nonce, nl, aad, al, pt, pl, out, cap, len).
     aead_seal_body L i key kl nonce nl aad al pt pl out cap len"
  "\<lambda>(L, i, key, kl, nonce, nl, aad, al, pt, pl, out, cap, len) w.
     aead_contract (mem w) key kl nonce nl aad al pt pl out cap len"
  by unfold_locales
     (auto simp: aead_seal_body_def aead_contract_def in_ok_def
       intro!: contained_intros dest!: empty_or_Done split: option.splits)

interpretation aead_open: ffi_entry
  "\<lambda>(L, i, key, kl, nonce, nl, aad, al, ct, cl, out, cap, len).
     aead_open_body L i key kl nonce nl aad al ct cl out cap len"
  "\<lambda>(L, i, key, kl, nonce, nl, aad, al, ct, cl, out, cap, len) w.
     aead_contract (mem w) key kl nonce nl aad al ct cl out cap len"
  by unfold_locales
     (auto simp: aead_open_body_def aead_contract_def in_ok_def
       intro!: contained_intros dest!: empty_or_Done split: option.splits)

text \<open>The entry points deliver the verdicts.\<close>

lemma boundary_empty_or [boundary_simps]:
  "input_at (mem w) p n bs \<Longrightarrow> boundary (bind_comp (empty_or p n) k) w = boundary (k bs) w"
  by (rule boundary_bind_Done) (rule empty_or_run)

lemma aead_seal_delivers:
  assumes "slice_at (mem w) key key_len k" "slice_at (mem w) nonce nonce_len n"
    and "input_at (mem w) aad aad_len a" "input_at (mem w) pt pt_len p"
    and "out_ok (mem w) out cap" "len_ok (mem w) len"
  shows "pqforge_aead_seal L aid key key_len nonce nonce_len aad aad_len pt pt_len out cap len w =
    deliver (aead_seal_spec L aid k n a p) out cap len w"
  using assms input_at_null [OF assms(3)] input_at_null [OF assms(4)]
  by (auto simp: pqforge_aead_seal_def aead_seal_body_def aead_seal_spec_def make_key_def
      boundary_simps on_ext_def split: option.splits ext.splits)

lemma aead_open_delivers:
  assumes "slice_at (mem w) key key_len k" "slice_at (mem w) nonce nonce_len n"
    and "input_at (mem w) aad aad_len a" "slice_at (mem w) ct ct_len c"
    and "out_ok (mem w) out cap" "len_ok (mem w) len"
  shows "pqforge_aead_open L aid key key_len nonce nonce_len aad aad_len ct ct_len out cap len w =
    then_wipe (aead_open_wiped L aid k n c) (deliver (aead_open_spec L aid k n a c) out cap len w)"
  using assms input_at_null [OF assms(3)] slice_at_length [OF assms(4)]
  by (auto simp: pqforge_aead_open_def aead_open_body_def aead_open_spec_def aead_open_wiped_def
      make_key_def boundary_simps on_ext_def split: option.splits ext.splits)

end
