(* ===== verification/Test_Aead.thy ===== *)
theory Test_Aead
  imports Test_Harness Aead Abi
begin

text \<open>
  The unit tests of \<open>crypto/aead.rs\<close>, and what each of them checks: a test passes exactly
  if the linked primitives have the property its lemma names.
\<close>

section \<open>Calls and helpers\<close>

definition aead_seal_call ::
  "'k aead_lib \<Rightarrow> c_int \<Rightarrow> bytes \<Rightarrow> bytes \<Rightarrow> bytes \<Rightarrow> bytes \<Rightarrow> nat \<Rightarrow> (c_int \<times> bytes \<times> usize) test" where
  "aead_seal_call L alg key nonce aad pt cap =
    call1 [key, nonce, aad, pt] cap (\<lambda>ps out out_cap out_len.
      pqforge_aead_seal L alg (ps ! 0) (of_nat (length key)) (ps ! 1) (of_nat (length nonce))
        (ps ! 2) (of_nat (length aad)) (ps ! 3) (of_nat (length pt)) out out_cap out_len)"

definition aead_open_call ::
  "'k aead_lib \<Rightarrow> c_int \<Rightarrow> bytes \<Rightarrow> bytes \<Rightarrow> bytes \<Rightarrow> bytes \<Rightarrow> nat \<Rightarrow> (c_int \<times> bytes \<times> usize) test" where
  "aead_open_call L alg key nonce aad ct cap =
    call1 [key, nonce, aad, ct] cap (\<lambda>ps out out_cap out_len.
      pqforge_aead_open L alg (ps ! 0) (of_nat (length key)) (ps ! 1) (of_nat (length nonce))
        (ps ! 2) (of_nat (length aad)) (ps ! 3) (of_nat (length ct)) out out_cap out_len)"

text \<open>\<open>truncate\<close> on success, \<open>clear\<close> otherwise.\<close>

definition kept_bytes :: "c_int \<times> bytes \<times> usize \<Rightarrow> c_int \<times> bytes" where
  "kept_bytes = (\<lambda>(rc, buf, n). (rc, if rc = code Ok then take (unat n) buf else []))"

definition aead_test_seal ::
  "'k aead_lib \<Rightarrow> bytes \<Rightarrow> bytes \<Rightarrow> bytes \<Rightarrow> bytes \<Rightarrow> (c_int \<times> bytes) test" where
  "aead_test_seal L key nonce aad pt =
    bind_comp (aead_seal_call L 0 key nonce aad pt (length pt + TAG_LEN + 16)) (\<lambda>r. ret (kept_bytes r))"

definition aead_test_open ::
  "'k aead_lib \<Rightarrow> bytes \<Rightarrow> bytes \<Rightarrow> bytes \<Rightarrow> bytes \<Rightarrow> (c_int \<times> bytes) test" where
  "aead_test_open L key nonce aad ct =
    bind_comp (aead_open_call L 0 key nonce aad ct (length ct)) (\<lambda>r. ret (kept_bytes r))"

section \<open>The tests\<close>

definition seal_open_round_trip :: "'k aead_lib \<Rightarrow> unit test" where
  "seal_open_round_trip L =
    (let key = replicate 32 7; nonce = replicate 12 3; aad = ascii_bytes ''header'';
         pt = ascii_bytes ''top secret payload''
     in bind_comp (aead_test_seal L key nonce aad pt) (\<lambda>(rc, ct).
        bind_comp (assert_that (rc = code Ok)) (\<lambda>_.
        bind_comp (assert_that (length ct = length pt + TAG_LEN)) (\<lambda>_.
        bind_comp (aead_test_open L key nonce aad ct) (\<lambda>(rc, out).
        bind_comp (assert_that (rc = code Ok)) (\<lambda>_.
        assert_that (out = pt)))))))"

definition empty_plaintext_round_trips :: "'k aead_lib \<Rightarrow> unit test" where
  "empty_plaintext_round_trips L =
    (let key = replicate 32 1; nonce = replicate 12 2
     in bind_comp (aead_test_seal L key nonce [] []) (\<lambda>(rc, ct).
        bind_comp (assert_that (rc = code Ok)) (\<lambda>_.
        bind_comp (assert_that (length ct = TAG_LEN)) (\<lambda>_.
        bind_comp (aead_test_open L key nonce [] ct) (\<lambda>(rc, out).
        bind_comp (assert_that (rc = code Ok)) (\<lambda>_.
        assert_that (out = [])))))))"

definition tampered_ciphertext_fails_authentication :: "'k aead_lib \<Rightarrow> unit test" where
  "tampered_ciphertext_fails_authentication L =
    (let key = replicate 32 7; nonce = replicate 12 3
     in bind_comp (aead_test_seal L key nonce [] (ascii_bytes ''data'')) (\<lambda>(_, ct).
        bind_comp (xor_at 0 ct) (\<lambda>ct.
        bind_comp (aead_test_open L key nonce [] ct) (\<lambda>(rc, out).
        bind_comp (assert_that (rc = code AuthFailed)) (\<lambda>_.
        assert_that (out = []))))))"

definition wrong_aad_fails_authentication :: "'k aead_lib \<Rightarrow> unit test" where
  "wrong_aad_fails_authentication L =
    (let key = replicate 32 7; nonce = replicate 12 3
     in bind_comp (aead_test_seal L key nonce (ascii_bytes ''aad-A'') (ascii_bytes ''data'')) (\<lambda>(_, ct).
        bind_comp (aead_test_open L key nonce (ascii_bytes ''aad-B'') ct) (\<lambda>(rc, _).
        assert_that (rc = code AuthFailed))))"

definition wrong_key_length_is_invalid_key :: "'k aead_lib \<Rightarrow> unit test" where
  "wrong_key_length_is_invalid_key L =
    bind_comp (aead_test_seal L (replicate 16 7) (replicate 12 3) [] (ascii_bytes ''x'')) (\<lambda>(rc, _).
    assert_that (rc = code InvalidKey))"

definition short_ciphertext_is_invalid :: "'k aead_lib \<Rightarrow> unit test" where
  "short_ciphertext_is_invalid L =
    bind_comp (aead_test_open L (replicate 32 7) (replicate 12 3) [] (replicate 8 0)) (\<lambda>(rc, _).
    assert_that (rc = code InvalidCiphertext))"

text \<open>The last call reuses the vector \<open>out\<close>, of which only the length matters: just the status is looked at.\<close>

definition chacha20_poly1305_round_trip_and_tamper :: "'k aead_lib \<Rightarrow> unit test" where
  "chacha20_poly1305_round_trip_and_tamper L =
    (let key = replicate 32 9; nonce = replicate 12 4; aad = ascii_bytes ''chacha-aad'';
         pt = ascii_bytes ''chacha20-poly1305 payload''
     in bind_comp (aead_seal_call L 1 key nonce aad pt (length pt + TAG_LEN + 16)) (\<lambda>(rc, ct, cl).
        bind_comp (assert_that (rc = code Ok)) (\<lambda>_.
        let ct = take (unat cl) ct in
        bind_comp (assert_that (length ct = length pt + TAG_LEN)) (\<lambda>_.
        bind_comp (aead_open_call L 1 key nonce aad ct (length ct)) (\<lambda>(rc, out, ol).
        bind_comp (assert_that (rc = code Ok)) (\<lambda>_.
        let out = take (unat ol) out in
        bind_comp (assert_that (out = pt)) (\<lambda>_.
        bind_comp (xor_at 0 ct) (\<lambda>ct.
        bind_comp (aead_open_call L 1 key nonce aad ct (length out)) (\<lambda>(rc, _, _).
        assert_that (rc = code AuthFailed))))))))))"

section \<open>What the calls yield\<close>

lemma yields_aead_seal:
  assumes "t_ok s" "short [key, nonce, aad, pt]" "cap \<le> isize_max"
  shows "yields (aead_seal_call L alg key nonce aad pt cap) s
    (seen1 cap (aead_seal_spec L alg key nonce aad pt)) (rng (t_world s))"
  unfolding aead_seal_call_def
proof (rule yields_call1 [OF assms])
  fix ps out len and w :: world
  assume i: "inputs_at w ps [key, nonce, aad, pt]" and r: "rng w = rng (t_world s)"
    and o: "out_ok (mem w) out (of_nat cap)" "len_ok (mem w) len"
  show "pqforge_aead_seal L alg (ps ! 0) (of_nat (length key)) (ps ! 1) (of_nat (length nonce))
      (ps ! 2) (of_nat (length aad)) (ps ! 3) (of_nat (length pt)) out (of_nat cap) len w =
    then_wipe [] (deliver (aead_seal_spec L alg key nonce aad pt) out (of_nat cap) len (w\<lparr>rng := rng (t_world s)\<rparr>))"
    unfolding then_wipe_simps same_rng [OF r [symmetric]]
    using inputs_at_list [OF i] by (intro aead_seal_delivers o slice_at_input) simp_all
qed

lemma yields_aead_open:
  assumes "t_ok s" "short [key, nonce, aad, ct]" "cap \<le> isize_max"
  shows "yields (aead_open_call L alg key nonce aad ct cap) s
    (seen1 cap (aead_open_spec L alg key nonce aad ct)) (rng (t_world s))"
  unfolding aead_open_call_def
proof (rule yields_call1 [OF assms])
  fix ps out len and w :: world
  assume i: "inputs_at w ps [key, nonce, aad, ct]" and r: "rng w = rng (t_world s)"
    and o: "out_ok (mem w) out (of_nat cap)" "len_ok (mem w) len"
  show "pqforge_aead_open L alg (ps ! 0) (of_nat (length key)) (ps ! 1) (of_nat (length nonce))
      (ps ! 2) (of_nat (length aad)) (ps ! 3) (of_nat (length ct)) out (of_nat cap) len w =
    then_wipe (aead_open_wiped L alg key nonce ct)
      (deliver (aead_open_spec L alg key nonce aad ct) out (of_nat cap) len (w\<lparr>rng := rng (t_world s)\<rparr>))"
    unfolding same_rng [OF r [symmetric]]
    using inputs_at_list [OF i] by (intro aead_open_delivers o slice_at_input) simp_all
qed

lemma kept_Produce [simp]:
  assumes "length bs \<le> cap" "cap \<le> isize_max"
  shows "kept_bytes (seen1 cap (Produce bs)) = (0, bs)"
proof -
  have "length bs \<le> isize_max" using assms by simp
  then show ?thesis using assms(1) by (simp add: kept_bytes_def seen1_Produce unat_isize)
qed

lemma kept_Refuse [simp]: "st \<noteq> Ok \<Longrightarrow> kept_bytes (seen1 cap (Refuse st)) = (code st, [])"
  by (simp add: kept_bytes_def seen1_Refuse)

lemma fst_kept [simp]: "fst (kept_bytes r) = fst r"
  by (simp add: kept_bytes_def split_beta)

text \<open>A status other than those of the writer and the guard is the refusal of the verdict.\<close>

lemma seen1_status:
  "st \<notin> {Ok, BufferTooSmall, Internal} \<Longrightarrow> fst (seen1 cap v) = code st \<longleftrightarrow> v = Refuse st"
  by (cases v) (auto simp: seen1_def simp flip: code.simps)

lemma yields_test_seal:
  assumes "t_ok s" "short [key, nonce, aad, pt]" "length pt + TAG_LEN + 16 \<le> isize_max"
  shows "yields (aead_test_seal L key nonce aad pt) s
    (kept_bytes (seen1 (length pt + TAG_LEN + 16) (aead_seal_spec L 0 key nonce aad pt))) (rng (t_world s))"
  unfolding aead_test_seal_def by (rule yields_bind [OF yields_aead_seal [OF assms]]) (simp add: yields_ret)

lemma yields_test_open:
  assumes "t_ok s" "short [key, nonce, aad, ct]"
  shows "yields (aead_test_open L key nonce aad ct) s
    (kept_bytes (seen1 (length ct) (aead_open_spec L 0 key nonce aad ct))) (rng (t_world s))"
  unfolding aead_test_open_def
  by (rule yields_bind [OF yields_aead_open]) (use assms in \<open>simp_all add: yields_ret short_def\<close>)

section \<open>What the tests check\<close>

lemma passes_seal:
  assumes "aead_seal_spec L 0 key nonce aad pt = Produce c" "length c = length pt + 16"
    and "t_ok s" "length key \<le> 64" "length nonce \<le> 64" "length aad \<le> 64" "length pt \<le> 64"
    and "\<And>s'. t_ok s' \<Longrightarrow> passes (k (0, c)) s' \<longleftrightarrow> P"
  shows "passes (bind_comp (aead_test_seal L key nonce aad pt) k) s \<longleftrightarrow> P"
proof (rule passes_bind [OF yields_test_seal])
  show "short [key, nonce, aad, pt]" "length pt + TAG_LEN + 16 \<le> isize_max"
    using assms(4-7) by (simp_all add: isize_max_def TAG_LEN_def)
  then show "passes (k (kept_bytes (seen1 (length pt + TAG_LEN + 16) (aead_seal_spec L 0 key nonce aad pt)))) s' \<longleftrightarrow> P"
    if "t_ok s'" for s' using assms(1,2,8) that by simp
qed (rule assms(3))

lemma passes_open_any:
  assumes "t_ok s" "length key \<le> 64" "length nonce \<le> 64" "length aad \<le> 64" "length ct \<le> 128"
    and "\<And>s'. t_ok s' \<Longrightarrow>
      passes (k (kept_bytes (seen1 (length ct) (aead_open_spec L 0 key nonce aad ct)))) s' \<longleftrightarrow> P"
  shows "passes (bind_comp (aead_test_open L key nonce aad ct) k) s \<longleftrightarrow> P"
  by (rule passes_bind [OF yields_test_open])
     (use assms in \<open>simp_all add: isize_max_def del: kept_Produce kept_Refuse\<close>)

lemma passes_open:
  assumes "aead_open_spec L 0 key nonce aad ct = Produce p" "length p \<le> length ct"
    and "t_ok s" "length key \<le> 64" "length nonce \<le> 64" "length aad \<le> 64" "length ct \<le> 128"
    and "\<And>s'. t_ok s' \<Longrightarrow> passes (k (0, p)) s' \<longleftrightarrow> P"
  shows "passes (bind_comp (aead_test_open L key nonce aad ct) k) s \<longleftrightarrow> P"
proof (rule passes_open_any [OF assms(3-7)])
  fix s' assume "t_ok s'"
  moreover have "length ct \<le> isize_max" using assms(7) by (simp add: isize_max_def)
  ultimately show "passes (k (kept_bytes (seen1 (length ct) (aead_open_spec L 0 key nonce aad ct)))) s' \<longleftrightarrow> P"
    using assms(1,2,8) by simp
qed

lemma round_trip_passes:
  assumes "t_ok s" "aead_keys L" "aead_correct L limit" "18 \<le> limit"
  shows "passes (seal_open_round_trip L) s"
proof -
  let ?k = "replicate 32 7" and ?n = "replicate 12 3" and ?a = "ascii_bytes ''header''"
    and ?p = "ascii_bytes ''top secret payload''"
  obtain c where c: "aead_seal_spec L 0 ?k ?n ?a ?p = Produce c" "length c = length ?p + 16"
    "aead_open_spec L 0 ?k ?n ?a c = Produce ?p"
    by (rule aead_keys_round [OF assms(2,3), of 0 AES_256_GCM ?k ?n ?p ?a])
       (use assms(4) in \<open>simp_all add: aead_alg_def\<close>)
  have "passes (seal_open_round_trip L) s \<longleftrightarrow> True"
    unfolding seal_open_round_trip_def Let_def
    by (rule passes_seal [OF c(1,2)]) (use assms(1) c(2) in \<open>simp_all add: TAG_LEN_def passes_open [OF c(3)]\<close>)
  then show ?thesis by simp
qed

lemma empty_round_trip_passes:
  assumes "t_ok s" "aead_keys L" "aead_correct L limit"
  shows "passes (empty_plaintext_round_trips L) s"
proof -
  let ?k = "replicate 32 1" and ?n = "replicate 12 2"
  obtain c where c: "aead_seal_spec L 0 ?k ?n [] [] = Produce c" "length c = length ([] :: bytes) + 16"
    "aead_open_spec L 0 ?k ?n [] c = Produce []"
    by (rule aead_keys_round [OF assms(2,3), of 0 AES_256_GCM ?k ?n "[]" "[]"]) (simp_all add: aead_alg_def)
  have "passes (empty_plaintext_round_trips L) s \<longleftrightarrow> True"
    unfolding empty_plaintext_round_trips_def Let_def
    by (rule passes_seal [OF c(1,2)]) (use assms(1) c(2) in \<open>simp_all add: TAG_LEN_def passes_open [OF c(3)]\<close>)
  then show ?thesis by simp
qed

text \<open>The two tests of a failed authentication pass exactly if the primitive rejects the forgery.\<close>

lemma rejected_iff:
  assumes "t_ok s" "length key \<le> 64" "length nonce \<le> 64" "length aad \<le> 64" "length ct \<le> 128"
  shows "passes (bind_comp (aead_test_open L key nonce aad ct) (\<lambda>(rc, _). assert_that (rc = 3))) s \<longleftrightarrow>
      aead_open_spec L 0 key nonce aad ct = Refuse AuthFailed"
    and "passes (bind_comp (aead_test_open L key nonce aad ct) (\<lambda>(rc, out).
        bind_comp (assert_that (rc = 3)) (\<lambda>_. assert_that (out = [])))) s \<longleftrightarrow>
      aead_open_spec L 0 key nonce aad ct = Refuse AuthFailed"
proof -
  let ?v = "aead_open_spec L 0 key nonce aad ct"
  have rc: "fst (seen1 n ?v) = 3 \<longleftrightarrow> ?v = Refuse AuthFailed" for n using seen1_status [of AuthFailed n ?v] by simp
  have out: "?v = Refuse AuthFailed \<Longrightarrow> snd (kept_bytes (seen1 n ?v)) = []" for n by simp
  show "passes (bind_comp (aead_test_open L key nonce aad ct) (\<lambda>(rc, _). assert_that (rc = 3))) s \<longleftrightarrow>
      ?v = Refuse AuthFailed"
    by (rule passes_open_any [OF assms]) (simp add: split_beta rc)
  show "passes (bind_comp (aead_test_open L key nonce aad ct) (\<lambda>(rc, out).
        bind_comp (assert_that (rc = 3)) (\<lambda>_. assert_that (out = [])))) s \<longleftrightarrow>
      ?v = Refuse AuthFailed"
    by (rule passes_open_any [OF assms]) (use out in \<open>auto simp: split_beta rc\<close>)
qed

lemma tampered_test_iff:
  assumes "t_ok s" "aead_seal_spec L 0 (replicate 32 7) (replicate 12 3) [] (ascii_bytes ''data'') = Produce c"
    and "length c = 20"
  shows "passes (tampered_ciphertext_fails_authentication L) s \<longleftrightarrow>
    aead_open_spec L 0 (replicate 32 7) (replicate 12 3) [] (flip_byte 0 c) = Refuse AuthFailed"
  unfolding tampered_ciphertext_fails_authentication_def Let_def
  by (rule passes_seal [OF assms(2)])
     (use assms(1,3) in \<open>simp_all add: rejected_iff\<close>)

lemma wrong_aad_test_iff:
  assumes "t_ok s" "aead_seal_spec L 0 (replicate 32 7) (replicate 12 3) (ascii_bytes ''aad-A'') (ascii_bytes ''data'') = Produce c"
    and "length c = 20"
  shows "passes (wrong_aad_fails_authentication L) s \<longleftrightarrow>
    aead_open_spec L 0 (replicate 32 7) (replicate 12 3) (ascii_bytes ''aad-B'') c = Refuse AuthFailed"
  unfolding wrong_aad_fails_authentication_def Let_def
  by (rule passes_seal [OF assms(2)]) (use assms(1,3) in \<open>simp_all add: rejected_iff\<close>)

lemma wrong_key_test_passes:
  assumes "t_ok s" "aead_keys L"
  shows "passes (wrong_key_length_is_invalid_key L) s"
proof -
  have v: "aead_seal_spec L 0 (replicate 16 7) n a p = Refuse InvalidKey" for n a p
    using assms(2) by (simp add: aead_seal_spec_def aead_alg_def aead_keys_def)
  show ?thesis
    unfolding wrong_key_length_is_invalid_key_def
    by (rule passes_step [OF yields_test_seal [OF assms(1)]]) (simp_all add: v TAG_LEN_def isize_max_def)
qed

lemma short_ciphertext_test_passes:
  assumes "t_ok s"
  shows "passes (short_ciphertext_is_invalid L) s"
proof -
  have v: "aead_open_spec L 0 k n a (replicate 8 0) = Refuse InvalidCiphertext" for k n a
    by (simp add: aead_open_spec_def aead_alg_def TAG_LEN_def)
  have "passes (short_ciphertext_is_invalid L) s \<longleftrightarrow> True"
    unfolding short_ciphertext_is_invalid_def
    by (rule passes_open_any [OF assms]) (simp_all add: v)
  then show ?thesis by simp
qed

lemma chacha_test_iff:
  fixes L :: "'k aead_lib"
  defines "k \<equiv> replicate 32 9" and "n \<equiv> replicate 12 4" and "a \<equiv> ascii_bytes ''chacha-aad''"
    and "p \<equiv> ascii_bytes ''chacha20-poly1305 payload''"
  assumes "t_ok s" "aead_seal_spec L 1 k n a p = Produce c" "length c = length p + 16"
    and "aead_open_spec L 1 k n a c = Produce p"
  shows "passes (chacha20_poly1305_round_trip_and_tamper L) s \<longleftrightarrow>
    aead_open_spec L 1 k n a (flip_byte 0 c) = Refuse AuthFailed"
proof -
  have p: "length p = 25" and c: "length c = 41" using assms(7) by (simp_all add: p_def)
  have kna: "length k = 32" "length n = 12" "length a = 10" by (simp_all add: k_def n_def a_def)
  let ?v = "aead_open_spec L 1 k n a (flip_byte 0 c)"
  have last: "passes (bind_comp (aead_open_call L 1 k n a (flip_byte 0 c) 25)
      (\<lambda>(rc, _, _). assert_that (rc = 3))) s' \<longleftrightarrow> ?v = Refuse AuthFailed" if "t_ok s'" for s'
    using seen1_status [of AuthFailed 25 ?v]
    by (intro passes_bind [OF yields_aead_open [OF that]]) (simp_all add: kna c isize_max_def split_beta)
  have opened: "passes (bind_comp (aead_open_call L 1 k n a c 41) (\<lambda>(rc, out, ol).
        bind_comp (assert_that (rc = 0)) (\<lambda>_.
        bind_comp (assert_that (take (unat ol) out = p)) (\<lambda>_.
        bind_comp (aead_open_call L 1 k n a (flip_byte 0 c) (min (length out) (unat ol))) (\<lambda>(rc, _, _).
        assert_that (rc = 3)))))) s' \<longleftrightarrow> ?v = Refuse AuthFailed" if "t_ok s'" for s'
    by (rule passes_bind [OF yields_aead_open [OF that]])
       (simp_all add: kna c p isize_max_def assms(8) seen1_Produce last)
  show ?thesis
    unfolding chacha20_poly1305_round_trip_and_tamper_def Let_def k_def [symmetric] n_def [symmetric] a_def [symmetric] p_def [symmetric]
    by (rule passes_bind [OF yields_aead_seal [OF assms(5)]])
       (simp_all add: kna c p TAG_LEN_def isize_max_def assms(6) seen1_Produce opened)
qed

end
