(* ===== verification/Frames.thy ===== *)
theory Frames
  imports Aead
begin

text \<open>
  The STREAM construction of \<open>crypto/stream_file.rs\<close> without its files: the per-frame
  nonce, the frame counter, and what sealing and opening a list of frames means. The
  laws a frame codec needs are the locale \<open>frame_codec\<close>; it is interpreted on the
  AEAD frames of the program.
\<close>

section \<open>Nonce and counter\<close>

definition stream_aead_alg :: "c_int \<Rightarrow> aead_algorithm option" where
  "stream_aead_alg aid =
    (if aid = 0 then Some AES_256_GCM else if aid = 1 then Some CHACHA20_POLY1305 else None)"

text \<open>\<open>nonce[3..11].copy_from_slice(..)\<close> and \<open>nonce[11] = ..\<close> on twelve zero bytes.\<close>

definition stream_nonce :: "u64 \<Rightarrow> bool \<Rightarrow> bytes" where
  "stream_nonce counter is_last =
    (let nonce0 = replicate 12 0;
         nonce1 = take 3 nonce0 @ be_bytes counter @ drop 11 nonce0
     in nonce1[11 := (if is_last then 1 else 0)])"

definition next_counter :: "u64 \<Rightarrow> u64 PqResult" where
  "next_counter counter =
    (if unat counter + 1 < 2 ^ 64 then Inr (counter + 1)
     else Inl (EInternal ''frame counter overflow''))"

lemma stream_nonce_layout: "stream_nonce c l = [0, 0, 0] @ be_bytes c @ [if l then 1 else 0]"
proof -
  have "replicate 12 (0::u8) = [0,0,0,0,0,0,0,0,0,0,0,0]" by (simp add: numeral_eq_Suc)
  then show ?thesis
    by (simp add: stream_nonce_def Let_def list_update_append be_bytes_def numeral_eq_Suc)
qed

lemma length_stream_nonce [simp]: "length (stream_nonce c l) = 12"
  by (simp add: stream_nonce_layout)

lemma stream_nonce_inj: "stream_nonce c l = stream_nonce c' l' \<longleftrightarrow> c = c' \<and> l = l'"
  by (auto simp: stream_nonce_layout be_bytes_inj)

lemma next_counter_Inr: "next_counter c = Inr c' \<Longrightarrow> c' = c + 1 \<and> unat c' = unat c + 1"
  by (auto simp: next_counter_def unat_word_ariths split: if_splits)

lemma next_counter_of_nat:
  "i + 1 < 2 ^ 64 \<Longrightarrow> next_counter (of_nat i) = Inr (of_nat (Suc i))"
  by (simp add: next_counter_def unat_of_nat)

section \<open>One frame\<close>

definition frame_seal :: "'k aead_lib \<Rightarrow> 'k \<Rightarrow> bytes \<Rightarrow> u64 \<Rightarrow> bool \<Rightarrow> bytes \<Rightarrow> bytes ext" where
  "frame_seal L k ad c l p = (case nonce_new L (stream_nonce c l) of
       ExtOk n \<Rightarrow> seal_append_tag L k n ad p
     | ExtErr \<Rightarrow> ExtErr
     | ExtPanic q \<Rightarrow> ExtPanic q)"

definition frame_enc :: "'k aead_lib \<Rightarrow> 'k \<Rightarrow> bytes \<Rightarrow> u64 \<Rightarrow> bool \<Rightarrow> bytes \<Rightarrow> bytes" where
  "frame_enc L k ad c l p = (case frame_seal L k ad c l p of ExtOk f \<Rightarrow> f | _ \<Rightarrow> [])"

definition frame_dec :: "'k aead_lib \<Rightarrow> 'k \<Rightarrow> bytes \<Rightarrow> u64 \<Rightarrow> bool \<Rightarrow> bytes \<Rightarrow> bytes option" where
  "frame_dec L k ad c l f = (case nonce_new L (stream_nonce c l) of
       ExtOk n \<Rightarrow> (case open_in_place L k n ad f of ExtOk p \<Rightarrow> Some p | _ \<Rightarrow> None)
     | _ \<Rightarrow> None)"

section \<open>Streams of frames\<close>

text \<open>
  The counter starts at 0 and grows by one per frame, the flag marks the last frame; an
  empty plaintext is one empty frame.
\<close>

fun seal_list :: "(u64 \<Rightarrow> bool \<Rightarrow> bytes \<Rightarrow> bytes) \<Rightarrow> u64 \<Rightarrow> bytes list \<Rightarrow> bytes list" where
  "seal_list enc c [] = []"
| "seal_list enc c [x] = [enc c True x]"
| "seal_list enc c (x # y # zs) = enc c False x # seal_list enc (c + 1) (y # zs)"

definition plain_frames :: "nat \<Rightarrow> bytes \<Rightarrow> bytes list" where
  "plain_frames n pt = (if pt = [] then [[]] else blocks n pt)"

definition stream_seal :: "(u64 \<Rightarrow> bool \<Rightarrow> bytes \<Rightarrow> bytes) \<Rightarrow> nat \<Rightarrow> bytes \<Rightarrow> bytes" where
  "stream_seal enc n pt = concat (seal_list enc 0 (plain_frames n pt))"

text \<open>The status an opener ends with, and the plaintext it has released by then.\<close>

fun open_list :: "(u64 \<Rightarrow> bool \<Rightarrow> bytes \<Rightarrow> bytes option) \<Rightarrow> nat \<Rightarrow> u64 \<Rightarrow> bytes list
    \<Rightarrow> PqForgeStatus \<times> bytes" where
  "open_list dec cc c [] = (InvalidCiphertext, [])"
| "open_list dec cc c (f # fs) =
    (if length f < TAG_LEN then (InvalidCiphertext, [])
     else let is_last = (length f < cc \<or> fs = []) in
       case dec c is_last f of
         None \<Rightarrow> (AuthFailed, [])
       | Some p \<Rightarrow>
         if is_last then (if fs \<noteq> [] then InvalidCiphertext else Ok, p)
         else let (s, q) = open_list dec cc (c + 1) fs in (s, p @ q))"

definition stream_open :: "(u64 \<Rightarrow> bool \<Rightarrow> bytes \<Rightarrow> bytes option) \<Rightarrow> nat \<Rightarrow> bytes
    \<Rightarrow> PqForgeStatus \<times> bytes" where
  "stream_open dec cc ct = open_list dec cc 0 (blocks cc ct)"

lemma seal_list_Cons:
  "seal_list enc c (x # xs) = enc c (xs = []) x # seal_list enc (c + 1) xs"
  by (cases xs) simp_all

lemma length_seal_list [simp]: "length (seal_list enc c xs) = length xs"
  by (induction xs arbitrary: c) (simp_all add: seal_list_Cons)

lemma seal_list_eq_Nil [simp]: "seal_list enc c xs = [] \<longleftrightarrow> xs = []"
  by (cases xs) (simp_all add: seal_list_Cons)

lemma seal_list_nth:
  "i < length xs \<Longrightarrow> seal_list enc c xs ! i = enc (c + of_nat i) (Suc i = length xs) (xs ! i)"
proof (induction xs arbitrary: c i)
  case (Cons x xs)
  then show ?case by (cases i) (auto simp: seal_list_Cons ac_simps)
qed simp

lemma plain_frames_not_empty [simp]: "0 < n \<Longrightarrow> plain_frames n pt \<noteq> []"
  by (simp add: plain_frames_def)

lemma concat_plain_frames: "0 < n \<Longrightarrow> concat (plain_frames n pt) = pt"
  by (simp add: plain_frames_def concat_blocks)

lemma plain_frames_bound: "b \<in> set (plain_frames n pt) \<Longrightarrow> length b \<le> n"
  by (auto simp: plain_frames_def blocks_bound split: if_splits)

text \<open>
  What an accepting run looks like: every frame was opened under its own index, the flag
  set on the last one only.
\<close>

lemma open_list_Ok_ex:
  "open_list dec cc c fs = (Ok, out) \<Longrightarrow>
     \<exists>ps. length ps = length fs \<and> out = concat ps \<and> fs \<noteq> [] \<and>
       (\<forall>i<length fs. dec (c + of_nat i) (Suc i = length fs) (fs ! i) = Some (ps ! i))"
proof (induction fs arbitrary: c out)
  case (Cons f fs)
  show ?case
  proof (cases "length f < cc \<or> fs = []")
    case True
    with Cons.prems obtain p where "dec c True f = Some p" "out = p" "fs = []"
      by (auto simp: Let_def split: if_splits option.splits)
    then show ?thesis by (intro exI [of _ "[p]"]) auto
  next
    case False
    with Cons.prems obtain p q where p: "dec c False f = Some p"
      and q: "open_list dec cc (c + 1) fs = (Ok, q)" and out: "out = p @ q"
      by (auto simp: Let_def split: if_splits option.splits prod.splits)
    from Cons.IH [OF q] obtain ps where "length ps = length fs" "q = concat ps" "fs \<noteq> []"
      "\<forall>i<length fs. dec (c + 1 + of_nat i) (Suc i = length fs) (fs ! i) = Some (ps ! i)"
      by blast
    with p out show ?thesis
      by (intro exI [of _ "p # ps"]) (simp add: All_less_Suc2 add.assoc)
  qed
qed simp

lemma open_list_Ok:
  assumes "open_list dec cc c fs = (Ok, out)"
  obtains ps where "length ps = length fs" and "out = concat ps" and "fs \<noteq> []"
    and "\<And>i. i < length fs \<Longrightarrow> dec (c + of_nat i) (Suc i = length fs) (fs ! i) = Some (ps ! i)"
  using open_list_Ok_ex [OF assms] by blast

text \<open>The released plaintext always comes from frames that verified, whatever the status.\<close>

lemma open_list_released:
  "\<exists>ps. length ps \<le> length fs \<and> snd (open_list dec cc c fs) = concat ps \<and>
     (\<forall>i<length ps. \<exists>l. dec (c + of_nat i) l (fs ! i) = Some (ps ! i))"
proof (induction fs arbitrary: c)
  case (Cons f fs)
  obtain ps where ps: "length ps \<le> length fs" "snd (open_list dec cc (c + 1) fs) = concat ps"
    "\<forall>i<length ps. \<exists>l. dec (c + 1 + of_nat i) l (fs ! i) = Some (ps ! i)"
    using Cons.IH by blast
  let ?l = "length f < cc \<or> fs = []"
  show ?case
  proof (cases "length f < TAG_LEN \<or> dec c ?l f = None")
    case True
    then show ?thesis by (intro exI [of _ "[]"]) (auto simp: Let_def)
  next
    case False
    then obtain p where p: "dec c ?l f = Some p" by auto
    show ?thesis
    proof (cases ?l)
      case True
      with False p show ?thesis by (intro exI [of _ "[p]"]) (auto simp: Let_def)
    next
      case False': False
      with False p have "snd (open_list dec cc c (f # fs)) = p @ snd (open_list dec cc (c + 1) fs)"
        by (simp add: Let_def split: prod.splits)
      with p ps show ?thesis
        by (intro exI [of _ "p # ps"]) (auto simp: All_less_Suc2 add.assoc)
    qed
  qed
qed simp

section \<open>Frame codecs\<close>

text \<open>
  No forgery in a run: a block of the presented stream that verifies is the frame that was
  sealed at that index, presented with the flag it was sealed with.
\<close>

definition no_forgery :: "(u64 \<Rightarrow> bool \<Rightarrow> bytes \<Rightarrow> bytes option) \<Rightarrow> bytes list \<Rightarrow> bytes list \<Rightarrow> bool" where
  "no_forgery dec sealed presented \<longleftrightarrow>
    (\<forall>i<length presented. \<forall>l. dec (of_nat i) l (presented ! i) \<noteq> None \<longrightarrow>
       i < length sealed \<and> l = (Suc i = length sealed) \<and> presented ! i = sealed ! i)"

locale frame_codec =
  fixes enc :: "'x \<Rightarrow> u64 \<Rightarrow> bool \<Rightarrow> bytes \<Rightarrow> bytes"
    and dec :: "'x \<Rightarrow> u64 \<Rightarrow> bool \<Rightarrow> bytes \<Rightarrow> bytes option"
    and lawful :: "'x \<Rightarrow> nat \<Rightarrow> bool"
  assumes dec_enc: "lawful x n \<Longrightarrow> length p \<le> n \<Longrightarrow> dec x c l (enc x c l p) = Some p"
    and length_enc: "lawful x n \<Longrightarrow> length p \<le> n \<Longrightarrow> length (enc x c l p) = length p + TAG_LEN"
begin

text \<open>Full frames and one more, which is not longer.\<close>

lemma open_seal_list:
  "lawful x n \<Longrightarrow> \<forall>p\<in>set ps. length p = n \<Longrightarrow> length q \<le> n \<Longrightarrow>
     open_list (dec x) (n + TAG_LEN) c (seal_list (enc x) c (ps @ [q])) = (Ok, concat ps @ q)"
  by (induction ps arbitrary: c) (simp_all add: seal_list_Cons length_enc dec_enc)

lemma cut_ok_seal_list:
  "lawful x n \<Longrightarrow> \<forall>p\<in>set ps. length p = n \<Longrightarrow> length q \<le> n \<Longrightarrow>
     cut_ok (n + TAG_LEN) (seal_list (enc x) c (ps @ [q]))"
proof (induction ps arbitrary: c)
  case Nil
  then show ?case using length_enc [of x n q c True] by (auto simp: seal_list_Cons TAG_LEN_def)
next
  case (Cons p ps)
  then show ?case by (simp add: seal_list_Cons cut_ok_Cons length_enc)
qed

lemma open_sealed_frames:
  assumes "lawful x n" "0 < n" "\<forall>p\<in>set ps. length p = n" "length q \<le> n"
  shows "stream_open (dec x) (n + TAG_LEN) (concat (seal_list (enc x) 0 (ps @ [q]))) = (Ok, concat ps @ q)"
    and "blocks (n + TAG_LEN) (concat (seal_list (enc x) 0 (ps @ [q]))) = seal_list (enc x) 0 (ps @ [q])"
proof -
  show b: "blocks (n + TAG_LEN) (concat (seal_list (enc x) 0 (ps @ [q]))) = seal_list (enc x) 0 (ps @ [q])"
    by (rule blocks_concat) (use assms cut_ok_seal_list in auto)
  show "stream_open (dec x) (n + TAG_LEN) (concat (seal_list (enc x) 0 (ps @ [q]))) = (Ok, concat ps @ q)"
    using open_seal_list [OF assms(1,3,4)] by (simp add: stream_open_def b)
qed

lemma plain_frames_split:
  assumes "0 < n"
  obtains ps q where "plain_frames n pt = ps @ [q]" "\<forall>p\<in>set ps. length p = n" "length q \<le> n" "pt = concat ps @ q"
proof -
  obtain ps q where f: "plain_frames n pt = ps @ [q]"
    using plain_frames_not_empty [OF assms] by (metis rev_exhaust)
  moreover have "cut_ok n (ps @ [q]) \<or> ps @ [q] = [[]]"
    using cut_ok_blocks [OF assms, of pt] f by (auto simp: plain_frames_def split: if_splits)
  ultimately show ?thesis
    using concat_plain_frames [OF assms, of pt] by (intro that [of ps q]) (auto simp: cut_ok_append)
qed

lemma blocks_stream_seal:
  "lawful x n \<Longrightarrow> 0 < n \<Longrightarrow>
     blocks (n + TAG_LEN) (stream_seal (enc x) n pt) = seal_list (enc x) 0 (plain_frames n pt)"
  unfolding stream_seal_def by (rule plain_frames_split [of n pt]) (simp_all add: open_sealed_frames(2))

lemma open_seal:
  "lawful x n \<Longrightarrow> 0 < n \<Longrightarrow>
     stream_open (dec x) (n + TAG_LEN) (stream_seal (enc x) n pt) = (Ok, pt)"
  unfolding stream_seal_def by (rule plain_frames_split [of n pt]) (simp_all add: open_sealed_frames(1))

text \<open>The other encoding: after full frames, an empty one.\<close>

lemma open_empty_last:
  assumes "lawful x n" "0 < n" "n dvd length pt"
  shows "stream_open (dec x) (n + TAG_LEN) (concat (seal_list (enc x) 0 (blocks n pt @ [[]]))) = (Ok, pt)"
proof -
  have "length b = n" if b: "b \<in> set (blocks n pt)" for b
  proof (cases "blocks n pt" rule: rev_cases)
    case (snoc bs c)
    have full: "\<forall>x\<in>set bs. length x = n" "c \<noteq> []" "length c \<le> n"
      using cut_ok_blocks [OF assms(2), of pt] snoc by (simp_all add: cut_ok_append)
    have "length pt = n * length bs + length c"
      using concat_blocks [OF assms(2), of pt] length_concat_full [OF full(1)] snoc
      by (metis concat.simps concat_append append_Nil2 length_append)
    then have "n dvd length c" using assms(3) by (simp add: dvd_add_right_iff)
    then have "length c = n" using full(2,3) by (simp add: dvd_imp_le le_antisym)
    then show ?thesis using b full(1) snoc by auto
  qed (use b in simp)
  then have "\<forall>b\<in>set (blocks n pt). length b = n" by blast
  from open_sealed_frames(1) [OF assms(1,2) this, of "[]"] show ?thesis
    using concat_blocks [OF assms(2), of pt] by simp
qed

lemma length_stream_seal:
  assumes "lawful x n" and "0 < n"
  shows "length (stream_seal (enc x) n pt) = length pt + TAG_LEN * length (plain_frames n pt)"
proof -
  have "(\<forall>b\<in>set bs. length b \<le> n) \<Longrightarrow>
      length (concat (seal_list (enc x) c bs)) = length (concat bs) + TAG_LEN * length bs" for c bs
    by (induction bs arbitrary: c) (simp_all add: seal_list_Cons length_enc [OF assms(1)])
  then show ?thesis
    using assms(2) plain_frames_bound [of _ n pt] concat_plain_frames [of n pt]
    by (simp add: stream_seal_def)
qed

text \<open>Without forgery an accepted stream is the sealed one: nothing reordered, cut off or appended.\<close>

lemma accepted_is_sealed:
  assumes "lawful x n" "0 < n"
    and nf: "no_forgery (dec x) (seal_list (enc x) 0 (plain_frames n pt)) (blocks (n + TAG_LEN) ct)"
    and ok: "stream_open (dec x) (n + TAG_LEN) ct = (Ok, out)"
  shows "ct = stream_seal (enc x) n pt" and "out = pt"
proof -
  let ?F = "seal_list (enc x) 0 (plain_frames n pt)" and ?B = "blocks (n + TAG_LEN) ct"
  from ok obtain ps where B: "?B \<noteq> []"
    and d: "\<And>i. i < length ?B \<Longrightarrow> dec x (of_nat i) (Suc i = length ?B) (?B ! i) = Some (ps ! i)"
    unfolding stream_open_def by (rule open_list_Ok) auto
  have nth: "i < length ?F \<and> (Suc i = length ?B \<longleftrightarrow> Suc i = length ?F) \<and> ?B ! i = ?F ! i"
    if "i < length ?B" for i
    using nf d [OF that] that by (auto simp: no_forgery_def)
  have "length ?B = length ?F"
    using nth [of "length ?B - 1"] B by (cases ?B) auto
  then have "?B = ?F" by (rule nth_equalityI) (use nth in blast)
  then have "concat ?B = concat ?F" by simp
  then show ct: "ct = stream_seal (enc x) n pt"
    by (simp add: concat_blocks stream_seal_def TAG_LEN_def)
  from ok ct open_seal [OF assms(1,2), of pt] show "out = pt" by simp
qed

end

text \<open>A codec whose accepted frames are exactly the sealed ones of their plaintext.\<close>

locale tidy_codec = frame_codec +
  fixes tidy :: "'a \<Rightarrow> bool"
  assumes enc_dec: "tidy x \<Longrightarrow> dec x c l f = Some p \<Longrightarrow> enc x c l p = f"
    and length_dec: "tidy x \<Longrightarrow> dec x c l f = Some p \<Longrightarrow> length f = length p + TAG_LEN"
begin

text \<open>
  Which streams are accepted with plaintext \<open>out\<close>: the sealing of \<open>out\<close>, and one other
  encoding, where an empty last frame follows full ones.
\<close>

lemma accepted_frames:
  assumes "tidy x" and "open_list (dec x) cc c fs = (Ok, out)"
  obtains ps where "fs = seal_list (enc x) c ps" and "out = concat ps" and "ps \<noteq> []"
    and "map length fs = map (\<lambda>p. length p + TAG_LEN) ps"
proof -
  from assms(2) obtain ps where ps: "length ps = length fs" "out = concat ps" "fs \<noteq> []"
    "\<And>i. i < length fs \<Longrightarrow> dec x (c + of_nat i) (Suc i = length fs) (fs ! i) = Some (ps ! i)"
    by (rule open_list_Ok) auto
  have "fs = seal_list (enc x) c ps"
    by (rule nth_equalityI) (simp_all add: ps seal_list_nth enc_dec [OF assms(1) ps(4)])
  moreover have "map length fs = map (\<lambda>p. length p + TAG_LEN) ps"
    by (rule nth_equalityI) (simp_all add: ps length_dec [OF assms(1) ps(4)])
  ultimately show ?thesis using ps by (intro that) auto
qed

lemma accepted_encodings:
  assumes "tidy x" "0 < n" and ok: "stream_open (dec x) (n + TAG_LEN) ct = (Ok, out)"
  shows "ct = stream_seal (enc x) n out \<or>
    n dvd length out \<and> ct = concat (seal_list (enc x) 0 (blocks n out @ [[]]))"
proof -
  let ?B = "blocks (n + TAG_LEN) ct"
  from ok obtain ps where B: "?B = seal_list (enc x) 0 ps" and out: "out = concat ps" and "ps \<noteq> []"
    and len: "map length ?B = map (\<lambda>p. length p + TAG_LEN) ps"
    unfolding stream_open_def by (rule accepted_frames [OF assms(1)])
  have ct: "ct = concat (seal_list (enc x) 0 ps)"
    using concat_blocks [of "n + TAG_LEN" ct] B assms(2) by simp
  obtain qs q where ps: "ps = qs @ [q]" using \<open>ps \<noteq> []\<close> by (metis rev_exhaust)
  obtain fs f where fs: "?B = fs @ [f]" using B \<open>ps \<noteq> []\<close> by (metis rev_exhaust seal_list_eq_Nil)
  have cut: "cut_ok (n + TAG_LEN) (fs @ [f])" using cut_ok_blocks [of "n + TAG_LEN" ct] fs assms(2) by simp
  have lq: "map length fs = map (\<lambda>p. length p + TAG_LEN) qs" "length f = length q + TAG_LEN"
    using len fs ps by simp_all
  have full: "\<forall>x\<in>set qs. length x = n"
  proof
    fix x assume "x \<in> set qs"
    then have "length x + TAG_LEN \<in> set (map length fs)" unfolding lq(1) by simp
    then show "length x = n" using cut by (auto simp: cut_ok_append)
  qed
  have qn: "length q \<le> n" using cut lq(2) by (simp add: cut_ok_append)
  show ?thesis
  proof (cases "q = []")
    case False
    then have "cut_ok n ps" using full qn by (simp add: ps cut_ok_append)
    then have "plain_frames n out = ps"
      using blocks_concat [OF assms(2), of ps] False by (auto simp: out plain_frames_def ps)
    then show ?thesis by (simp add: ct stream_seal_def)
  next
    case True
    have "blocks n out = qs"
      using blocks_concat [OF assms(2) cut_ok_full [OF assms(2) full]] True by (simp add: out ps)
    then show ?thesis
      using True full length_concat_full [OF full] by (simp add: ct ps out)
  qed
qed

end

text \<open>The frames of the program.\<close>

definition frame_lawful :: "'k aead_lib \<times> 'k \<times> bytes \<Rightarrow> nat \<Rightarrow> bool" where
  "frame_lawful = (\<lambda>(L, k, ad) n. aead_correct L n)"

definition frame_tidy :: "'k aead_lib \<times> 'k \<times> bytes \<Rightarrow> bool" where
  "frame_tidy = (\<lambda>(L, k, ad). aead_tidy L)"

lemma frame_seal_lawful:
  assumes "aead_correct L n" and "length p \<le> n"
  shows "frame_seal L k ad c l p = ExtOk (frame_enc L k ad c l p)"
    and "length (frame_enc L k ad c l p) = length p + TAG_LEN"
    and "frame_dec L k ad c l (frame_enc L k ad c l p) = Some p"
proof -
  obtain f where f: "seal_append_tag L k (stream_nonce c l) ad p = ExtOk f"
    "length f = length p + 16" "open_in_place L k (stream_nonce c l) ad f = ExtOk p"
    and n: "nonce_new L (stream_nonce c l) = ExtOk (stream_nonce c l)"
    by (rule aead_correct_seal [OF assms(1) length_stream_nonce assms(2)])
  show "frame_seal L k ad c l p = ExtOk (frame_enc L k ad c l p)"
    and "length (frame_enc L k ad c l p) = length p + TAG_LEN"
    and "frame_dec L k ad c l (frame_enc L k ad c l p) = Some p"
    by (simp_all add: frame_seal_def frame_enc_def frame_dec_def n f TAG_LEN_def)
qed

lemma frame_enc_tidy:
  assumes "aead_tidy L" and "frame_dec L k ad c l f = Some p"
  shows "frame_enc L k ad c l p = f" and "length f = length p + TAG_LEN"
  using assms
  by (auto simp: frame_dec_def frame_enc_def frame_seal_def aead_tidy_def TAG_LEN_def split: ext.splits)

interpretation frames: frame_codec
  "\<lambda>(L, k, ad). frame_enc L k ad" "\<lambda>(L, k, ad). frame_dec L k ad" frame_lawful
  by unfold_locales (auto simp: frame_lawful_def frame_seal_lawful)

interpretation tidy_frames: tidy_codec
  "\<lambda>(L, k, ad). frame_enc L k ad" "\<lambda>(L, k, ad). frame_dec L k ad" frame_lawful frame_tidy
  by unfold_locales (auto simp: frame_tidy_def frame_enc_tidy)

end
