(* ===== verification/File_Io.thy ===== *)
theory File_Io
  imports Secret
begin

text \<open>
  What the file pipeline uses of Rust's standard library and of the operating system:
  opening and creating files, \<open>BufReader\<close> and \<open>BufWriter\<close> over them, zeroed allocation,
  C strings and UTF-8. The contracts of a byte source (\<open>Read\<close>) and of a byte sink
  (\<open>Write\<close>) are locales, interpreted on the buffered reader and writer.
\<close>

definition io_err :: "io_error \<Rightarrow> PqForgeError" where
  "io_err e = (case e of IoError s \<Rightarrow> EIo s)"

section \<open>Allocation\<close>

text \<open>
  \<open>vec![0u8; n]\<close>: a capacity over \<open>isize::MAX\<close> panics, an allocation the allocator refuses
  aborts the process.
\<close>

definition alloc_zeroed :: "nat \<Rightarrow> world \<Rightarrow> unit outcome" where
  "alloc_zeroed n w =
    (if n > isize_max then Panic (StrPayload ''capacity overflow'')
     else if alloc_ok w n then Done () else Abort)"

section \<open>Paths\<close>

text \<open>Well-formed UTF-8, as \<open>str::from_utf8\<close> decides it.\<close>

definition utf8_cont :: "u8 \<Rightarrow> bool" where
  "utf8_cont b \<longleftrightarrow> 0x80 \<le> b \<and> b \<le> 0xBF"

definition utf8_second3 :: "u8 \<Rightarrow> u8 \<Rightarrow> bool" where
  "utf8_second3 b0 b1 \<longleftrightarrow>
    (if b0 = 0xE0 then 0xA0 \<le> b1 \<and> b1 \<le> 0xBF
     else if b0 = 0xED then 0x80 \<le> b1 \<and> b1 \<le> 0x9F
     else utf8_cont b1)"

definition utf8_second4 :: "u8 \<Rightarrow> u8 \<Rightarrow> bool" where
  "utf8_second4 b0 b1 \<longleftrightarrow>
    (if b0 = 0xF0 then 0x90 \<le> b1 \<and> b1 \<le> 0xBF
     else if b0 = 0xF4 then 0x80 \<le> b1 \<and> b1 \<le> 0x8F
     else utf8_cont b1)"

fun valid_utf8 :: "bytes \<Rightarrow> bool" where
  "valid_utf8 [] \<longleftrightarrow> True"
| "valid_utf8 (b0 # bs) \<longleftrightarrow>
    (if b0 < 0x80 then valid_utf8 bs
     else if 0xC2 \<le> b0 \<and> b0 \<le> 0xDF then
       (case bs of b1 # r \<Rightarrow> utf8_cont b1 \<and> valid_utf8 r | _ \<Rightarrow> False)
     else if 0xE0 \<le> b0 \<and> b0 \<le> 0xEF then
       (case bs of b1 # b2 # r \<Rightarrow> utf8_second3 b0 b1 \<and> utf8_cont b2 \<and> valid_utf8 r | _ \<Rightarrow> False)
     else if 0xF0 \<le> b0 \<and> b0 \<le> 0xF4 then
       (case bs of b1 # b2 # b3 # r \<Rightarrow>
          utf8_second4 b0 b1 \<and> utf8_cont b2 \<and> utf8_cont b3 \<and> valid_utf8 r
        | _ \<Rightarrow> False)
     else False)"

text \<open>
  \<open>CStr::from_ptr\<close>: the bytes before the first NUL; leaving mapped memory before one is
  found is undefined.
\<close>

function c_string :: "heap \<Rightarrow> addr \<Rightarrow> bytes option" where
  "c_string m p =
    (if p \<ge> 2 ^ 64 then None
     else case m p of
       None \<Rightarrow> None
     | Some b \<Rightarrow> if b = 0 then Some [] else map_option ((#) b) (c_string m (Suc p)))"
  by pat_completeness auto
termination
  by (relation "measure (\<lambda>(m, p). 2 ^ 64 - p)") auto

declare c_string.simps [simp del]

definition cstr_path :: "addr \<Rightarrow> (world, bytes PqResult) comp" where
  "cstr_path ptr = (\<lambda>w. case c_string (mem w) ptr of
       None \<Rightarrow> (Undefined, w)
     | Some s \<Rightarrow>
       if valid_utf8 s then (Done (Inr s), w)
       else (Done (Inl (EIo ''path is not valid UTF-8'')), w))"

lemma cstr_path_run [run_simps]:
  "c_string (mem w) ptr = Some s \<Longrightarrow> valid_utf8 s \<Longrightarrow> cstr_path ptr w = (Done (Inr s), w)"
  by (simp add: cstr_path_def)

section \<open>Files\<close>

definition file_open :: "bytes \<Rightarrow> (world, nat PqResult) comp" where
  "file_open path = (\<lambda>w. case open_err w path of
       Some e \<Rightarrow> (Done (Inl (io_err e)), w)
     | None \<Rightarrow> (case names w path of
         None \<Rightarrow> (Done (Inl (io_err (IoError ''No such file or directory (os error 2)''))), w)
       | Some ino \<Rightarrow> (Done (Inr ino), w)))"

text \<open>\<open>File::create\<close> truncates an existing file.\<close>

definition file_create :: "bytes \<Rightarrow> (world, nat PqResult) comp" where
  "file_create path = (\<lambda>w. case create_err w path of
       Some e \<Rightarrow> (Done (Inl (io_err e)), w)
     | None \<Rightarrow> (case names w path of
         Some ino \<Rightarrow> (Done (Inr ino), w\<lparr>inodes := (inodes w)(ino := [])\<rparr>)
       | None \<Rightarrow> (let ino = next_ino w in
           (Done (Inr ino),
            w\<lparr>names := (names w)(path \<mapsto> ino), inodes := (inodes w)(ino := []),
              next_ino := Suc ino\<rparr>))))"

text \<open>One \<open>read(2)\<close> at an offset; the environment may make it short or let it fail.\<close>

definition file_read :: "nat \<Rightarrow> nat \<Rightarrow> nat \<Rightarrow> world \<Rightarrow> (io_error + bytes) \<times> world" where
  "file_read ino pos n w =
    (let rest = drop pos (inodes w ino) in
     case read_plan w of
       [] \<Rightarrow> (Inr (take n rest), w)
     | ReadFail e # es \<Rightarrow> (Inl e, w\<lparr>read_plan := es\<rparr>)
     | ReadShort k # es \<Rightarrow> (Inr (take (min n (Suc k)) rest), w\<lparr>read_plan := es\<rparr>))"

text \<open>\<open>write_all\<close> on a file: what the full disk does not take is lost, with an error.\<close>

definition disk_append :: "nat \<Rightarrow> bytes \<Rightarrow> world \<Rightarrow> (io_error + unit) \<times> world" where
  "disk_append ino bs w =
    (let k = min (length bs) (disk_room w);
         w' = w\<lparr>inodes := (inodes w)(ino := inodes w ino @ take k bs), disk_room := disk_room w - k\<rparr>
     in if length bs \<le> disk_room w then (Inr (), w')
        else (Inl (IoError ''No space left on device (os error 28)''), w'))"

section \<open>Buffered reader and writer\<close>

definition IO_BUF :: nat where
  "IO_BUF = 65536"

record buf_reader =
  br_ino :: nat
  br_pos :: nat    \<comment> \<open>file offset of the next \<open>read(2)\<close>\<close>
  br_buf :: bytes  \<comment> \<open>buffered, not yet handed out\<close>

record buf_writer =
  bw_ino :: nat
  bw_buf :: bytes  \<comment> \<open>accepted, not yet written\<close>

text \<open>
  \<open>BufReader::read\<close>: a request of at least the capacity bypasses an empty buffer; else an
  empty buffer is filled first and the request is served from it.
\<close>

definition br_read :: "buf_reader \<times> world \<Rightarrow> nat \<Rightarrow> (io_error + bytes) \<times> (buf_reader \<times> world)" where
  "br_read = (\<lambda>(r, w) n.
    (if br_buf r \<noteq> [] then
       (Inr (take n (br_buf r)), (r\<lparr>br_buf := drop n (br_buf r)\<rparr>, w))
     else case file_read (br_ino r) (br_pos r) (max n IO_BUF) w of
       (Inl e, w') \<Rightarrow> (Inl e, (r, w'))
     | (Inr bs, w') \<Rightarrow>
       (Inr (take n bs), (r\<lparr>br_pos := br_pos r + length bs, br_buf := drop n bs\<rparr>, w'))))"

definition bw_flush_buf :: "buf_writer \<times> world \<Rightarrow> (io_error + unit) \<times> (buf_writer \<times> world)" where
  "bw_flush_buf = (\<lambda>(b, w).
    (case disk_append (bw_ino b) (bw_buf b) w of
       (r, w') \<Rightarrow> (r, (b\<lparr>bw_buf := drop (disk_room w) (bw_buf b)\<rparr>, w'))))"

text \<open>\<open>BufWriter::write_all\<close> with its cold path, and \<open>flush\<close>.\<close>

definition bw_write_all :: "bytes \<Rightarrow> buf_writer \<times> world \<Rightarrow> (io_error + unit) \<times> (buf_writer \<times> world)" where
  "bw_write_all bs = (\<lambda>(b, w).
    (if length bs < IO_BUF - length (bw_buf b) then (Inr (), (b\<lparr>bw_buf := bw_buf b @ bs\<rparr>, w))
     else
       case (if length bs > IO_BUF - length (bw_buf b) then bw_flush_buf (b, w) else (Inr (), (b, w))) of
         (Inl e, bw) \<Rightarrow> (Inl e, bw)
       | (Inr _, (b', w')) \<Rightarrow>
         if length bs \<ge> IO_BUF then
           (case disk_append (bw_ino b') bs w' of (r, w'') \<Rightarrow> (r, (b', w'')))
         else (Inr (), (b'\<lparr>bw_buf := bw_buf b' @ bs\<rparr>, w'))))"

definition bw_flush :: "buf_writer \<times> world \<Rightarrow> (io_error + unit) \<times> (buf_writer \<times> world)" where
  "bw_flush = bw_flush_buf"

text \<open>\<open>Drop for BufWriter\<close> flushes what is left and ignores the result.\<close>

definition bw_drop :: "buf_writer \<times> world \<Rightarrow> world" where
  "bw_drop bw = snd (snd (bw_flush_buf bw))"

section \<open>The contract of a byte source\<close>

text \<open>
  \<open>remaining\<close> is what the source will still hand out, \<open>ok\<close> that no failure is ahead. The
  law is that of \<open>Read::read\<close>: a prefix of what remains, empty only at the end.
\<close>

locale byte_source =
  fixes read :: "'r \<Rightarrow> nat \<Rightarrow> (io_error + bytes) \<times> 'r"
    and remaining :: "'r \<Rightarrow> bytes"
    and ok :: "'r \<Rightarrow> bool"
    and same :: "'r \<Rightarrow> 'r \<Rightarrow> bool"
  assumes same_refl: "same r r"
    and same_trans: "same r r' \<Longrightarrow> same r' r'' \<Longrightarrow> same r r''"
    and read_same: "same r (snd (read r n))"
    and read_law: "ok r \<Longrightarrow> 0 < n \<Longrightarrow>
      \<exists>bs r'. read r n = (Inr bs, r') \<and> ok r' \<and> remaining r = bs @ remaining r' \<and>
        length bs \<le> n \<and> (bs = [] \<longrightarrow> remaining r = [])"

text \<open>
  The loop of \<open>read_block\<close>, generic in the reader as in the source: \<open>got\<close> is the filled
  part of the buffer.
\<close>

function read_fill ::
  "('r \<Rightarrow> nat \<Rightarrow> (io_error + bytes) \<times> 'r) \<Rightarrow> nat \<Rightarrow> bytes \<Rightarrow> 'r \<Rightarrow> bytes PqResult \<times> 'r" where
  "read_fill read sz got r =
    (if length got < sz then
       (case read r (sz - length got) of
          (Inl e, r') \<Rightarrow> (Inl (io_err e), r')
        | (Inr bs, r') \<Rightarrow> if bs = [] then (Inr got, r') else read_fill read sz (got @ bs) r')
     else (Inr got, r))"
  by pat_completeness auto
termination
  by (relation "measure (\<lambda>(read, sz, got, r). sz - length got)")
     (auto simp: length_greater_0_conv [symmetric] simp del: length_greater_0_conv)

declare read_fill.simps [simp del]

context byte_source
begin

lemma read_fill_law:
  "ok r \<Longrightarrow> length got \<le> sz \<Longrightarrow>
     \<exists>r'. read_fill read sz got r = (Inr (got @ take (sz - length got) (remaining r)), r')
        \<and> ok r' \<and> remaining r' = drop (sz - length got) (remaining r)"
proof (induction "sz - length got" arbitrary: got r rule: less_induct)
  case less
  show ?case
  proof (cases "length got < sz")
    case False
    with less.prems show ?thesis by (auto simp: read_fill.simps)
  next
    case True
    then obtain bs r1 where r1: "read r (sz - length got) = (Inr bs, r1)" "ok r1"
      "remaining r = bs @ remaining r1" "length bs \<le> sz - length got" "bs = [] \<longrightarrow> remaining r = []"
      using read_law [OF less.prems(1), of "sz - length got"] by auto
    show ?thesis
    proof (cases "bs = []")
      case True
      with r1 \<open>length got < sz\<close> show ?thesis
        by (intro exI [of _ r1]) (auto simp: read_fill.simps [of read sz got])
    next
      case False
      then have "sz - length (got @ bs) < sz - length got" and "length (got @ bs) \<le> sz"
        using True r1(4) by (auto simp: length_greater_0_conv [symmetric] simp del: length_greater_0_conv)
      from less.hyps [OF this(1) r1(2) this(2)] obtain r' where
        "read_fill read sz (got @ bs) r1 =
           (Inr ((got @ bs) @ take (sz - length (got @ bs)) (remaining r1)), r')"
        "ok r'" "remaining r' = drop (sz - length (got @ bs)) (remaining r1)" by blast
      with True False r1 show ?thesis
        by (intro exI [of _ r']) (simp add: read_fill.simps [of read sz got])
    qed
  qed
qed

lemma read_fill_same: "same r (snd (read_fill read sz got r))"
proof (induction "sz - length got" arbitrary: got r rule: less_induct)
  case less
  have 1: "same r r'" if "read r (sz - length got) = (x, r')" for x r'
    using read_same [of r "sz - length got"] that by simp
  show ?case
  proof (cases "length got < sz")
    case False
    then show ?thesis by (simp add: read_fill.simps [of read sz got] same_refl)
  next
    case True
    show ?thesis
    proof (cases "read r (sz - length got)")
      case (Pair x r')
      then show ?thesis
      proof (cases x)
        case (Inr bs)
        show ?thesis
        proof (cases "bs = []")
          case False
          then have "sz - length (got @ bs) < sz - length got" using True by (cases bs) auto
          from less [OF this, of r'] 1 [OF Pair] have "same r (snd (read_fill read sz (got @ bs) r'))"
            by (rule same_trans [rotated])
          then show ?thesis using True Pair Inr False by (simp add: read_fill.simps [of read sz got])
        qed (use True Pair Inr 1 in \<open>simp add: read_fill.simps [of read sz got]\<close>)
      qed (use True Pair 1 in \<open>simp add: read_fill.simps [of read sz got]\<close>)
    qed
  qed
qed

end

section \<open>The buffered file reader is a byte source\<close>

definition br_remaining :: "buf_reader \<times> world \<Rightarrow> bytes" where
  "br_remaining = (\<lambda>(r, w). br_buf r @ drop (br_pos r) (inodes w (br_ino r)))"

definition br_ok :: "buf_reader \<times> world \<Rightarrow> bool" where
  "br_ok = (\<lambda>(r, w). list_all (\<lambda>e. case e of ReadFail _ \<Rightarrow> False | ReadShort _ \<Rightarrow> True) (read_plan w))"

definition br_same :: "buf_reader \<times> world \<Rightarrow> buf_reader \<times> world \<Rightarrow> bool" where
  "br_same = (\<lambda>(r, w) (r', w'). br_ino r' = br_ino r \<and> w\<lparr>read_plan := []\<rparr> = w'\<lparr>read_plan := []\<rparr>)"

lemma file_read_world: "snd (file_read ino pos n w) = w\<lparr>read_plan := tl (read_plan w)\<rparr>"
  by (auto simp: file_read_def Let_def split: list.splits read_event.splits)

lemma file_read_ok:
  assumes "list_all (\<lambda>e. case e of ReadFail _ \<Rightarrow> False | ReadShort _ \<Rightarrow> True) (read_plan w)" "0 < n"
  obtains k where "0 < k" "k \<le> n"
    and "file_read ino pos n w = (Inr (take k (drop pos (inodes w ino))), w\<lparr>read_plan := tl (read_plan w)\<rparr>)"
proof (cases "read_plan w")
  case Nil
  then show ?thesis using that [of n] assms by (simp add: file_read_def)
next
  case (Cons e es)
  then show ?thesis using that [of "min n (Suc (case e of ReadShort k \<Rightarrow> k))"] assms
    by (cases e) (simp_all add: file_read_def)
qed

interpretation buf_source: byte_source br_read br_remaining br_ok br_same
proof
  fix x :: "buf_reader \<times> world" and n :: nat
  obtain r w where x: "x = (r, w)" by force
  have w: "file_read (br_ino r) (br_pos r) (max n IO_BUF) w = (y, w') \<Longrightarrow>
      w' = w\<lparr>read_plan := tl (read_plan w)\<rparr>" for y w'
    using file_read_world [of "br_ino r" "br_pos r" "max n IO_BUF" w] by simp
  show "br_same x (snd (br_read x n))"
    using w by (auto simp: x br_read_def br_same_def split: prod.splits sum.splits)
  assume ok: "br_ok x" and n: "0 < n"
  show "\<exists>bs r'. br_read x n = (Inr bs, r') \<and> br_ok r' \<and> br_remaining x = bs @ br_remaining r' \<and>
      length bs \<le> n \<and> (bs = [] \<longrightarrow> br_remaining x = [])"
  proof (cases "br_buf r = []")
    case False
    with n ok show ?thesis by (simp add: x br_read_def br_remaining_def br_ok_def)
  next
    case True
    from ok have pl: "list_all (\<lambda>e. case e of ReadFail _ \<Rightarrow> False | ReadShort _ \<Rightarrow> True) (read_plan w)"
      by (simp add: x br_ok_def)
    have "0 < max n IO_BUF" using n by simp
    from pl this obtain k where k: "0 < k" and
      f: "file_read (br_ino r) (br_pos r) (max n IO_BUF) w =
        (Inr (take k (drop (br_pos r) (inodes w (br_ino r)))), w\<lparr>read_plan := tl (read_plan w)\<rparr>)"
      by (rule file_read_ok)
    let ?rest = "drop (br_pos r) (inodes w (br_ino r))"
    have "list_all (\<lambda>e. case e of ReadFail _ \<Rightarrow> False | ReadShort _ \<Rightarrow> True) (tl (read_plan w))"
      using pl by (cases "read_plan w") auto
    moreover have pos: "drop (br_pos r + length (take k ?rest)) (inodes w (br_ino r)) = drop k ?rest"
      by (cases "k \<le> length ?rest") (auto simp: add.commute)
    moreover have "?rest = take n (take k ?rest) @ drop n (take k ?rest) @ drop k ?rest"
      by (metis append_assoc append_take_drop_id)
    ultimately show ?thesis
      using True n k f by (simp add: x br_read_def br_remaining_def br_ok_def del: take_take drop_drop)
  qed
qed (auto simp: br_same_def)

section \<open>The contract of a byte sink\<close>

text \<open>
  \<open>accepted\<close> is everything the sink has taken, \<open>stored\<close> the part that has reached the
  file, \<open>room\<close> how many bytes more it can take and store.
\<close>

locale byte_sink =
  fixes write_all :: "bytes \<Rightarrow> 'w \<Rightarrow> (io_error + unit) \<times> 'w"
    and flush :: "'w \<Rightarrow> (io_error + unit) \<times> 'w"
    and accepted :: "'w \<Rightarrow> bytes"
    and stored :: "'w \<Rightarrow> bytes"
    and room :: "'w \<Rightarrow> nat"
    and ready :: "'w \<Rightarrow> bool"
  assumes write_law: "ready s \<Longrightarrow> length bs \<le> room s \<Longrightarrow>
      \<exists>s'. write_all bs s = (Inr (), s') \<and> ready s' \<and> accepted s' = accepted s @ bs
        \<and> room s' = room s - length bs"
    and flush_law: "ready s \<Longrightarrow>
      \<exists>s'. flush s = (Inr (), s') \<and> ready s' \<and> stored s' = accepted s \<and> accepted s' = accepted s
        \<and> room s' = room s"
begin

fun write_each :: "bytes list \<Rightarrow> 'w \<Rightarrow> (io_error + unit) \<times> 'w" where
  "write_each [] s = flush s"
| "write_each (b # bs) s = (case write_all b s of
     (Inr _, s') \<Rightarrow> write_each bs s'
   | (Inl e, s') \<Rightarrow> (Inl e, s'))"

text \<open>A whole run of writes closed by a flush stores exactly their concatenation.\<close>

lemma write_each_law:
  "ready s \<Longrightarrow> length (concat bs) \<le> room s \<Longrightarrow>
     \<exists>s'. write_each bs s = (Inr (), s') \<and> stored s' = accepted s @ concat bs"
proof (induction bs arbitrary: s)
  case Nil
  then show ?case using flush_law [of s] by auto
next
  case (Cons b bs)
  from Cons.prems obtain s1 where "write_all b s = (Inr (), s1)" "ready s1"
    "accepted s1 = accepted s @ b" "room s1 = room s - length b"
    using write_law [of s b] by auto
  with Cons.IH [of s1] Cons.prems show ?case by auto
qed

end

definition bw_accepted :: "buf_writer \<times> world \<Rightarrow> bytes" where
  "bw_accepted = (\<lambda>(b, w). inodes w (bw_ino b) @ bw_buf b)"

definition bw_stored :: "buf_writer \<times> world \<Rightarrow> bytes" where
  "bw_stored = (\<lambda>(b, w). inodes w (bw_ino b))"

definition bw_room :: "buf_writer \<times> world \<Rightarrow> nat" where
  "bw_room = (\<lambda>(b, w). disk_room w - length (bw_buf b))"

definition bw_ready :: "buf_writer \<times> world \<Rightarrow> bool" where
  "bw_ready = (\<lambda>(b, w). length (bw_buf b) \<le> disk_room w)"

lemma disk_append_fits:
  "length bs \<le> disk_room w \<Longrightarrow> disk_append ino bs w =
     (Inr (), w\<lparr>inodes := (inodes w)(ino := inodes w ino @ bs), disk_room := disk_room w - length bs\<rparr>)"
  by (simp add: disk_append_def Let_def)

lemma bw_flush_buf_ready:
  "bw_ready (b, w) \<Longrightarrow> bw_flush_buf (b, w) = (Inr (), (b\<lparr>bw_buf := []\<rparr>,
     w\<lparr>inodes := (inodes w)(bw_ino b := inodes w (bw_ino b) @ bw_buf b),
       disk_room := disk_room w - length (bw_buf b)\<rparr>))"
  by (simp add: bw_flush_buf_def bw_ready_def disk_append_fits)

lemmas bw_defs = bw_accepted_def bw_stored_def bw_room_def bw_ready_def

interpretation buf_sink: byte_sink bw_write_all bw_flush bw_accepted bw_stored bw_room bw_ready
proof
  fix s :: "buf_writer \<times> world" and bs :: bytes
  obtain b w where s: "s = (b, w)" by force
  assume rd: "bw_ready s"
  then have fl: "bw_flush_buf (b, w) = (Inr (), (b\<lparr>bw_buf := []\<rparr>,
     w\<lparr>inodes := (inodes w)(bw_ino b := inodes w (bw_ino b) @ bw_buf b),
       disk_room := disk_room w - length (bw_buf b)\<rparr>))"
    unfolding s by (rule bw_flush_buf_ready)
  show "\<exists>s'. bw_flush s = (Inr (), s') \<and> bw_ready s' \<and> bw_stored s' = bw_accepted s \<and>
      bw_accepted s' = bw_accepted s \<and> bw_room s' = bw_room s"
    using fl by (simp add: s bw_flush_def bw_defs)
  assume room: "length bs \<le> bw_room s"
  have full: "IO_BUF \<le> IO_BUF - length (bw_buf b) \<Longrightarrow> bw_buf b = []"
    by (cases "bw_buf b") (auto simp: IO_BUF_def)
  show "\<exists>s'. bw_write_all bs s = (Inr (), s') \<and> bw_ready s' \<and> bw_accepted s' = bw_accepted s @ bs \<and>
      bw_room s' = bw_room s - length bs"
    using rd room fl full
    by (cases "length bs < IO_BUF - length (bw_buf b)"; cases "length bs > IO_BUF - length (bw_buf b)";
        cases "length bs \<ge> IO_BUF")
       (auto simp: s bw_write_all_def bw_defs disk_append_fits)
qed

text \<open>
  What the writer does to the world, whether it succeeds or not: the contents of its own
  file and the room on the disk change, nothing else.
\<close>

definition only_file :: "nat \<Rightarrow> world \<Rightarrow> world \<Rightarrow> bool" where
  "only_file ino w w' \<longleftrightarrow>
     (\<exists>c d. w' = w\<lparr>inodes := (inodes w)(ino := c), disk_room := d\<rparr>)"

lemma only_file_refl [simp]: "only_file ino w w"
  unfolding only_file_def by (intro exI [of _ "inodes w ino"] exI [of _ "disk_room w"]) simp

lemma only_file_trans: "only_file ino w w' \<Longrightarrow> only_file ino w' w'' \<Longrightarrow> only_file ino w w''"
proof -
  assume "only_file ino w w'" and "only_file ino w' w''"
  then obtain c d c' d' where "w' = w\<lparr>inodes := (inodes w)(ino := c), disk_room := d\<rparr>"
    and "w'' = w'\<lparr>inodes := (inodes w')(ino := c'), disk_room := d'\<rparr>"
    unfolding only_file_def by blast
  then have "w'' = w\<lparr>inodes := (inodes w)(ino := c'), disk_room := d'\<rparr>" by simp
  then show ?thesis unfolding only_file_def by blast
qed

lemma disk_append_only: "only_file ino w (snd (disk_append ino bs w))"
  unfolding only_file_def disk_append_def Let_def by auto

lemma bw_flush_buf_only:
  "bw_flush_buf (b, w) = (r, (b', w')) \<Longrightarrow> bw_ino b' = bw_ino b \<and> only_file (bw_ino b) w w'"
  using disk_append_only [of "bw_ino b" w "bw_buf b"]
  by (auto simp: bw_flush_buf_def split: prod.splits)

lemma bw_write_all_only:
  "bw_write_all bs (b, w) = (r, (b', w')) \<Longrightarrow> bw_ino b' = bw_ino b \<and> only_file (bw_ino b) w w'"
  using disk_append_only [of "bw_ino b" _ bs]
  by (auto simp: bw_write_all_def dest!: bw_flush_buf_only split: if_splits prod.splits sum.splits
      elim!: only_file_trans) (metis only_file_trans snd_conv)+

lemma bw_drop_only: "only_file (bw_ino b) w (bw_drop (b, w))"
  using bw_flush_buf_only [of b w] by (cases "bw_flush_buf (b, w)") (auto simp: bw_drop_def)

end
