(* ===== verification/Stream_File.thy ===== *)
theory Stream_File
  imports Frames File_Io
begin

text \<open>
  \<open>crypto/stream_file.rs\<close>: sealing and opening a file as a STREAM of frames. The two loops
  run on a state of their own, the buffered reader, the buffered writer and the world;
  the refinement lemmas tie them to \<open>stream_seal\<close> and \<open>stream_open\<close> of \<open>Frames\<close>.
\<close>

section \<open>The state of a run\<close>

record io_state =
  io_reader :: buf_reader
  io_writer :: buf_writer
  io_world :: world

type_synonym 'a io = "(io_state, 'a PqResult) comp"

text \<open>\<open>reader.read(..)\<close> and \<open>writer.write_all(..).map_err(io_err)\<close>, \<open>writer.flush()\<close>.\<close>

definition lift_err :: "io_error + 'a \<Rightarrow> 'a PqResult" where
  "lift_err r = (case r of Inl e \<Rightarrow> Inl (io_err e) | Inr x \<Rightarrow> Inr x)"

definition io_write_all :: "bytes \<Rightarrow> unit io" where
  "io_write_all bs = (\<lambda>s. case bw_write_all bs (io_writer s, io_world s) of
       (r, (b, w)) \<Rightarrow> (Done (lift_err r), s\<lparr>io_writer := b, io_world := w\<rparr>))"

definition io_flush :: "unit io" where
  "io_flush = (\<lambda>s. case bw_flush (io_writer s, io_world s) of
       (r, (b, w)) \<Rightarrow> (Done (lift_err r), s\<lparr>io_writer := b, io_world := w\<rparr>))"

definition io_alloc_zeroed :: "nat \<Rightarrow> (io_state, unit) comp" where
  "io_alloc_zeroed n = (\<lambda>s. (alloc_zeroed n (io_world s), s))"

definition io_read_fill :: "nat \<Rightarrow> bytes io" where
  "io_read_fill n = (\<lambda>s. case read_fill br_read n [] (io_reader s, io_world s) of
       (r, (rd, w)) \<Rightarrow> (Done r, s\<lparr>io_reader := rd, io_world := w\<rparr>))"

definition io_zeroizing :: "bytes \<Rightarrow> (bytes \<Rightarrow> 'a io) \<Rightarrow> 'a io" where
  "io_zeroizing bs body =
     scope_drop (body bs) (\<lambda>s. s\<lparr>io_world := zeroizing_drop bs (io_world s)\<rparr>)"

section \<open>Reading a block, writing a frame\<close>

definition read_block :: "nat \<Rightarrow> bytes option io" where
  "read_block sz =
    bind_comp (io_alloc_zeroed sz) (\<lambda>_.
    try_comp (io_read_fill sz) (\<lambda>got.
    ret (Inr (if got = [] then None else Some got))))"

definition seal_frame :: "'k aead_lib \<Rightarrow> 'k \<Rightarrow> bytes \<Rightarrow> u64 \<Rightarrow> bool \<Rightarrow> bytes \<Rightarrow> unit io" where
  "seal_frame L key chunk counter is_last aad =
    ext_case (nonce_new L (stream_nonce counter is_last)) (fails (EInternal ''nonce'')) (\<lambda>nonce.
    ext_case (seal_append_tag L key nonce aad chunk) (fails (EInternal ''AEAD seal failed'')) (\<lambda>buf.
    io_write_all buf))"

definition open_frame :: "'k aead_lib \<Rightarrow> 'k \<Rightarrow> bytes \<Rightarrow> u64 \<Rightarrow> bool \<Rightarrow> bytes \<Rightarrow> unit io" where
  "open_frame L key frame counter is_last aad =
    ext_case (nonce_new L (stream_nonce counter is_last)) (fails (EInternal ''nonce'')) (\<lambda>nonce.
    io_zeroizing frame (\<lambda>buf.
    ext_case (open_in_place L key nonce aad buf) (fails EAuthFailed) (\<lambda>plaintext.
    io_write_all plaintext)))"

definition read_aad :: "addr \<Rightarrow> usize \<Rightarrow> (world, bytes) comp" where
  "read_aad aad aad_len =
    (if aad_len = 0 \<or> is_null aad then ret [] else from_raw_parts aad aad_len)"

section \<open>The loops\<close>

lemma try_cong [fundef_cong]:
  assumes "m s = m' s" and "s = s'"
    and "\<And>x t. m' s' = (Done (Inr x), t) \<Longrightarrow> k x t = k' x t"
  shows "try_comp m k s = try_comp m' k' s'"
  unfolding try_comp_def using assms by (intro bind_cong) (auto split: sum.splits)

definition counter_left :: "u64 \<Rightarrow> nat" where
  "counter_left c = 2 ^ 64 - unat c"

lemma next_counter_decreases: "next_counter c = Inr c' \<Longrightarrow> counter_left c' < counter_left c"
proof -
  assume "next_counter c = Inr c'"
  then have "unat c' = unat c + 1" by (simp add: next_counter_Inr)
  moreover have "unat c' < 2 ^ 64" using unsigned_less [of c'] by simp
  ultimately show ?thesis by (simp add: counter_left_def)
qed

definition expect :: "string \<Rightarrow> 'a option \<Rightarrow> ('s, 'a PqResult) comp" where
  "expect msg x = (\<lambda>s. case x of None \<Rightarrow> (Panic (StrPayload msg), s) | Some y \<Rightarrow> (Done (Inr y), s))"

text \<open>
  The loop of \<open>pqforge_stream_seal_file\<close>; it ends by \<open>break\<close> or by an error. The counter
  bounds it: \<open>next_counter\<close> fails before the counter repeats.
\<close>

function seal_loop ::
  "'k aead_lib \<Rightarrow> 'k \<Rightarrow> nat \<Rightarrow> bytes \<Rightarrow> u64 \<Rightarrow> bytes option \<Rightarrow> io_state
    \<Rightarrow> unit PqResult outcome \<times> io_state" where
  "seal_loop L key chunk_size ad counter held s =
    try_comp (expect ''held is Some in this branch'' held) (\<lambda>chunk.
    try_comp (read_block chunk_size) (\<lambda>next.
    try_comp (seal_frame L key chunk counter (next = None) ad) (\<lambda>_.
    try_comp (ret (next_counter counter)) (\<lambda>counter' t.
    if next = None then ret (Inr ()) t
    else seal_loop L key chunk_size ad counter' next t)))) s"
  by pat_completeness auto
termination
  by (relation "measure (\<lambda>(L, key, chunk_size, ad, counter, held, s). counter_left counter)")
     (auto dest: next_counter_decreases)

text \<open>
  The loop of \<open>pqforge_stream_open_file\<close>: \<open>Some st\<close> is \<open>return Ok(st)\<close>, \<open>None\<close> is \<open>break\<close>.
\<close>

definition auth_to_status :: "'a PqResult \<Rightarrow> PqForgeStatus option PqResult" where
  "auth_to_status r = (case r of
       Inr _ \<Rightarrow> Inr None
     | Inl EAuthFailed \<Rightarrow> Inr (Some AuthFailed)
     | Inl e \<Rightarrow> Inl e)"

function open_loop ::
  "'k aead_lib \<Rightarrow> 'k \<Rightarrow> nat \<Rightarrow> bytes \<Rightarrow> u64 \<Rightarrow> bytes option \<Rightarrow> io_state
    \<Rightarrow> PqForgeStatus option PqResult outcome \<times> io_state" where
  "open_loop L key cipher_chunk ad counter held s =
    try_comp (expect ''held is Some in this loop'' held) (\<lambda>frame t.
    if length frame < TAG_LEN then ret (Inr (Some InvalidCiphertext)) t
    else
      try_comp (read_block cipher_chunk) (\<lambda>next.
      try_comp (bind_comp (open_frame L key frame counter
          (length frame < cipher_chunk \<or> next = None) ad) (\<lambda>r. ret (auth_to_status r))) (\<lambda>early t.
      if early \<noteq> None then ret (Inr early) t
      else
        try_comp (ret (next_counter counter)) (\<lambda>counter' t.
        if length frame < cipher_chunk \<or> next = None then
          (if next \<noteq> None then ret (Inr (Some InvalidCiphertext)) t else ret (Inr None) t)
        else open_loop L key cipher_chunk ad counter' next t) t)) t) s"
  by pat_completeness auto
termination
  by (relation "measure (\<lambda>(L, key, cipher_chunk, ad, counter, held, s). counter_left counter)")
     (auto dest: next_counter_decreases)

declare seal_loop.simps [simp del] open_loop.simps [simp del]

section \<open>Entry points\<close>

text \<open>
  The scope of the two files: the reader starts at offset 0; the writer's buffer is
  flushed, and a failure ignored, when the scope is left.
\<close>

definition fresh_io :: "nat \<Rightarrow> nat \<Rightarrow> world \<Rightarrow> io_state" where
  "fresh_io ino out_ino w =
    \<lparr>io_reader = \<lparr>br_ino = ino, br_pos = 0, br_buf = []\<rparr>,
     io_writer = \<lparr>bw_ino = out_ino, bw_buf = []\<rparr>, io_world = w\<rparr>"

definition close_io :: "io_state \<Rightarrow> io_state" where
  "close_io s = s\<lparr>io_world := bw_drop (io_writer s, io_world s)\<rparr>"

definition with_files :: "bytes \<Rightarrow> bytes \<Rightarrow> 'a io \<Rightarrow> (world, 'a PqResult) comp" where
  "with_files in_path out_path body =
    try_comp (file_open in_path) (\<lambda>ino.
    try_comp (file_create out_path) (\<lambda>out_ino.
    (\<lambda>w. case scope_drop body close_io (fresh_io ino out_ino w) of (r, s) \<Rightarrow> (r, io_world s))))"

definition seal_frames :: "'k aead_lib \<Rightarrow> 'k \<Rightarrow> nat \<Rightarrow> bytes \<Rightarrow> PqForgeStatus io" where
  "seal_frames L sealing chunk_size ad =
    try_comp (read_block chunk_size) (\<lambda>held.
    try_comp (if held = None then seal_frame L sealing [] 0 True ad
              else seal_loop L sealing chunk_size ad 0 held) (\<lambda>_.
    try_comp io_flush (\<lambda>_.
    returns Ok)))"

definition open_frames :: "'k aead_lib \<Rightarrow> 'k \<Rightarrow> nat \<Rightarrow> bytes \<Rightarrow> PqForgeStatus io" where
  "open_frames L opening cipher_chunk ad =
    try_comp (read_block cipher_chunk) (\<lambda>held.
    if held = None then returns InvalidCiphertext
    else
      try_comp (open_loop L opening cipher_chunk ad 0 held) (\<lambda>early. case early of
          Some st \<Rightarrow> returns st
        | None \<Rightarrow> try_comp io_flush (\<lambda>_. returns Ok)))"

definition stream_seal_file_body ::
  "'k aead_lib \<Rightarrow> c_int \<Rightarrow> addr \<Rightarrow> usize \<Rightarrow> addr \<Rightarrow> usize \<Rightarrow> usize \<Rightarrow> addr \<Rightarrow> addr \<Rightarrow> closure" where
  "stream_seal_file_body L alg_id key key_len aad aad_len chunk_size in_path out_path =
    (case stream_aead_alg alg_id of
       None \<Rightarrow> returns InvalidKey
     | Some algorithm \<Rightarrow>
       if is_null key \<or> is_null in_path \<or> is_null out_path \<or> (is_null aad \<and> aad_len \<noteq> 0)
       then returns NullArgument
       else if chunk_size = 0 then returns Unaligned
       else
         bind_comp (from_raw_parts key key_len) (\<lambda>key_slice.
         with_pinned key_slice (\<lambda>secret.
         bind_comp (read_aad aad aad_len) (\<lambda>ad.
         try_comp (cstr_path in_path) (\<lambda>in_path.
         try_comp (cstr_path out_path) (\<lambda>out_path.
         ext_case (unbound_key_new L algorithm (pinned_as_slice secret)) (returns InvalidKey) (\<lambda>sealing.
         with_files in_path out_path (seal_frames L sealing (unat chunk_size) ad))))))))"

definition pqforge_stream_seal_file ::
  "'k aead_lib \<Rightarrow> c_int \<Rightarrow> addr \<Rightarrow> usize \<Rightarrow> addr \<Rightarrow> usize \<Rightarrow> usize \<Rightarrow> addr \<Rightarrow> addr \<Rightarrow> (world, c_int) comp" where
  "pqforge_stream_seal_file L alg_id key key_len aad aad_len chunk_size in_path out_path =
    boundary (stream_seal_file_body L alg_id key key_len aad aad_len chunk_size in_path out_path)"

text \<open>\<open>chunk_size + TAG_LEN\<close> wraps: the release profile has no overflow checks.\<close>

definition stream_open_file_body ::
  "'k aead_lib \<Rightarrow> c_int \<Rightarrow> addr \<Rightarrow> usize \<Rightarrow> addr \<Rightarrow> usize \<Rightarrow> usize \<Rightarrow> addr \<Rightarrow> addr \<Rightarrow> closure" where
  "stream_open_file_body L alg_id key key_len aad aad_len chunk_size in_path out_path =
    (case stream_aead_alg alg_id of
       None \<Rightarrow> returns InvalidKey
     | Some algorithm \<Rightarrow>
       if is_null key \<or> is_null in_path \<or> is_null out_path \<or> (is_null aad \<and> aad_len \<noteq> 0)
       then returns NullArgument
       else if chunk_size = 0 then returns Unaligned
       else
         bind_comp (from_raw_parts key key_len) (\<lambda>key_slice.
         with_pinned key_slice (\<lambda>secret.
         bind_comp (read_aad aad aad_len) (\<lambda>ad.
         try_comp (cstr_path in_path) (\<lambda>in_path.
         try_comp (cstr_path out_path) (\<lambda>out_path.
         ext_case (unbound_key_new L algorithm (pinned_as_slice secret)) (returns InvalidKey) (\<lambda>opening.
         with_files in_path out_path
           (open_frames L opening (unat (chunk_size + of_nat TAG_LEN)) ad))))))))"

definition pqforge_stream_open_file ::
  "'k aead_lib \<Rightarrow> c_int \<Rightarrow> addr \<Rightarrow> usize \<Rightarrow> addr \<Rightarrow> usize \<Rightarrow> usize \<Rightarrow> addr \<Rightarrow> addr \<Rightarrow> (world, c_int) comp" where
  "pqforge_stream_open_file L alg_id key key_len aad aad_len chunk_size in_path out_path =
    boundary (stream_open_file_body L alg_id key key_len aad aad_len chunk_size in_path out_path)"

section \<open>What a run leaves alone\<close>

text \<open>
  However a run ends, it changes the contents of the output file, the room on the disk,
  the pending read events and the record of freed secret buffers, every one of which
  went through \<open>zeroize\<close>.
\<close>

definition world_keep :: "nat \<Rightarrow> world \<Rightarrow> world \<Rightarrow> bool" where
  "world_keep ino w w' \<longleftrightarrow>
     w' = w\<lparr>inodes := inodes w', disk_room := disk_room w', read_plan := read_plan w',
            released := released w'\<rparr> \<and>
     (\<forall>i. i \<noteq> ino \<longrightarrow> inodes w' i = inodes w i) \<and>
     (\<exists>rs. released w' = released w @ rs \<and> (\<forall>r\<in>set rs. \<exists>bs. r = fst (vec_zeroize w bs)))"

definition io_keep :: "io_state \<Rightarrow> io_state \<Rightarrow> bool" where
  "io_keep s s' \<longleftrightarrow>
     bw_ino (io_writer s') = bw_ino (io_writer s) \<and> br_ino (io_reader s') = br_ino (io_reader s) \<and>
     world_keep (bw_ino (io_writer s)) (io_world s) (io_world s')"

definition keeps :: "(io_state, 'a) comp \<Rightarrow> io_state \<Rightarrow> bool" where
  "keeps m s \<longleftrightarrow> io_keep s (snd (m s))"

lemma world_keep_refl [simp]: "world_keep ino w w"
  by (simp add: world_keep_def)

lemma world_keep_fields:
  assumes "world_keep ino w w'"
  shows "mem w' = mem w" "hook w' = hook w" "rng w' = rng w" "panic_log w' = panic_log w"
    "locked_bytes w' = locked_bytes w" "mlock_rc w' = mlock_rc w" "vec_zeroize w' = vec_zeroize w"
    "alloc_ok w' = alloc_ok w" "names w' = names w" "next_ino w' = next_ino w"
    "open_err w' = open_err w" "create_err w' = create_err w"
proof -
  obtain a b c d where "w' = w\<lparr>inodes := a, disk_room := b, read_plan := c, released := d\<rparr>"
    using assms unfolding world_keep_def by blast
  then show "mem w' = mem w" "hook w' = hook w" "rng w' = rng w" "panic_log w' = panic_log w"
    "locked_bytes w' = locked_bytes w" "mlock_rc w' = mlock_rc w" "vec_zeroize w' = vec_zeroize w"
    "alloc_ok w' = alloc_ok w" "names w' = names w" "next_ino w' = next_ino w"
    "open_err w' = open_err w" "create_err w' = create_err w"
    by simp_all
qed

lemma world_keep_trans:
  assumes "world_keep ino w w'" and "world_keep ino w' w''"
  shows "world_keep ino w w''"
proof -
  note f = world_keep_fields [OF assms(1)] world_keep_fields [OF assms(2)]
  obtain rs rs' where r: "released w' = released w @ rs" "released w'' = released w' @ rs'"
    "\<forall>r\<in>set rs. \<exists>bs. r = fst (vec_zeroize w bs)" "\<forall>r\<in>set rs'. \<exists>bs. r = fst (vec_zeroize w bs)"
    using assms f by (auto simp: world_keep_def)
  have "\<exists>rs. released w'' = released w @ rs \<and> (\<forall>r\<in>set rs. \<exists>bs. r = fst (vec_zeroize w bs))"
    by (rule exI [of _ "rs @ rs'"]) (use r in auto)
  moreover have "\<forall>i. i \<noteq> ino \<longrightarrow> inodes w'' i = inodes w i"
    using assms by (simp add: world_keep_def)
  moreover have "w'' = w\<lparr>inodes := inodes w'', disk_room := disk_room w'', read_plan := read_plan w'',
            released := released w''\<rparr>"
    using f by (intro world.equality) simp_all
  ultimately show ?thesis by (simp add: world_keep_def)
qed

lemma world_keep_only_file: "only_file ino w w' \<Longrightarrow> world_keep ino w w'"
  by (auto simp: only_file_def world_keep_def)

lemma world_keep_same: "w\<lparr>read_plan := []\<rparr> = w'\<lparr>read_plan := []\<rparr> \<Longrightarrow> world_keep ino w w'"
proof -
  assume eq: "w\<lparr>read_plan := []\<rparr> = w'\<lparr>read_plan := []\<rparr>"
  have "w' = w\<lparr>read_plan := []\<rparr>\<lparr>read_plan := read_plan w'\<rparr>" unfolding eq by simp
  then obtain p where "w' = w\<lparr>read_plan := p\<rparr>" by auto
  then show ?thesis by (auto simp: world_keep_def)
qed

lemma world_keep_zeroizing: "world_keep ino w (zeroizing_drop bs w)"
  by (auto simp: world_keep_def zeroizing_drop_def)

lemma io_keep_refl [simp]: "io_keep s s"
  by (simp add: io_keep_def)

lemma io_keep_trans: "io_keep s s' \<Longrightarrow> io_keep s' s'' \<Longrightarrow> io_keep s s''"
  by (auto simp: io_keep_def intro: world_keep_trans)

named_theorems keeps_intros \<open>composition of \<open>keeps\<close>\<close>

lemma keeps_ret [keeps_intros]: "keeps (ret x) s"
  by (simp add: keeps_def)

lemma keeps_bind [keeps_intros]:
  "keeps m s \<Longrightarrow> (\<And>x s'. m s = (Done x, s') \<Longrightarrow> keeps (k x) s') \<Longrightarrow> keeps (bind_comp m k) s"
  by (auto simp: keeps_def bind_comp_def split: prod.splits outcome.splits)
     (metis io_keep_trans snd_conv)

lemma keeps_try [keeps_intros]:
  "keeps m s \<Longrightarrow> (\<And>x s'. m s = (Done (Inr x), s') \<Longrightarrow> keeps (k x) s') \<Longrightarrow> keeps (try_comp m k) s"
  unfolding try_comp_def by (rule keeps_bind) (auto simp: fails_def intro: keeps_ret split: sum.splits)

lemma keeps_returns [keeps_intros]: "keeps (returns x) s" "keeps (fails e) s"
  by (simp_all add: keeps_def)

lemma keeps_ext [keeps_intros]:
  "keeps e s \<Longrightarrow> (\<And>x. r = ExtOk x \<Longrightarrow> keeps (k x) s) \<Longrightarrow> keeps (ext_case r e k) s"
  by (cases r) (simp_all add: keeps_def)

lemma keeps_scope [keeps_intros]:
  "keeps m s \<Longrightarrow> (\<And>s'. io_keep s' (d s')) \<Longrightarrow> keeps (scope_drop m d) s"
  by (auto simp: keeps_def scope_drop_def split: prod.splits outcome.splits intro: io_keep_trans)

lemma keeps_expect [keeps_intros]: "keeps (expect msg x) s"
  by (simp add: keeps_def expect_def split: option.splits)

lemma keeps_alloc [keeps_intros]: "keeps (io_alloc_zeroed n) s"
  by (simp add: keeps_def io_alloc_zeroed_def)

lemma keeps_write_all [keeps_intros]: "keeps (io_write_all bs) s"
  by (auto simp: keeps_def io_write_all_def io_keep_def split: prod.splits
      dest!: bw_write_all_only intro: world_keep_only_file)

lemma keeps_flush [keeps_intros]: "keeps io_flush s"
  by (auto simp: keeps_def io_flush_def bw_flush_def io_keep_def split: prod.splits
      dest!: bw_flush_buf_only intro: world_keep_only_file)

lemma keeps_read_fill [keeps_intros]: "keeps (io_read_fill n) s"
  using buf_source.read_fill_same [of "(io_reader s, io_world s)" n "[]"]
  by (auto simp: keeps_def io_read_fill_def io_keep_def br_same_def split: prod.splits
      intro: world_keep_same)

lemma keeps_zeroizing [keeps_intros]: "keeps (body bs) s \<Longrightarrow> keeps (io_zeroizing bs body) s"
  unfolding io_zeroizing_def
  by (rule keeps_scope) (simp_all add: io_keep_def world_keep_zeroizing)

lemma keeps_read_block [keeps_intros]: "keeps (read_block n) s"
  unfolding read_block_def by (intro keeps_intros)

lemma keeps_seal_frame [keeps_intros]: "keeps (seal_frame L k p c l ad) s"
  unfolding seal_frame_def by (intro keeps_intros)

lemma keeps_open_frame [keeps_intros]: "keeps (open_frame L k f c l ad) s"
  unfolding open_frame_def by (intro keeps_intros)

lemma keeps_if [keeps_intros]:
  "(b \<Longrightarrow> keeps f s) \<Longrightarrow> (\<not> b \<Longrightarrow> keeps g s) \<Longrightarrow> keeps (\<lambda>t. if b then f t else g t) s"
  "(b \<Longrightarrow> keeps f s) \<Longrightarrow> (\<not> b \<Longrightarrow> keeps g s) \<Longrightarrow> keeps (if b then f else g) s"
  by (cases b; simp add: keeps_def)+

lemma keeps_option [keeps_intros]:
  "(x = None \<Longrightarrow> keeps f s) \<Longrightarrow> (\<And>y. x = Some y \<Longrightarrow> keeps (g y) s) \<Longrightarrow>
     keeps (case x of None \<Rightarrow> f | Some y \<Rightarrow> g y) s"
  by (cases x) simp_all

lemma keeps_eq: "(\<And>t. m t = m' t) \<Longrightarrow> keeps m' s \<Longrightarrow> keeps m s"
  by (simp add: keeps_def)

lemma keeps_seal_loop [keeps_intros]: "keeps (seal_loop L k n ad c held) s"
proof (induction L k n ad c held s rule: seal_loop.induct)
  case (1 L k n ad c held s)
  show ?case
    by (rule keeps_eq [OF seal_loop.simps])
       (intro keeps_intros; rule 1; assumption)
qed

lemma keeps_open_loop [keeps_intros]: "keeps (open_loop L k cc ad c held) s"
proof (induction L k cc ad c held s rule: open_loop.induct)
  case (1 L k cc ad c held s)
  show ?case
    by (rule keeps_eq [OF open_loop.simps])
       (intro keeps_intros; rule 1; assumption)
qed

lemma keeps_seal_frames [keeps_intros]: "keeps (seal_frames L k n ad) s"
  unfolding seal_frames_def by (intro keeps_intros)

lemma keeps_open_frames [keeps_intros]: "keeps (open_frames L k cc ad) s"
  unfolding open_frames_def by (intro keeps_intros)

section \<open>Runs stay defined\<close>

text \<open>
  \<open>tame A m s\<close>: with an allocator that answers as \<open>A\<close>, \<open>m\<close> neither aborts nor leaves
  defined behaviour, and the allocator goes on answering as \<open>A\<close>.
\<close>

definition tame :: "(nat \<Rightarrow> bool) \<Rightarrow> (io_state, 'a) comp \<Rightarrow> io_state \<Rightarrow> bool" where
  "tame A m s \<longleftrightarrow>
     (alloc_ok (io_world s) = A \<longrightarrow> contained m s \<and> alloc_ok (io_world (snd (m s))) = A)"

definition alloc_fine :: "(nat \<Rightarrow> bool) \<Rightarrow> nat \<Rightarrow> bool" where
  "alloc_fine A n \<longleftrightarrow> isize_max < n \<or> A n"

named_theorems tame_intros \<open>composition of \<open>tame\<close>\<close>

lemma tame_ret [tame_intros]: "tame A (ret x) s" "tame A (returns y) s" "tame A (fails e) s"
  by (simp_all add: tame_def)

lemma tame_bind [tame_intros]:
  "tame A m s \<Longrightarrow> (\<And>x s'. m s = (Done x, s') \<Longrightarrow> tame A (k x) s') \<Longrightarrow> tame A (bind_comp m k) s"
  by (cases "m s"; cases "fst (m s)") (auto simp: tame_def contained_def bind_comp_def)

lemma tame_try [tame_intros]:
  "tame A m s \<Longrightarrow> (\<And>x s'. m s = (Done (Inr x), s') \<Longrightarrow> tame A (k x) s') \<Longrightarrow> tame A (try_comp m k) s"
  unfolding try_comp_def by (rule tame_bind) (auto intro: tame_ret split: sum.splits)

lemma tame_ext [tame_intros]:
  "tame A e s \<Longrightarrow> (\<And>x. r = ExtOk x \<Longrightarrow> tame A (k x) s) \<Longrightarrow> tame A (ext_case r e k) s"
  by (cases r) (simp_all add: tame_def contained_def)

lemma tame_if [tame_intros]:
  "(b \<Longrightarrow> tame A f s) \<Longrightarrow> (\<not> b \<Longrightarrow> tame A g s) \<Longrightarrow> tame A (\<lambda>t. if b then f t else g t) s"
  "(b \<Longrightarrow> tame A f s) \<Longrightarrow> (\<not> b \<Longrightarrow> tame A g s) \<Longrightarrow> tame A (if b then f else g) s"
  by (cases b; simp add: tame_def contained_def)+

lemma tame_option [tame_intros]:
  "(x = None \<Longrightarrow> tame A f s) \<Longrightarrow> (\<And>y. x = Some y \<Longrightarrow> tame A (g y) s) \<Longrightarrow>
     tame A (case x of None \<Rightarrow> f | Some y \<Rightarrow> g y) s"
  by (cases x) simp_all

lemma tame_scope [tame_intros]:
  "tame A m s \<Longrightarrow> (\<And>s'. alloc_ok (io_world (d s')) = alloc_ok (io_world s')) \<Longrightarrow>
     tame A (scope_drop m d) s"
  by (cases "m s"; cases "fst (m s)") (auto simp: tame_def contained_def scope_drop_def)

lemma tame_keeps: "keeps m s \<Longrightarrow> contained m s \<Longrightarrow> tame A m s"
  by (auto simp: tame_def keeps_def io_keep_def dest: world_keep_fields)

lemma tame_write_all [tame_intros]: "tame A (io_write_all bs) s"
  by (rule tame_keeps [OF keeps_write_all]) (simp add: contained_def io_write_all_def split: prod.splits)

lemma tame_flush [tame_intros]: "tame A io_flush s"
  by (rule tame_keeps [OF keeps_flush]) (simp add: contained_def io_flush_def split: prod.splits)

lemma tame_read_fill [tame_intros]: "tame A (io_read_fill n) s"
  by (rule tame_keeps [OF keeps_read_fill]) (simp add: contained_def io_read_fill_def split: prod.splits)

lemma tame_expect [tame_intros]: "tame A (expect msg x) s"
  by (rule tame_keeps [OF keeps_expect]) (simp add: contained_def expect_def split: option.splits)

lemma tame_alloc [tame_intros]: "alloc_fine A n \<Longrightarrow> tame A (io_alloc_zeroed n) s"
  by (auto simp: tame_def contained_def io_alloc_zeroed_def alloc_zeroed_def alloc_fine_def)

lemma tame_read_block [tame_intros]: "alloc_fine A n \<Longrightarrow> tame A (read_block n) s"
  unfolding read_block_def by (intro tame_intros)

lemma tame_zeroizing [tame_intros]: "tame A (body bs) s \<Longrightarrow> tame A (io_zeroizing bs body) s"
  unfolding io_zeroizing_def by (rule tame_scope) (simp_all add: zeroizing_drop_def)

lemma tame_seal_frame [tame_intros]: "tame A (seal_frame L k p c l ad) s"
  unfolding seal_frame_def by (intro tame_intros)

lemma tame_open_frame [tame_intros]: "tame A (open_frame L k f c l ad) s"
  unfolding open_frame_def by (intro tame_intros)

lemma tame_eq: "(\<And>t. m t = m' t) \<Longrightarrow> tame A m' s \<Longrightarrow> tame A m s"
  by (simp add: tame_def contained_def)

lemma tame_seal_loop [tame_intros]: "alloc_fine A n \<Longrightarrow> tame A (seal_loop L k n ad c held) s"
proof (induction L k n ad c held s rule: seal_loop.induct)
  case (1 L k n ad c held s)
  show ?case
    by (rule tame_eq [OF seal_loop.simps])
       (intro tame_intros "1.prems"; rule "1.IH"; (assumption | rule "1.prems"))
qed

lemma tame_open_loop [tame_intros]: "alloc_fine A cc \<Longrightarrow> tame A (open_loop L k cc ad c held) s"
proof (induction L k cc ad c held s rule: open_loop.induct)
  case (1 L k cc ad c held s)
  show ?case
    by (rule tame_eq [OF open_loop.simps])
       (intro tame_intros "1.prems"; rule "1.IH"; (assumption | rule "1.prems"))
qed

lemma tame_seal_frames [tame_intros]: "alloc_fine A n \<Longrightarrow> tame A (seal_frames L k n ad) s"
  unfolding seal_frames_def by (intro tame_intros)

lemma tame_open_frames [tame_intros]: "alloc_fine A cc \<Longrightarrow> tame A (open_frames L k cc ad) s"
  unfolding open_frames_def by (intro tame_intros)

lemma contained_with_files [contained_intros]:
  assumes "\<And>s. tame (alloc_ok w) body s"
  shows "contained (with_files i p body) w"
proof -
  have 1: "contained (file_open i) w" "\<And>w. contained (file_create p) w"
    by (auto simp: contained_def file_open_def file_create_def Let_def split: option.splits)
  have 2: "alloc_ok w' = alloc_ok w" if "file_open i w = (r, w')" for r w'
    using that by (auto simp: file_open_def split: option.splits)
  have 3: "alloc_ok w'' = alloc_ok w'" if "file_create p w' = (r, w'')" for r w' w''
    using that by (auto simp: file_create_def Let_def split: option.splits)
  have 4: "contained body s" if "alloc_ok (io_world s) = alloc_ok w" for s
    using assms [of s] that by (simp add: tame_def)
  show ?thesis
    unfolding with_files_def
  proof (intro contained_try 1)
    fix ino w1 out_ino w2
    assume "file_open i w = (Done (Inr ino), w1)" and "file_create p w1 = (Done (Inr out_ino), w2)"
    then have "alloc_ok w2 = alloc_ok w" by (metis 2 3)
    then have "contained body (fresh_io ino out_ino w2)" by (intro 4) (simp add: fresh_io_def)
    then show "contained (\<lambda>w. case scope_drop body close_io (fresh_io ino out_ino w) of
        (r, s) \<Rightarrow> (r, io_world s)) w2"
      by (simp add: contained_def split_beta scope_drop_outcome)
  qed
qed

section \<open>The entry points under their safety contract\<close>

definition path_ok :: "heap \<Rightarrow> addr \<Rightarrow> bool" where
  "path_ok m p \<longleftrightarrow> is_null p \<or> c_string m p \<noteq> None"

definition file_contract :: "world \<Rightarrow> addr \<Rightarrow> usize \<Rightarrow> addr \<Rightarrow> usize \<Rightarrow> usize \<Rightarrow> addr \<Rightarrow> addr \<Rightarrow> bool" where
  "file_contract w key key_len aad aad_len block_size in_path out_path \<longleftrightarrow>
     in_ok (mem w) key key_len \<and> in_ok (mem w) aad aad_len \<and>
     path_ok (mem w) in_path \<and> path_ok (mem w) out_path \<and>
     alloc_fine (alloc_ok w) (unat block_size)"

lemma contained_read_aad [contained_intros]:
  "in_ok (mem w) aad aad_len \<Longrightarrow> contained (read_aad aad aad_len) w"
  by (auto simp: read_aad_def in_ok_def intro!: contained_intros)

lemma read_aad_Done: "read_aad aad aad_len w = (Done x, w') \<Longrightarrow> w' = w"
  by (auto simp: read_aad_def split: if_splits)

lemma contained_cstr_path [contained_intros]:
  "c_string (mem w) p \<noteq> None \<Longrightarrow> contained (cstr_path p) w"
  by (auto simp: contained_def cstr_path_def split: if_splits)

lemma cstr_path_Done: "cstr_path p w = (Done x, w') \<Longrightarrow> w' = w"
  by (auto simp: cstr_path_def split: option.splits if_splits)

lemma contained_paths:
  assumes "in_ok (mem u) aad aad_len" "c_string (mem u) i \<noteq> None" "c_string (mem u) p \<noteq> None"
    and "\<And>k ad s. tame (alloc_ok u) (body k ad) s"
  shows "contained (bind_comp (read_aad aad aad_len) (\<lambda>ad.
         try_comp (cstr_path i) (\<lambda>in_path.
         try_comp (cstr_path p) (\<lambda>out_path.
         ext_case x (returns InvalidKey) (\<lambda>k.
         with_files in_path out_path (body k ad)))))) u"
  using assms(1-3)
  by (auto dest!: read_aad_Done cstr_path_Done
      intro!: contained_bind contained_try contained_ext contained_read_aad contained_cstr_path
        contained_with_files assms(4))

lemma contained_entry:
  assumes "slice_ok (mem w) key (unat key_len)" "in_ok (mem w) aad aad_len"
    and "c_string (mem w) i \<noteq> None" "c_string (mem w) p \<noteq> None"
    and "\<And>k ad s. tame (alloc_ok w) (body k ad) s"
  shows "contained (bind_comp (from_raw_parts key key_len) (\<lambda>key_slice.
         with_pinned key_slice (\<lambda>secret.
         bind_comp (read_aad aad aad_len) (\<lambda>ad.
         try_comp (cstr_path i) (\<lambda>in_path.
         try_comp (cstr_path p) (\<lambda>out_path.
         ext_case (unbound_key_new L a (pinned_as_slice secret)) (returns InvalidKey) (\<lambda>k.
         with_files in_path out_path (body k ad)))))))) w"
proof (rule contained_bind [OF contained_from_raw [OF assms(1)]], rule contained_pinned)
  fix key_slice w1 secret u
  assume "from_raw_parts key key_len w = (Done key_slice, w1)"
    and u: "u = w1\<lparr>locked_bytes := locked_bytes u\<rparr>"
  then have [simp]: "w1 = w" by simp
  obtain x where "u = w\<lparr>locked_bytes := x\<rparr>" using u by simp
  then have m: "mem u = mem w" and A: "alloc_ok u = alloc_ok w" by simp_all
  show "contained (bind_comp (read_aad aad aad_len) (\<lambda>ad.
         try_comp (cstr_path i) (\<lambda>in_path.
         try_comp (cstr_path p) (\<lambda>out_path.
         ext_case (unbound_key_new L a (pinned_as_slice secret)) (returns InvalidKey) (\<lambda>k.
         with_files in_path out_path (body k ad)))))) u"
    by (rule contained_paths) (use assms(2-5) in \<open>simp_all add: m A\<close>)
qed

interpretation stream_seal_file: ffi_entry
  "\<lambda>(L, i, key, kl, aad, al, n, inp, outp). stream_seal_file_body L i key kl aad al n inp outp"
  "\<lambda>(L, i, key, kl, aad, al, n, inp, outp) w. file_contract w key kl aad al n inp outp"
  by unfold_locales
     (auto simp: stream_seal_file_body_def file_contract_def path_ok_def in_ok_def [of _ _ kl for kl]
       intro!: contained_entry tame_intros split: option.splits)

interpretation stream_open_file: ffi_entry
  "\<lambda>(L, i, key, kl, aad, al, n, inp, outp). stream_open_file_body L i key kl aad al n inp outp"
  "\<lambda>(L, i, key, kl, aad, al, n, inp, outp) w.
     file_contract w key kl aad al (n + of_nat TAG_LEN) inp outp"
  by unfold_locales
     (auto simp: stream_open_file_body_def file_contract_def path_ok_def in_ok_def [of _ _ kl for kl]
       intro!: contained_entry tame_intros split: option.splits)

section \<open>Runs on healthy files\<close>

text \<open>
  The abstraction of a run: the input not yet read, the output accepted so far, the room
  for more. \<open>io_view\<close> also says that no read failure is ahead.
\<close>

definition io_view :: "io_state \<Rightarrow> bytes \<Rightarrow> bytes \<Rightarrow> nat \<Rightarrow> bool" where
  "io_view s i out room \<longleftrightarrow>
     br_ok (io_reader s, io_world s) \<and> br_remaining (io_reader s, io_world s) = i \<and>
     bw_ready (io_writer s, io_world s) \<and> bw_accepted (io_writer s, io_world s) = out \<and>
     bw_room (io_writer s, io_world s) = room"

definition io_apart :: "io_state \<Rightarrow> bool" where
  "io_apart s \<longleftrightarrow> br_ino (io_reader s) \<noteq> bw_ino (io_writer s)"

definition grants :: "world \<Rightarrow> nat \<Rightarrow> bool" where
  "grants w n \<longleftrightarrow> n \<le> isize_max \<and> alloc_ok w n"

lemma io_keep_apart: "io_keep s s' \<Longrightarrow> io_apart s' = io_apart s"
  by (simp add: io_keep_def io_apart_def)

lemma io_keep_grants: "io_keep s s' \<Longrightarrow> grants (io_world s') n = grants (io_world s) n"
  by (auto simp: io_keep_def grants_def dest: world_keep_fields)

lemma keeps_run:
  assumes "keeps m s" and "m s = (r, s')"
  shows "io_apart s' = io_apart s" and "grants (io_world s') n = grants (io_world s) n"
  using assms by (simp_all add: keeps_def io_keep_apart io_keep_grants)

lemma io_view_same:
  assumes "br_same (io_reader s, io_world s) (rd, w)" and "io_view s i out room"
    and "br_ok (rd, w)"
  shows "io_view (s\<lparr>io_reader := rd, io_world := w\<rparr>) (br_remaining (rd, w)) out room"
proof -
  from assms(1) have eq: "io_world s\<lparr>read_plan := []\<rparr> = w\<lparr>read_plan := []\<rparr>"
    by (simp add: br_same_def)
  have "inodes w = inodes (io_world s)" "disk_room w = disk_room (io_world s)"
    using arg_cong [OF eq, of inodes] arg_cong [OF eq, of disk_room] by simp_all
  then show ?thesis using assms(2,3) by (simp add: io_view_def bw_defs)
qed

lemma read_block_run:
  assumes "grants (io_world s) n" "0 < n" "io_view s i out room"
  obtains s' where "read_block n s = (Done (Inr (if i = [] then None else Some (take n i))), s')"
    and "io_view s' (drop n i) out room"
proof -
  from assms(3) have ok: "br_ok (io_reader s, io_world s)"
    and rem: "br_remaining (io_reader s, io_world s) = i" by (simp_all add: io_view_def)
  from buf_source.read_fill_law [OF ok, of "[]" n] obtain rd w where
    r: "read_fill br_read n [] (io_reader s, io_world s) = (Inr (take n i), (rd, w))"
    and v: "br_ok (rd, w)" "br_remaining (rd, w) = drop n i"
    by (auto simp: rem)
  have "br_same (io_reader s, io_world s) (rd, w)"
    using buf_source.read_fill_same [of "(io_reader s, io_world s)" n "[]"] r by simp
  from io_view_same [OF this assms(3) v(1)] v(2)
  have "io_view (s\<lparr>io_reader := rd, io_world := w\<rparr>) (drop n i) out room" by simp
  moreover have "read_block n s = (Done (Inr (if i = [] then None else Some (take n i))),
      s\<lparr>io_reader := rd, io_world := w\<rparr>)"
    using assms(1,2) r
    by (simp add: read_block_def io_alloc_zeroed_def alloc_zeroed_def grants_def io_read_fill_def
        bind_comp_def try_comp_def fails_def)
  ultimately show ?thesis by (rule that [rotated])
qed

lemma io_view_only_file:
  assumes "only_file (bw_ino (io_writer s)) (io_world s) w" and "io_view s i out room"
    and "bw_ready (b, w)"
  obtains i' where "io_view (s\<lparr>io_writer := b, io_world := w\<rparr>) i' (bw_accepted (b, w)) (bw_room (b, w))"
    and "io_apart s \<Longrightarrow> i' = i"
proof
  from assms(1) obtain c d where w: "w = (io_world s)\<lparr>inodes := (inodes (io_world s))(bw_ino (io_writer s) := c),
      disk_room := d\<rparr>" by (auto simp: only_file_def)
  show "io_view (s\<lparr>io_writer := b, io_world := w\<rparr>) (br_remaining (io_reader s, w))
      (bw_accepted (b, w)) (bw_room (b, w))"
    using assms(2,3) by (simp add: io_view_def br_ok_def w)
  show "br_remaining (io_reader s, w) = i" if "io_apart s"
    using that assms(2) by (simp add: io_view_def br_remaining_def w io_apart_def)
qed

lemma write_all_run:
  assumes "io_view s i out room" "length bs \<le> room"
  obtains s' i' where "io_write_all bs s = (Done (Inr ()), s')"
    and "io_view s' i' (out @ bs) (room - length bs)" and "io_apart s \<Longrightarrow> i' = i"
proof -
  from assms have "bw_ready (io_writer s, io_world s)"
    and "length bs \<le> bw_room (io_writer s, io_world s)"
    and acc: "bw_accepted (io_writer s, io_world s) = out" "bw_room (io_writer s, io_world s) = room"
    by (simp_all add: io_view_def)
  from buf_sink.write_law [OF this(1,2)] obtain b w where
    r: "bw_write_all bs (io_writer s, io_world s) = (Inr (), (b, w))" and "bw_ready (b, w)"
    and v: "bw_accepted (b, w) = out @ bs" "bw_room (b, w) = room - length bs"
    by (auto simp: acc)
  from bw_write_all_only [OF r] have "only_file (bw_ino (io_writer s)) (io_world s) w" by simp
  from io_view_only_file [OF this assms(1) \<open>bw_ready (b, w)\<close>] obtain i' where
    "io_view (s\<lparr>io_writer := b, io_world := w\<rparr>) i' (out @ bs) (room - length bs)"
    "io_apart s \<Longrightarrow> i' = i" unfolding v by blast
  then show ?thesis
    by (rule that [rotated]) (simp_all add: io_write_all_def r lift_err_def)
qed

lemma flush_run:
  assumes "io_view s i out room"
  obtains s' i' where "io_flush s = (Done (Inr ()), s')"
    and "io_view s' i' out room" and "bw_stored (io_writer s', io_world s') = out"
proof -
  from assms have rd: "bw_ready (io_writer s, io_world s)"
    and acc: "bw_accepted (io_writer s, io_world s) = out" "bw_room (io_writer s, io_world s) = room"
    by (simp_all add: io_view_def)
  from buf_sink.flush_law [OF rd] obtain b w where
    r: "bw_flush (io_writer s, io_world s) = (Inr (), (b, w))" and "bw_ready (b, w)"
    and v: "bw_accepted (b, w) = out" "bw_room (b, w) = room" "bw_stored (b, w) = out"
    by (auto simp: acc)
  from bw_flush_buf_only [OF r [unfolded bw_flush_def]]
  have "only_file (bw_ino (io_writer s)) (io_world s) w" by simp
  from io_view_only_file [OF this assms \<open>bw_ready (b, w)\<close>] obtain i' where
    "io_view (s\<lparr>io_writer := b, io_world := w\<rparr>) i' out room" unfolding v by blast
  then show ?thesis
    by (rule that [rotated]) (simp_all add: io_flush_def r lift_err_def v)
qed

text \<open>Closing the files stores what the writer had accepted.\<close>

lemma close_run:
  assumes "io_view s i out room"
  shows "inodes (io_world (close_io s)) (bw_ino (io_writer s)) = out"
proof -
  have "bw_ready (io_writer s, io_world s)" using assms by (simp add: io_view_def)
  from bw_flush_buf_ready [OF this] assms show ?thesis
    by (simp add: close_io_def bw_drop_def io_view_def bw_accepted_def)
qed

lemma zeroizing_view [simp]:
  "io_view (s\<lparr>io_world := zeroizing_drop bs (io_world s)\<rparr>) i out room = io_view s i out room"
  by (simp add: io_view_def br_ok_def br_remaining_def bw_defs zeroizing_drop_def)

section \<open>Refinement: the sealing loop\<close>

lemma seal_frame_ExtOk:
  "frame_seal L k ad c l p = ExtOk f \<Longrightarrow> seal_frame L k p c l ad = io_write_all f"
  by (auto simp: frame_seal_def seal_frame_def split: ext.splits)

lemma seal_frame_run:
  assumes "aead_correct L n" "length p \<le> n" "io_view s i out room" "length p + TAG_LEN \<le> room"
  obtains s' i' where "seal_frame L k p c l ad s = (Done (Inr ()), s')"
    and "io_view s' i' (out @ frame_enc L k ad c l p) (room - (length p + TAG_LEN))"
    and "io_apart s \<Longrightarrow> i' = i"
proof -
  note f = frame_seal_lawful [OF assms(1,2), of k ad c l]
  from write_all_run [OF assms(3), of "frame_enc L k ad c l p"] assms(4) f(2) obtain s' i' where
    "io_write_all (frame_enc L k ad c l p) s = (Done (Inr ()), s')"
    "io_view s' i' (out @ frame_enc L k ad c l p) (room - (length p + TAG_LEN))"
    "io_apart s \<Longrightarrow> i' = i" by metis
  then show ?thesis using that seal_frame_ExtOk [OF f(1)] by metis
qed

lemma try_run: "m s = (Done (Inr x), s') \<Longrightarrow> k x s' = r \<Longrightarrow> try_comp m k s = r"
  by (simp add: try_ok)

lemma next_counter_run: "unat c + 1 < 2 ^ 64 \<Longrightarrow> next_counter c = Inr (c + 1) \<and> unat (c + 1) = unat c + 1"
  by (auto simp: next_counter_def unat_word_ariths)

lemma seal_loop_step:
  assumes "read_block n s = (Done (Inr nxt), s1)"
    and "seal_frame L k chunk c (nxt = None) ad s1 = (Done (Inr ()), s2)"
    and "unat c + 1 < 2 ^ 64"
  shows "seal_loop L k n ad c (Some chunk) s =
    (if nxt = None then (Done (Inr ()), s2) else seal_loop L k n ad (c + 1) nxt s2)"
  using assms next_counter_run [OF assms(3)]
  by (subst seal_loop.simps) (simp add: try_ok expect_def)

lemma seal_loop_run:
  assumes "aead_correct L n" and "0 < n"
  shows "io_view s i out room \<Longrightarrow> io_apart s \<Longrightarrow> grants (io_world s) n \<Longrightarrow> length chunk \<le> n \<Longrightarrow>
    unat c + length (blocks n i) + 1 < 2 ^ 64 \<Longrightarrow>
    fs = concat (seal_list (frame_enc L k ad) c (chunk # blocks n i)) \<Longrightarrow> length fs \<le> room \<Longrightarrow>
    \<exists>s' i'. seal_loop L k n ad c (Some chunk) s = (Done (Inr ()), s') \<and>
      io_view s' i' (out @ fs) (room - length fs)"
proof (induction "length i" arbitrary: s i out room chunk c fs rule: less_induct)
  case less
  note enc_len = frame_seal_lawful(2) [OF assms(1), of _ k ad]
  obtain s1 where r1: "read_block n s = (Done (Inr (if i = [] then None else Some (take n i))), s1)"
    and v1: "io_view s1 (drop n i) out room"
    by (rule read_block_run [OF less.prems(3) assms(2) less.prems(1)])
  note k1 = keeps_run [OF keeps_read_block r1]
  have c: "unat c + 1 < 2 ^ 64" using less.prems(5) by simp
  let ?f = "frame_enc L k ad c (i = []) chunk"
  let ?rest = "concat (seal_list (frame_enc L k ad) (c + 1) (blocks n i))"
  have fs: "fs = ?f @ ?rest" and f: "length ?f = length chunk + TAG_LEN"
    using less.prems(4,6) assms(2) by (simp_all add: seal_list_Cons enc_len)
  then have "length chunk + TAG_LEN \<le> room" using less.prems(7) by simp
  from seal_frame_run [OF assms(1) less.prems(4) v1 this, of k c "i = []" ad] obtain s2 i2 where
    r2: "seal_frame L k chunk c (i = []) ad s1 = (Done (Inr ()), s2)"
    and v2: "io_view s2 i2 (out @ ?f) (room - length ?f)" and i2: "i2 = drop n i"
    using k1(1) less.prems(2) f by metis
  note k2 = keeps_run [OF keeps_seal_frame r2]
  show ?case
  proof (cases "i = []")
    case True
    then show ?thesis
      using seal_loop_step [of n s _ s1 L k chunk c ad s2] r1 r2 c v2 fs by auto
  next
    case False
    then have b: "blocks n i = take n i # blocks n i2" using assms(2) by (simp add: blocks_step i2)
    have "\<exists>s' i'. seal_loop L k n ad (c + 1) (Some (take n i)) s2 = (Done (Inr ()), s') \<and>
        io_view s' i' ((out @ ?f) @ ?rest) (room - length ?f - length ?rest)"
    proof (rule less.hyps)
      show "length i2 < length i" using False assms(2) by (simp add: i2)
      show "unat (c + 1) + length (blocks n i2) + 1 < 2 ^ 64"
        using less.prems(5) next_counter_run [OF c] by (simp add: b)
      show "length ?rest \<le> room - length ?f" using less.prems(7) by (simp add: fs)
      show "?rest = concat (seal_list (frame_enc L k ad) (c + 1) (take n i # blocks n i2))"
        by (simp add: b)
    qed (use v2 k1 k2 less.prems in auto)
    moreover have "seal_loop L k n ad c (Some chunk) s = seal_loop L k n ad (c + 1) (Some (take n i)) s2"
      using seal_loop_step [of n s _ s1 L k chunk c ad s2] r1 r2 c False by auto
    ultimately show ?thesis by (simp add: fs)
  qed
qed

section \<open>Refinement: the opening loop\<close>

text \<open>The primitives report failure by their error and never panic.\<close>

definition aead_quiet :: "'k aead_lib \<Rightarrow> bool" where
  "aead_quiet L \<longleftrightarrow>
    (\<forall>n. nonce_new L n = (if length n = 12 then ExtOk n else ExtErr)) \<and>
    (\<forall>k n a f p. open_in_place L k n a f \<noteq> ExtPanic p)"

lemma frame_dec_quiet:
  assumes "aead_quiet L"
  shows "nonce_new L (stream_nonce c l) = ExtOk (stream_nonce c l)"
    and "open_in_place L k (stream_nonce c l) ad f =
      (case frame_dec L k ad c l f of None \<Rightarrow> ExtErr | Some p \<Rightarrow> ExtOk p)"
proof -
  show n: "nonce_new L (stream_nonce c l) = ExtOk (stream_nonce c l)"
    using assms by (simp add: aead_quiet_def)
  show "open_in_place L k (stream_nonce c l) ad f =
      (case frame_dec L k ad c l f of None \<Rightarrow> ExtErr | Some p \<Rightarrow> ExtOk p)"
    using assms
    by (cases "open_in_place L k (stream_nonce c l) ad f") (simp_all add: frame_dec_def n aead_quiet_def)
qed

lemma open_frame_rejects:
  assumes "aead_quiet L" "frame_dec L k ad c l f = None" "io_view s i out room"
  obtains s' where "open_frame L k f c l ad s = (Done (Inl EAuthFailed), s')"
    and "io_view s' i out room"
proof
  show "open_frame L k f c l ad s =
      (Done (Inl EAuthFailed), s\<lparr>io_world := zeroizing_drop f (io_world s)\<rparr>)"
    using assms(2) by (simp add: open_frame_def frame_dec_quiet [OF assms(1)] io_zeroizing_def run_simps)
qed (simp add: assms(3))

lemma open_frame_accepts:
  assumes "aead_quiet L" "frame_dec L k ad c l f = Some p" "io_view s i out room" "length p \<le> room"
  obtains s' i' where "open_frame L k f c l ad s = (Done (Inr ()), s')"
    and "io_view s' i' (out @ p) (room - length p)" and "io_apart s \<Longrightarrow> i' = i"
proof -
  from write_all_run [OF assms(3,4)] obtain s1 i' where r: "io_write_all p s = (Done (Inr ()), s1)"
    and v: "io_view s1 i' (out @ p) (room - length p)" "io_apart s \<Longrightarrow> i' = i" by blast
  have "open_frame L k f c l ad s =
      (Done (Inr ()), s1\<lparr>io_world := zeroizing_drop f (io_world s1)\<rparr>)"
    using assms(2) r
    by (simp add: open_frame_def frame_dec_quiet [OF assms(1)] io_zeroizing_def scope_drop_Done)
  then show ?thesis by (rule that [of _ i']) (simp_all add: v)
qed

lemma open_loop_short:
  "length f < TAG_LEN \<Longrightarrow> open_loop L k cc ad c (Some f) s = (Done (Inr (Some InvalidCiphertext)), s)"
  by (subst open_loop.simps) (simp add: try_ok expect_def)

lemma open_loop_rejects:
  assumes "\<not> length f < TAG_LEN" "read_block cc s = (Done (Inr nxt), s1)"
    and "open_frame L k f c (length f < cc \<or> nxt = None) ad s1 = (Done (Inl EAuthFailed), s2)"
  shows "open_loop L k cc ad c (Some f) s = (Done (Inr (Some AuthFailed)), s2)"
  using assms by (subst open_loop.simps) (simp add: try_ok expect_def bind_Done auth_to_status_def)

lemma open_loop_step:
  assumes "\<not> length f < TAG_LEN" "read_block cc s = (Done (Inr nxt), s1)"
    and "open_frame L k f c (length f < cc \<or> nxt = None) ad s1 = (Done (Inr ()), s2)"
    and "unat c + 1 < 2 ^ 64"
  shows "open_loop L k cc ad c (Some f) s =
    (if length f < cc \<or> nxt = None
     then (Done (Inr (if nxt \<noteq> None then Some InvalidCiphertext else None)), s2)
     else open_loop L k cc ad (c + 1) nxt s2)"
  using assms next_counter_run [OF assms(4)]
  by (subst open_loop.simps) (simp add: try_ok expect_def bind_Done auth_to_status_def)

definition stop_of :: "PqForgeStatus \<Rightarrow> PqForgeStatus option" where
  "stop_of st = (if st = Ok then None else Some st)"

lemma open_loop_run:
  assumes "aead_quiet L" and "0 < cc"
  shows "io_view s i out room \<Longrightarrow> io_apart s \<Longrightarrow> grants (io_world s) cc \<Longrightarrow>
    unat c + length (blocks cc i) + 1 < 2 ^ 64 \<Longrightarrow>
    open_list (frame_dec L k ad) cc c (f # blocks cc i) = (st, rel) \<Longrightarrow> length rel \<le> room \<Longrightarrow>
    \<exists>s' i'. open_loop L k cc ad c (Some f) s = (Done (Inr (stop_of st)), s') \<and>
      io_view s' i' (out @ rel) (room - length rel)"
proof (induction "length i" arbitrary: s i out room f c st rel rule: less_induct)
  case less
  have c: "unat c + 1 < 2 ^ 64" using less.prems(4) by simp
  show ?case
  proof (cases "length f < TAG_LEN")
    case True
    then show ?thesis using less.prems(1,5) by (auto simp: open_loop_short stop_of_def)
  next
    case long: False
    obtain s1 where r1: "read_block cc s = (Done (Inr (if i = [] then None else Some (take cc i))), s1)"
      and v1: "io_view s1 (drop cc i) out room"
      by (rule read_block_run [OF less.prems(3) assms(2) less.prems(1)])
    note k1 = keeps_run [OF keeps_read_block r1]
    let ?last = "length f < cc \<or> i = []"
    have last: "(length f < cc \<or> (if i = [] then None else Some (take cc i)) = None) = ?last" by simp
    show ?thesis
    proof (cases "frame_dec L k ad c ?last f")
      case None
      obtain s2 where "open_frame L k f c ?last ad s1 = (Done (Inl EAuthFailed), s2)"
        and v2: "io_view s2 (drop cc i) out room"
        by (rule open_frame_rejects [OF assms(1) None v1])
      with r1 long have "open_loop L k cc ad c (Some f) s = (Done (Inr (Some AuthFailed)), s2)"
        by (intro open_loop_rejects [OF long r1]) (simp add: last)
      then show ?thesis using less.prems(5) None long v2 assms(2) by (auto simp: stop_of_def Let_def)
    next
      case (Some p)
      have p: "length p \<le> room"
        using less.prems(5,6) Some long assms(2)
        by (auto simp: Let_def split: if_splits prod.splits)
      obtain s2 i2 where r2: "open_frame L k f c ?last ad s1 = (Done (Inr ()), s2)"
        and v2: "io_view s2 i2 (out @ p) (room - length p)" and i2: "i2 = drop cc i"
        using open_frame_accepts [OF assms(1) Some v1 p] k1(1) less.prems(2) by metis
      note k2 = keeps_run [OF keeps_open_frame r2]
      note step = open_loop_step [OF long r1 r2 [folded last] c, unfolded last]
      show ?thesis
      proof (cases ?last)
        case True
        then show ?thesis using less.prems(5) Some long v2 step assms(2)
          by (auto simp: stop_of_def Let_def split: if_splits)
      next
        case False
        then have b: "blocks cc i = take cc i # blocks cc i2" using assms(2) by (simp add: blocks_step i2)
        obtain rel' where o: "open_list (frame_dec L k ad) cc (c + 1) (take cc i # blocks cc i2) = (st, rel')"
          and rel: "rel = p @ rel'"
          using less.prems(5) Some long False b
          by (auto simp: Let_def simp del: open_list.simps(2) simp: open_list.simps(2) [of _ _ c]
              split: prod.splits)
        have "\<exists>s' i'. open_loop L k cc ad (c + 1) (Some (take cc i)) s2 = (Done (Inr (stop_of st)), s') \<and>
            io_view s' i' ((out @ p) @ rel') (room - length p - length rel')"
        proof (rule less.hyps)
          show "length i2 < length i" using False assms(2) by (simp add: i2)
          show "unat (c + 1) + length (blocks cc i2) + 1 < 2 ^ 64"
            using less.prems(4) next_counter_run [OF c] by (simp add: b)
        qed (use v2 k1 k2 o rel less.prems in auto)
        moreover have "open_loop L k cc ad c (Some f) s = open_loop L k cc ad (c + 1) (Some (take cc i)) s2"
          using step False by auto
        ultimately show ?thesis by (simp add: rel)
      qed
    qed
  qed
qed

section \<open>Refinement: a whole run\<close>

lemma length_blocks_le: "length (blocks n xs) \<le> length xs"
proof (induction n xs rule: blocks.induct)
  case (1 n xs)
  show ?case
  proof (cases "n = 0 \<or> xs = []")
    case True
    then show ?thesis by (subst blocks.simps) simp
  next
    case False
    then have "length (drop n xs) < length xs" by simp
    moreover have "length (blocks n (drop n xs)) \<le> length (drop n xs)" using 1 False by blast
    ultimately have "Suc (length (blocks n (drop n xs))) \<le> length xs" by linarith
    then show ?thesis using False by (simp add: blocks_step)
  qed
qed

lemma seal_frames_run:
  assumes "aead_correct L n" "0 < n" and v: "io_view s pt out room" and "io_apart s \<or> pt = []"
    and "grants (io_world s) n" and len: "length pt + 1 < 2 ^ 64"
    and room: "length (stream_seal (frame_enc L k ad) n pt) \<le> room"
  obtains s' i' where "seal_frames L k n ad s = (Done (Inr Ok), s')"
    and "io_view s' i' (out @ stream_seal (frame_enc L k ad) n pt)
      (room - length (stream_seal (frame_enc L k ad) n pt))"
proof -
  let ?ct = "stream_seal (frame_enc L k ad) n pt"
  note enc_len = frame_seal_lawful(2) [OF assms(1), of _ k ad]
  obtain s1 where r1: "read_block n s = (Done (Inr (if pt = [] then None else Some (take n pt))), s1)"
    and v1: "io_view s1 (drop n pt) out room"
    by (rule read_block_run [OF assms(5) assms(2) v])
  note k1 = keeps_run [OF keeps_read_block r1]
  have "\<exists>s2 i2. (if pt = [] then seal_frame L k [] 0 True ad
              else seal_loop L k n ad 0 (Some (take n pt))) s1 = (Done (Inr ()), s2) \<and>
      io_view s2 i2 (out @ ?ct) (room - length ?ct)"
  proof (cases "pt = []")
    case True
    then have ct: "?ct = frame_enc L k ad 0 True []" by (simp add: stream_seal_def plain_frames_def)
    then have len_ct: "length ?ct = length ([] :: bytes) + TAG_LEN" by (simp add: enc_len)
    with room have "length ([] :: bytes) + TAG_LEN \<le> room" by simp
    then obtain s2 i2 where "seal_frame L k [] 0 True ad s1 = (Done (Inr ()), s2)"
      and "io_view s2 i2 (out @ frame_enc L k ad 0 True []) (room - (length ([] :: bytes) + TAG_LEN))"
      using seal_frame_run [OF assms(1) _ v1, of "[]"] by (metis le0 list.size(3))
    then show ?thesis unfolding len_ct using True ct by auto
  next
    case False
    then have b: "blocks n pt = take n pt # blocks n (drop n pt)" using assms(2) by (simp add: blocks_step)
    have "length (blocks n pt) + 1 < 2 ^ 64"
      using length_blocks_le [of n pt] len by linarith
    then have "unat (0 :: u64) + length (blocks n (drop n pt)) + 1 < 2 ^ 64" by (simp add: b)
    moreover have "?ct = concat (seal_list (frame_enc L k ad) 0 (take n pt # blocks n (drop n pt)))"
      using False b by (simp add: stream_seal_def plain_frames_def)
    moreover have "io_apart s1" "grants (io_world s1) n" using assms(4,5) False k1 by auto
    ultimately show ?thesis
      using seal_loop_run [OF assms(1,2) v1, of "take n pt" 0 ?ct k ad] room False by auto
  qed
  then obtain s2 i2 where r2: "(if pt = [] then seal_frame L k [] 0 True ad
              else seal_loop L k n ad 0 (Some (take n pt))) s1 = (Done (Inr ()), s2)"
    and v2: "io_view s2 i2 (out @ ?ct) (room - length ?ct)" by blast
  obtain s3 i3 where r3: "io_flush s2 = (Done (Inr ()), s3)"
    and v3: "io_view s3 i3 (out @ ?ct) (room - length ?ct)"
    by (rule flush_run [OF v2])
  have "seal_frames L k n ad s = (Done (Inr Ok), s3)"
    using r1 r2 r3 by (auto simp: seal_frames_def try_ok split: if_splits)
  then show ?thesis using v3 by (rule that)
qed

lemma open_frames_run:
  assumes "aead_quiet L" "0 < cc" and v: "io_view s ct out room" and "io_apart s \<or> ct = []"
    and "grants (io_world s) cc" and len: "length ct + 1 < 2 ^ 64"
    and st: "stream_open (frame_dec L k ad) cc ct = (st, rel)" and room: "length rel \<le> room"
  obtains s' i' where "open_frames L k cc ad s = (Done (Inr st), s')"
    and "io_view s' i' (out @ rel) (room - length rel)"
proof -
  obtain s1 where r1: "read_block cc s = (Done (Inr (if ct = [] then None else Some (take cc ct))), s1)"
    and v1: "io_view s1 (drop cc ct) out room"
    by (rule read_block_run [OF assms(5) assms(2) v])
  note k1 = keeps_run [OF keeps_read_block r1]
  show ?thesis
  proof (cases "ct = []")
    case True
    then have "st = InvalidCiphertext" "rel = []" using st by (simp_all add: stream_open_def)
    moreover have "open_frames L k cc ad s = (Done (Inr InvalidCiphertext), s1)"
      using r1 True by (simp add: open_frames_def try_ok)
    ultimately show ?thesis using that v1 by simp
  next
    case False
    then have b: "blocks cc ct = take cc ct # blocks cc (drop cc ct)" using assms(2) by (simp add: blocks_step)
    have "length (blocks cc ct) + 1 < 2 ^ 64"
      using length_blocks_le [of cc ct] len by linarith
    then have "unat (0 :: u64) + length (blocks cc (drop cc ct)) + 1 < 2 ^ 64" by (simp add: b)
    moreover have "open_list (frame_dec L k ad) cc 0 (take cc ct # blocks cc (drop cc ct)) = (st, rel)"
      using st b by (simp add: stream_open_def del: open_list.simps)
    moreover have "io_apart s1" "grants (io_world s1) cc" using assms(4,5) False k1 by auto
    ultimately obtain s2 i2 where
      r2: "open_loop L k cc ad 0 (Some (take cc ct)) s1 = (Done (Inr (stop_of st)), s2)"
      and v2: "io_view s2 i2 (out @ rel) (room - length rel)"
      using open_loop_run [OF assms(1,2) v1, of 0 k ad "take cc ct" st rel] room by blast
    show ?thesis
    proof (cases "st = Ok")
      case True
      obtain s3 i3 where r3: "io_flush s2 = (Done (Inr ()), s3)"
        and v3: "io_view s3 i3 (out @ rel) (room - length rel)"
        by (rule flush_run [OF v2])
      have "open_frames L k cc ad s = (Done (Inr st), s3)"
        using r1 r2 r3 True False by (simp add: open_frames_def try_ok stop_of_def)
      then show ?thesis using v3 by (rule that)
    next
      case notOk: False
      have "open_frames L k cc ad s = (Done (Inr st), s2)"
        using r1 r2 notOk False by (simp add: open_frames_def try_ok stop_of_def)
      then show ?thesis using v2 by (rule that)
    qed
  qed
qed

section \<open>Refinement: a call\<close>

definition file_at :: "world \<Rightarrow> bytes \<Rightarrow> bytes option" where
  "file_at w path = map_option (inodes w) (names w path)"

text \<open>The inode \<open>File::create\<close> will truncate or make.\<close>

definition out_ino :: "world \<Rightarrow> bytes \<Rightarrow> nat" where
  "out_ino w path = (case names w path of None \<Rightarrow> next_ino w | Some ino \<Rightarrow> ino)"

definition separate :: "world \<Rightarrow> bytes \<Rightarrow> bytes \<Rightarrow> bool" where
  "separate w in_path out_path \<longleftrightarrow> names w in_path \<noteq> Some (out_ino w out_path)"

definition no_read_fail :: "world \<Rightarrow> bool" where
  "no_read_fail w \<longleftrightarrow>
     list_all (\<lambda>e. case e of ReadFail _ \<Rightarrow> False | ReadShort _ \<Rightarrow> True) (read_plan w)"

text \<open>
  A well-formed call: the key \<open>k\<close>, the associated data \<open>ad\<close>, and two paths, the first of
  a readable file.
\<close>

definition file_request :: "world \<Rightarrow> addr \<Rightarrow> usize \<Rightarrow> bytes \<Rightarrow> addr \<Rightarrow> usize \<Rightarrow> bytes
    \<Rightarrow> addr \<Rightarrow> bytes \<Rightarrow> addr \<Rightarrow> bytes \<Rightarrow> bytes \<Rightarrow> bool" where
  "file_request w key key_len k aad aad_len ad in_path ip out_path op data \<longleftrightarrow>
     slice_at (mem w) key key_len k \<and> input_at (mem w) aad aad_len ad \<and>
     \<not> is_null in_path \<and> c_string (mem w) in_path = Some ip \<and> valid_utf8 ip \<and>
     \<not> is_null out_path \<and> c_string (mem w) out_path = Some op \<and> valid_utf8 op \<and>
     open_err w ip = None \<and> create_err w op = None \<and> no_read_fail w \<and> file_at w ip = Some data"

text \<open>What a call leaves alone: everything but the output file and the bookkeeping.\<close>

definition file_frame :: "bytes \<Rightarrow> world \<Rightarrow> world \<Rightarrow> bool" where
  "file_frame op w w' \<longleftrightarrow>
     mem w' = mem w \<and> rng w' = rng w \<and> hook w' = hook w \<and> panic_log w' = panic_log w \<and>
     vec_zeroize w' = vec_zeroize w \<and> alloc_ok w' = alloc_ok w \<and> mlock_rc w' = mlock_rc w \<and>
     open_err w' = open_err w \<and> create_err w' = create_err w \<and>
     names w' = (names w)(op \<mapsto> out_ino w op) \<and>
     next_ino w' = (if names w op = None then Suc (next_ino w) else next_ino w) \<and>
     (\<forall>i. i \<noteq> out_ino w op \<longrightarrow> inodes w' i = inodes w i)"

definition wiped_releases :: "world \<Rightarrow> world \<Rightarrow> bool" where
  "wiped_releases w w' \<longleftrightarrow>
     (\<exists>rs. released w' = released w @ rs \<and> (\<forall>r\<in>set rs. \<exists>bs. r = fst (vec_zeroize w bs)))"

definition key_locks :: "world \<Rightarrow> bytes \<Rightarrow> bool" where
  "key_locks w k \<longleftrightarrow> k \<noteq> [] \<and> mlock_rc w (locked_bytes w) (length k) = 0"

text \<open>The count of locked bytes after the key has been locked and unlocked again.\<close>

definition locked_after :: "world \<Rightarrow> bytes \<Rightarrow> nat" where
  "locked_after w k =
    (if key_locks w k then locked_bytes w + length k - length (snd (vec_zeroize w k))
     else locked_bytes w)"

definition created :: "bytes \<Rightarrow> world \<Rightarrow> world" where
  "created op w = snd (file_create op w)"

lemma file_create_run:
  "create_err w op = None \<Longrightarrow> file_create op w = (Done (Inr (out_ino w op)), created op w)"
  by (simp add: created_def file_create_def out_ino_def Let_def split: option.splits)

lemma created_fields:
  assumes "create_err w op = None"
  shows "file_frame op w (created op w)" "inodes (created op w) (out_ino w op) = []"
    and "disk_room (created op w) = disk_room w" "read_plan (created op w) = read_plan w"
    and "released (created op w) = released w" "locked_bytes (created op w) = locked_bytes w"
  using assms
  by (auto simp: created_def file_create_def out_ino_def file_frame_def fun_eq_iff Let_def
      split: option.splits)

lemma with_files_run:
  assumes "open_err w ip = None" "names w ip = Some ino" "create_err w op = None"
    and "body (fresh_io ino (out_ino w op) (created op w)) = (Done r, s)"
  shows "with_files ip op body w = (Done r, io_world (close_io s))"
proof -
  have "file_open ip w = (Done (Inr ino), w)" using assms(1,2) by (simp add: file_open_def)
  then show ?thesis
    unfolding with_files_def
    by (simp add: try_ok file_create_run [OF assms(3)] scope_drop_def assms(4))
qed

text \<open>
  One run of a frame loop between opening and closing the files. Input and output may be
  the same file; then the run sees it empty.
\<close>

lemma files_run:
  assumes "open_err w ip = None" "create_err w op = None" "no_read_fail w"
    and ino: "file_at w ip = Some data" and kp: "\<And>v. keeps body v"
    and run: "\<And>v. io_view v (if separate w ip op then data else []) [] (disk_room w) \<Longrightarrow>
        io_apart v = separate w ip op \<Longrightarrow> alloc_ok (io_world v) = alloc_ok w \<Longrightarrow>
        \<exists>s i. body v = (Done r, s) \<and> io_view s i out room"
  obtains w' where "with_files ip op body w = (Done r, w')" and "file_at w' op = Some out"
    and "file_frame op w w'" and "wiped_releases w w'" and "no_read_fail w'"
    and "disk_room w' = room" and "locked_bytes w' = locked_bytes w"
proof -
  obtain n where n: "names w ip = Some n" "inodes w n = data"
    using ino by (auto simp: file_at_def)
  note c = created_fields [OF assms(2)]
  let ?v = "fresh_io n (out_ino w op) (created op w)"
  have "inodes (created op w) n = (if separate w ip op then data else [])"
    using c(1,2) n by (auto simp: separate_def file_frame_def)
  then have "io_view ?v (if separate w ip op then data else []) [] (disk_room w)"
    using c(2-4) assms(3)
    by (simp add: io_view_def fresh_io_def br_ok_def br_remaining_def bw_defs no_read_fail_def)
  moreover have "io_apart ?v = separate w ip op" by (simp add: io_apart_def fresh_io_def separate_def n)
  moreover have "alloc_ok (io_world ?v) = alloc_ok w" using c(1) by (simp add: fresh_io_def file_frame_def)
  ultimately obtain s i where r: "body ?v = (Done r, s)" and v: "io_view s i out room"
    using run by blast
  have keep: "io_keep ?v s" using kp [of ?v] r by (simp add: keeps_def)
  let ?w = "io_world (close_io s)"
  have bw: "bw_ino (io_writer s) = out_ino w op" using keep by (simp add: io_keep_def fresh_io_def)
  have "only_file (out_ino w op) (io_world s) ?w"
    using bw_drop_only [of "io_writer s" "io_world s"] by (simp add: close_io_def bw)
  then have wk: "world_keep (out_ino w op) (created op w) ?w"
    using keep by (auto simp: io_keep_def fresh_io_def intro: world_keep_trans world_keep_only_file)
  have rd: "bw_ready (io_writer s, io_world s)" using v by (simp add: io_view_def)
  have close: "inodes ?w (out_ino w op) = out" "disk_room ?w = room" "read_plan ?w = read_plan (io_world s)"
    using bw_flush_buf_ready [OF rd] v
    by (simp_all add: close_io_def bw_drop_def bw io_view_def bw_room_def bw_accepted_def)
  show ?thesis
  proof
    show "with_files ip op body w = (Done r, ?w)" by (rule with_files_run) (fact assms(1) n(1) assms(2) r)+
    show "file_frame op w ?w"
      using c(1) wk world_keep_fields [OF wk] by (simp add: file_frame_def world_keep_def)
    then show "file_at ?w op = Some out" by (simp add: file_frame_def file_at_def close)
    show "wiped_releases w ?w"
      using c(1,5) wk by (simp add: wiped_releases_def world_keep_def file_frame_def)
    show "no_read_fail ?w" using v close(3) by (simp add: no_read_fail_def io_view_def br_ok_def)
    show "disk_room ?w = room" by (rule close)
    show "locked_bytes ?w = locked_bytes w" using world_keep_fields [OF wk] c(6) by simp
  qed
qed

text \<open>The whole body of an entry point, for a well-formed call.\<close>

lemma pinned_run:
  assumes "\<And>secret u. sec_bytes secret = k \<Longrightarrow> sec_locked secret = key_locks w k \<Longrightarrow>
      u = w\<lparr>locked_bytes := locked_bytes w + (if key_locks w k then length k else 0)\<rparr> \<Longrightarrow>
      \<exists>w1. body secret u = (Done r, w1) \<and> locked_bytes w1 = locked_bytes u \<and>
        vec_zeroize w1 = vec_zeroize w \<and> P (pinned_drop secret w1)"
  obtains w' where "with_pinned k body w = (Done r, w')" and "P w'" and "locked_bytes w' = locked_after w k"
proof -
  obtain secret u where p: "pinned_from_slice k w = (Done (Inr secret), u)" and "sec_bytes secret = k"
    and u: "u = w\<lparr>locked_bytes := locked_bytes w + (if sec_locked secret then length k else 0)\<rparr>"
    and l: "sec_locked secret \<longleftrightarrow> key_locks w k"
    unfolding key_locks_def by (rule pinned_from_slice_run)
  from assms [OF \<open>sec_bytes secret = k\<close>] l u obtain w1 where b: "body secret u = (Done r, w1)"
    and w1: "locked_bytes w1 = locked_bytes u" "vec_zeroize w1 = vec_zeroize w" "P (pinned_drop secret w1)"
    by auto
  have "with_pinned k body w = (Done r, pinned_drop secret w1)"
    using p b by (simp add: with_pinned_def try_ok scope_drop_def)
  then show ?thesis
    by (rule that)
       (use w1 u l in \<open>auto simp: pinned_drop_locked locked_after_def \<open>sec_bytes secret = k\<close>\<close>)
qed

text \<open>What the caller observes of a call that ended: the output file, and the rest of the world.\<close>

definition file_result :: "bytes \<Rightarrow> bytes \<Rightarrow> nat \<Rightarrow> world \<Rightarrow> world \<Rightarrow> bool" where
  "file_result op out room w w' \<longleftrightarrow>
     file_at w' op = Some out \<and> file_frame op w w' \<and> wiped_releases w w' \<and> no_read_fail w' \<and>
     disk_room w' = room"

lemma out_ino_locked [simp]: "out_ino (w\<lparr>locked_bytes := l\<rparr>) path = out_ino w path"
  by (simp add: out_ino_def split: option.split)

lemma file_result_start:
  "file_result op out room (w\<lparr>locked_bytes := l\<rparr>) w' = file_result op out room w w'"
  by (simp add: file_result_def file_frame_def wiped_releases_def)

lemma pinned_drop_fields2 [simp]:
  "rng (pinned_drop s w) = rng w" "hook (pinned_drop s w) = hook w"
  "panic_log (pinned_drop s w) = panic_log w" "alloc_ok (pinned_drop s w) = alloc_ok w"
  "mlock_rc (pinned_drop s w) = mlock_rc w" "open_err (pinned_drop s w) = open_err w"
  "create_err (pinned_drop s w) = create_err w" "read_plan (pinned_drop s w) = read_plan w"
  "disk_room (pinned_drop s w) = disk_room w" "next_ino (pinned_drop s w) = next_ino w"
  by (simp_all add: pinned_drop_def Let_def split: prod.splits)

lemma file_result_drop:
  assumes "file_result op out room w w1"
  shows "file_result op out room w (pinned_drop s w1)"
proof -
  obtain rs where rs: "released w1 = released w @ rs" "\<forall>r\<in>set rs. \<exists>bs. r = fst (vec_zeroize w bs)"
    and vz: "vec_zeroize w1 = vec_zeroize w"
    using assms by (auto simp: file_result_def wiped_releases_def file_frame_def)
  have "wiped_releases w (pinned_drop s w1)"
    unfolding wiped_releases_def
    by (rule exI [of _ "rs @ [fst (vec_zeroize w (sec_bytes s))]"]) (use rs vz in auto)
  moreover have "file_at (pinned_drop s w1) op = file_at w1 op" by (simp add: file_at_def)
  moreover have "file_frame op w (pinned_drop s w1) = file_frame op w w1" by (simp add: file_frame_def)
  moreover have "no_read_fail (pinned_drop s w1) = no_read_fail w1" by (simp add: no_read_fail_def)
  ultimately show ?thesis using assms by (simp add: file_result_def)
qed

lemma read_aad_run: "input_at (mem w) p n bs \<Longrightarrow> read_aad p n w = (Done bs, w)"
  by (auto simp: read_aad_def input_at_def slice_at_ok slice_at_read split: if_splits)

lemma call_run:
  assumes req: "file_request w key key_len k aad aad_len ad in_path ip out_path op data"
    and key: "unbound_key_new L alg k = ExtOk kk" and kp: "\<And>v. keeps (body kk ad) v"
    and run: "\<And>v. io_view v (if separate w ip op then data else []) [] (disk_room w) \<Longrightarrow>
        io_apart v = separate w ip op \<Longrightarrow> alloc_ok (io_world v) = alloc_ok w \<Longrightarrow>
        \<exists>s i. body kk ad v = (Done (Inr st), s) \<and> io_view s i out room"
  obtains w' where "bind_comp (from_raw_parts key key_len) (\<lambda>key_slice.
         with_pinned key_slice (\<lambda>secret.
         bind_comp (read_aad aad aad_len) (\<lambda>ad.
         try_comp (cstr_path in_path) (\<lambda>in_path.
         try_comp (cstr_path out_path) (\<lambda>out_path.
         ext_case (unbound_key_new L alg (pinned_as_slice secret)) (returns InvalidKey) (\<lambda>k.
         with_files in_path out_path (body k ad))))))) w = (Done (Inr st), w')"
    and "file_result op out room w w'" and "locked_bytes w' = locked_after w k"
proof -
  let ?inner = "\<lambda>secret. bind_comp (read_aad aad aad_len) (\<lambda>ad.
         try_comp (cstr_path in_path) (\<lambda>in_path.
         try_comp (cstr_path out_path) (\<lambda>out_path.
         ext_case (unbound_key_new L alg (pinned_as_slice secret)) (returns InvalidKey) (\<lambda>k.
         with_files in_path out_path (body k ad)))))"
  have inner: "\<exists>w1. ?inner secret u = (Done (Inr st), w1) \<and> locked_bytes w1 = locked_bytes u \<and>
        vec_zeroize w1 = vec_zeroize w \<and> file_result op out room w (pinned_drop secret w1)"
    if "sec_bytes secret = k" and "u = w\<lparr>locked_bytes := l\<rparr>" for secret u l
  proof -
    have u: "mem u = mem w" "open_err u = open_err w" "create_err u = create_err w"
      "no_read_fail u = no_read_fail w" "file_at u ip = file_at w ip" "separate u ip op = separate w ip op"
      "disk_room u = disk_room w" "alloc_ok u = alloc_ok w"
      by (simp_all add: that no_read_fail_def file_at_def separate_def)
    have req': "input_at (mem u) aad aad_len ad" "c_string (mem u) in_path = Some ip" "valid_utf8 ip"
      "c_string (mem u) out_path = Some op" "valid_utf8 op" "open_err u ip = None"
      "create_err u op = None" "no_read_fail u" "file_at u ip = Some data"
      using req by (simp_all add: file_request_def u)
    obtain w1 where w1: "with_files ip op (body kk ad) u = (Done (Inr st), w1)" "file_at w1 op = Some out"
      "file_frame op u w1" "wiped_releases u w1" "no_read_fail w1" "disk_room w1 = room"
      "locked_bytes w1 = locked_bytes u"
      by (rule files_run [OF req'(6-9) kp]) (use run in \<open>simp_all add: u\<close>)
    have "?inner secret u = (Done (Inr st), w1)"
      using w1(1) key
      by (simp add: bind_Done try_ok read_aad_run [OF req'(1)] cstr_path_run [OF req'(2,3)]
          cstr_path_run [OF req'(4,5)] pinned_as_slice_def that(1))
    moreover have "file_result op out room u w1" using w1 by (simp add: file_result_def)
    then have "file_result op out room w w1" by (simp add: that(2) file_result_start)
    moreover from this have "vec_zeroize w1 = vec_zeroize w" by (simp add: file_result_def file_frame_def)
    ultimately show ?thesis using w1(7) file_result_drop by blast
  qed
  obtain w' where w': "with_pinned k ?inner w = (Done (Inr st), w')" "file_result op out room w w'"
    "locked_bytes w' = locked_after w k"
    by (rule pinned_run [where P = "file_result op out room w" and k = k and body = ?inner])
       (rule inner)
  have "from_raw_parts key key_len w = (Done k, w)"
    using req by (intro from_raw_parts_run) (simp add: file_request_def)
  then show ?thesis by (intro that [OF _ w'(2,3)]) (simp only: bind_Done w'(1))
qed

text \<open>The entry points refine \<open>stream_seal\<close> and \<open>stream_open\<close>.\<close>

lemma file_request_not_null:
  assumes "file_request w key key_len k aad aad_len ad in_path ip out_path op data"
  shows "\<not> (is_null key \<or> is_null in_path \<or> is_null out_path \<or> (is_null aad \<and> aad_len \<noteq> 0))"
  using assms by (auto simp: file_request_def dest: input_at_null)

lemma seal_file_refines:
  assumes "file_request w key key_len k aad aad_len ad in_path ip out_path op data"
    and "stream_aead_alg aid = Some alg" "unbound_key_new L alg k = ExtOk kk"
    and "aead_correct L (unat chunk)" "chunk \<noteq> 0" "grants w (unat chunk)"
    and "length data + 1 < 2 ^ 64"
    and "pt = (if separate w ip op then data else [])"
    and "ct = stream_seal (frame_enc L kk ad) (unat chunk) pt" "length ct \<le> disk_room w"
  obtains w' where
    "pqforge_stream_seal_file L aid key key_len aad aad_len chunk in_path out_path w = (Done (code Ok), w')"
    and "file_result op ct (disk_room w - length ct) w w'" and "locked_bytes w' = locked_after w k"
proof -
  have n: "0 < unat chunk" using assms(5) by (simp add: unat_gt_0)
  have len: "length pt + 1 < 2 ^ 64" using assms(7,8) by simp
  show ?thesis
  proof (rule call_run [OF assms(1,3), of "\<lambda>k ad. seal_frames L k (unat chunk) ad" Ok ct "disk_room w - length ct"])
    fix v assume v: "io_view v (if separate w ip op then data else []) [] (disk_room w)"
      and "io_apart v = separate w ip op" "alloc_ok (io_world v) = alloc_ok w"
    then have "io_apart v \<or> pt = []" "grants (io_world v) (unat chunk)"
      using assms(6,8) by (simp_all add: grants_def)
    from v have "io_view v pt [] (disk_room w)" by (simp add: assms(8))
    then obtain s i where "seal_frames L kk (unat chunk) ad v = (Done (Inr Ok), s)"
      and "io_view s i ([] @ ct) (disk_room w - length ct)"
      using seal_frames_run [OF assms(4) n _ \<open>io_apart v \<or> pt = []\<close> \<open>grants (io_world v) (unat chunk)\<close> len, of _ _ kk ad]
        assms(9,10) by metis
    then show "\<exists>s i. seal_frames L kk (unat chunk) ad v = (Done (Inr Ok), s) \<and>
        io_view s i ct (disk_room w - length ct)" by auto
  qed (use that assms(2,5) file_request_not_null [OF assms(1)] in
      \<open>auto simp: pqforge_stream_seal_file_def stream_seal_file_body_def intro: keeps_seal_frames
         dest: boundary_ok\<close>)
qed

lemma open_file_refines:
  assumes "file_request w key key_len k aad aad_len ad in_path ip out_path op data"
    and "stream_aead_alg aid = Some alg" "unbound_key_new L alg k = ExtOk kk"
    and "aead_quiet L" "chunk \<noteq> 0" "cc = unat (chunk + of_nat TAG_LEN)" "0 < cc" "grants w cc"
    and "length data + 1 < 2 ^ 64"
    and "ct = (if separate w ip op then data else [])"
    and "stream_open (frame_dec L kk ad) cc ct = (st, rel)" "length rel \<le> disk_room w"
  obtains w' where
    "pqforge_stream_open_file L aid key key_len aad aad_len chunk in_path out_path w = (Done (code st), w')"
    and "file_result op rel (disk_room w - length rel) w w'" and "locked_bytes w' = locked_after w k"
proof -
  have len: "length ct + 1 < 2 ^ 64" using assms(9,10) by simp
  show ?thesis
  proof (rule call_run [OF assms(1,3), of "\<lambda>k ad. open_frames L k cc ad" st rel "disk_room w - length rel"])
    fix v assume v: "io_view v (if separate w ip op then data else []) [] (disk_room w)"
      and "io_apart v = separate w ip op" "alloc_ok (io_world v) = alloc_ok w"
    then have "io_apart v \<or> ct = []" "grants (io_world v) cc"
      using assms(8,10) by (simp_all add: grants_def)
    from v have "io_view v ct [] (disk_room w)" by (simp add: assms(10))
    then obtain s i where "open_frames L kk cc ad v = (Done (Inr st), s)"
      and "io_view s i ([] @ rel) (disk_room w - length rel)"
      using open_frames_run [OF assms(4,7) _ \<open>io_apart v \<or> ct = []\<close> \<open>grants (io_world v) cc\<close> len assms(11,12)]
      by metis
    then show "\<exists>s i. open_frames L kk cc ad v = (Done (Inr st), s) \<and>
        io_view s i rel (disk_room w - length rel)" by auto
  qed (use that assms(2,5,6) file_request_not_null [OF assms(1)] in
      \<open>auto simp: pqforge_stream_open_file_def stream_open_file_body_def intro: keeps_open_frames
         dest: boundary_ok\<close>)
qed

text \<open>A result as the input of the next call.\<close>

lemma file_result_fields:
  assumes "file_result op out room w w'"
  shows "mem w' = mem w" "file_at w' op = Some out" "no_read_fail w'" "disk_room w' = room"
    and "open_err w' = open_err w" "create_err w' = create_err w" "grants w' n = grants w n"
  using assms by (simp_all add: file_result_def file_frame_def grants_def)

lemma file_result_other:
  assumes "file_result op out room w w'" "separate w p op" "p \<noteq> op"
  shows "file_at w' p = file_at w p"
proof -
  have "names w' p = names w p" and "\<forall>i. i \<noteq> out_ino w op \<longrightarrow> inodes w' i = inodes w i"
    using assms(1,3) by (simp_all add: file_result_def file_frame_def)
  then show ?thesis using assms(2) by (cases "names w p") (simp_all add: file_at_def separate_def)
qed

text \<open>Inodes in use are below the next one; then a file just made is separate from another path.\<close>

definition fs_ok :: "world \<Rightarrow> bool" where
  "fs_ok w \<longleftrightarrow> (\<forall>p i. names w p = Some i \<longrightarrow> i < next_ino w)"

lemma file_result_separate:
  assumes "file_result mid out room w w'" "fs_ok w" "op \<noteq> mid"
    and "names w op = None \<or> names w op \<noteq> names w mid"
  shows "separate w' mid op"
proof -
  have n: "names w' = (names w)(mid \<mapsto> out_ino w mid)"
    and i: "next_ino w' = (if names w mid = None then Suc (next_ino w) else next_ino w)"
    using assms(1) by (simp_all add: file_result_def file_frame_def)
  show ?thesis
  proof (cases "names w op")
    case None
    then have "out_ino w' op = next_ino w'" using n assms(3) by (simp add: out_ino_def)
    moreover have "out_ino w mid < next_ino w'"
      using assms(2) by (cases "names w mid") (auto simp: i out_ino_def fs_ok_def)
    ultimately show ?thesis by (simp add: separate_def n)
  next
    case (Some j)
    then have "out_ino w' op = j" using n assms(3) by (simp add: out_ino_def)
    moreover have "out_ino w mid \<noteq> j"
      using assms(2,4) Some by (cases "names w mid") (auto simp: out_ino_def fs_ok_def)
    ultimately show ?thesis by (simp add: separate_def n)
  qed
qed

text \<open>How a call ends is how its frame loop ends, also when that is a panic or an abort.\<close>

lemma with_files_outcome:
  assumes "open_err w ip = None" "file_at w ip \<noteq> None" "create_err w op = None"
    and "\<And>v. alloc_ok (io_world v) = alloc_ok w \<Longrightarrow> fst (body v) = x"
  shows "fst (with_files ip op body w) = x"
proof -
  from assms(2) obtain n where "names w ip = Some n" by (auto simp: file_at_def)
  then have "file_open ip w = (Done (Inr n), w)" using assms(1) by (simp add: file_open_def)
  moreover have "alloc_ok (io_world (fresh_io n (out_ino w op) (created op w))) = alloc_ok w"
    using created_fields(1) [OF assms(3)] by (simp add: fresh_io_def file_frame_def)
  ultimately show ?thesis
    using assms(4) by (simp add: with_files_def try_ok file_create_run [OF assms(3)] split_beta scope_drop_outcome)
qed

lemma call_outcome:
  assumes req: "file_request w key key_len k aad aad_len ad in_path ip out_path op data"
    and key: "unbound_key_new L alg k = ExtOk kk"
    and run: "\<And>v. alloc_ok (io_world v) = alloc_ok w \<Longrightarrow> fst (body kk ad v) = x"
  shows "fst (bind_comp (from_raw_parts key key_len) (\<lambda>key_slice.
         with_pinned key_slice (\<lambda>secret.
         bind_comp (read_aad aad aad_len) (\<lambda>ad.
         try_comp (cstr_path in_path) (\<lambda>in_path.
         try_comp (cstr_path out_path) (\<lambda>out_path.
         ext_case (unbound_key_new L alg (pinned_as_slice secret)) (returns InvalidKey) (\<lambda>k.
         with_files in_path out_path (body k ad))))))) w) = x"
proof -
  obtain secret u where p: "pinned_from_slice k w = (Done (Inr secret), u)" and s: "sec_bytes secret = k"
    and u: "u = w\<lparr>locked_bytes := locked_bytes w + (if sec_locked secret then length k else 0)\<rparr>"
    by (rule pinned_from_slice_run)
  have m: "mem u = mem w" "open_err u = open_err w" "create_err u = create_err w" "file_at u = file_at w"
    "alloc_ok u = alloc_ok w"
    by (simp_all add: u file_at_def fun_eq_iff)
  have raw: "from_raw_parts key key_len w = (Done k, w)"
    using req by (intro from_raw_parts_run) (simp add: file_request_def)
  have aad: "read_aad aad aad_len u = (Done ad, u)" using req by (simp add: read_aad_run file_request_def m)
  have paths: "cstr_path in_path u = (Done (Inr ip), u)" "cstr_path out_path u = (Done (Inr op), u)"
    using req by (simp_all add: cstr_path_run file_request_def m)
  have "fst (with_files ip op (body kk ad) u) = x"
    by (rule with_files_outcome) (use req run in \<open>simp_all add: file_request_def m\<close>)
  then show ?thesis
    using p s by (simp add: bind_Done try_ok raw aad paths with_pinned_def scope_drop_outcome
        pinned_as_slice_def key)
qed

lemma boundary_outcome:
  "fst (body w) = Panic p \<Longrightarrow> fst (boundary body w) = Done (code Internal)"
  "fst (body w) = Abort \<Longrightarrow> fst (boundary body w) = Abort"
  by (cases "body w"; simp add: boundary_def guard_def bind_comp_def finish_def)+

lemma read_block_stops:
  "isize_max < n \<Longrightarrow> fst (try_comp (read_block n) k s) = Panic (StrPayload ''capacity overflow'')"
  "n \<le> isize_max \<Longrightarrow> \<not> alloc_ok (io_world s) n \<Longrightarrow> fst (try_comp (read_block n) k s) = Abort"
  by (simp_all add: read_block_def io_alloc_zeroed_def alloc_zeroed_def bind_comp_def try_comp_def)

lemma seal_file_stops:
  assumes req: "file_request w key key_len k aad aad_len ad in_path ip out_path op data"
    and lib: "stream_aead_alg aid = Some alg" "unbound_key_new L alg k = ExtOk kk" and "chunk \<noteq> 0"
  shows "isize_max < unat chunk \<Longrightarrow>
      fst (pqforge_stream_seal_file L aid key key_len aad aad_len chunk in_path out_path w) = Done (code Internal)"
    and "unat chunk \<le> isize_max \<Longrightarrow> \<not> alloc_ok w (unat chunk) \<Longrightarrow>
      fst (pqforge_stream_seal_file L aid key key_len aad aad_len chunk in_path out_path w) = Abort"
proof -
  let ?body = "stream_seal_file_body L aid key key_len aad aad_len chunk in_path out_path"
  have body: "fst (?body w) = x"
    if "\<And>v. alloc_ok (io_world v) = alloc_ok w \<Longrightarrow> fst (seal_frames L kk (unat chunk) ad v) = x" for x
    using call_outcome [OF req lib(2), of "\<lambda>k ad. seal_frames L k (unat chunk) ad" x] that
      file_request_not_null [OF req] lib(1) \<open>chunk \<noteq> 0\<close>
    by (auto simp: stream_seal_file_body_def)
  show "isize_max < unat chunk \<Longrightarrow>
      fst (pqforge_stream_seal_file L aid key key_len aad aad_len chunk in_path out_path w) = Done (code Internal)"
    unfolding pqforge_stream_seal_file_def
    by (rule boundary_outcome(1), rule body, simp only: seal_frames_def, rule read_block_stops(1))
  show "unat chunk \<le> isize_max \<Longrightarrow> \<not> alloc_ok w (unat chunk) \<Longrightarrow>
      fst (pqforge_stream_seal_file L aid key key_len aad aad_len chunk in_path out_path w) = Abort"
    unfolding pqforge_stream_seal_file_def
    by (rule boundary_outcome(2), rule body, simp only: seal_frames_def, rule read_block_stops(2)) simp_all
qed

section \<open>What any call leaves alone\<close>

text \<open>
  \<open>touches p ino\<close>: the caller's memory, every file but \<open>ino\<close> and every name but \<open>p\<close> are as before. Unlike the
  refinement this needs no assumption: it holds for calls that fail, panic or abort.
\<close>

definition touches :: "bytes \<Rightarrow> nat \<Rightarrow> world \<Rightarrow> world \<Rightarrow> bool" where
  "touches p ino w w' \<longleftrightarrow> mem w' = mem w \<and> (\<forall>i. i \<noteq> ino \<longrightarrow> inodes w' i = inodes w i) \<and>
     (\<forall>q. q \<noteq> p \<longrightarrow> names w' q = names w q)"

definition touch :: "bytes \<Rightarrow> nat \<Rightarrow> (world, 'a) comp \<Rightarrow> world \<Rightarrow> bool" where
  "touch p ino m w \<longleftrightarrow> touches p ino w (snd (m w))"

named_theorems touch_intros \<open>composition of \<open>touch\<close>\<close>

lemma touches_refl [simp]: "touches pth ino w w"
  by (simp add: touches_def)

lemma touches_trans: "touches pth ino w w' \<Longrightarrow> touches pth ino w' w'' \<Longrightarrow> touches pth ino w w''"
  by (simp add: touches_def)

lemma touch_ret [touch_intros]: "touch pth ino (ret x) w" "touch pth ino (returns s) w" "touch pth ino (fails e) w"
  by (simp_all add: touch_def)

lemma touch_bind [touch_intros]:
  "touch pth ino m w \<Longrightarrow> (\<And>x w'. m w = (Done x, w') \<Longrightarrow> touch pth ino (k x) w') \<Longrightarrow> touch pth ino (bind_comp m k) w"
  by (cases "m w"; cases "fst (m w)") (auto simp: touch_def bind_comp_def intro: touches_trans)

lemma touch_try [touch_intros]:
  "touch pth ino m w \<Longrightarrow> (\<And>x w'. m w = (Done (Inr x), w') \<Longrightarrow> touch pth ino (k x) w') \<Longrightarrow> touch pth ino (try_comp m k) w"
  unfolding try_comp_def by (rule touch_bind) (auto intro: touch_ret split: sum.splits)

lemma touch_ext [touch_intros]:
  "touch pth ino e w \<Longrightarrow> (\<And>x. touch pth ino (k x) w) \<Longrightarrow> touch pth ino (ext_case r e k) w"
  by (cases r) (simp_all add: touch_def)

lemma touch_same:
  "snd (m w) = w \<Longrightarrow> touch pth ino m w"
  by (simp add: touch_def)

lemma touch_inputs [touch_intros]:
  "touch pth ino (from_raw_parts p n) w" "touch pth ino (read_aad p n) w" "touch pth ino (cstr_path p) w"
  by (rule touch_same; simp add: from_raw_parts_def read_aad_def cstr_path_def split: option.split)+

lemma touch_pinned:
  assumes "\<And>s u. u = w\<lparr>locked_bytes := locked_bytes u\<rparr> \<Longrightarrow> touch pth ino (body s) u"
  shows "touch pth ino (with_pinned k body) w"
proof -
  obtain s u where p: "pinned_from_slice k w = (Done (Inr s), u)"
    and u: "u = w\<lparr>locked_bytes := locked_bytes w + (if sec_locked s then length k else 0)\<rparr>"
    by (rule pinned_from_slice_run)
  have "touch pth ino (body s) u" by (rule assms) (simp add: u)
  then have "touches pth ino w (snd (body s u))" by (simp add: touch_def touches_def u)
  moreover have "touches pth ino x (pinned_drop s x)" for x by (simp add: touches_def)
  ultimately show ?thesis
    using p by (cases "body s u"; cases "fst (body s u)")
      (auto simp: touch_def with_pinned_def try_ok scope_drop_def intro: touches_trans)
qed

lemma file_create_touches: "touches op (out_ino w op) w (snd (file_create op w))"
  by (auto simp: file_create_def touches_def out_ino_def Let_def split: option.splits)

lemma world_keep_others: "world_keep ino w w' \<Longrightarrow> i \<noteq> ino \<Longrightarrow> inodes w' i = inodes w i"
  by (simp add: world_keep_def)

lemma world_keep_touches: "world_keep ino w w' \<Longrightarrow> touches pth ino w w'"
  unfolding touches_def by (auto simp: world_keep_fields world_keep_others)

lemma scope_drop_state: "snd (scope_drop m d s) = snd (m s) \<or> snd (scope_drop m d s) = d (snd (m s))"
  by (simp add: scope_drop_def split: prod.splits outcome.splits)

lemma touch_with_files:
  assumes "\<And>v. keeps body v"
  shows "touch op (out_ino w op) (with_files ip op body) w"
proof -
  have open_same: "w' = w" if "file_open ip w = (x, w')" for x w'
    using that by (auto simp: file_open_def split: option.splits)
  have run: "touches op (out_ino w op) w2
      (io_world (snd (scope_drop body close_io (fresh_io n (out_ino w op) w2))))" for n w2
  proof -
    let ?v = "fresh_io n (out_ino w op) w2"
    have k: "io_keep ?v (snd (body ?v))" using assms [of ?v] by (simp add: keeps_def)
    have "world_keep (out_ino w op) (io_world s) (io_world (close_io s))" if "bw_ino (io_writer s) = out_ino w op" for s
      using bw_drop_only [of "io_writer s" "io_world s"] that by (simp add: close_io_def world_keep_only_file)
    with k have "world_keep (out_ino w op) w2 (io_world (close_io (snd (body ?v))))"
      and "world_keep (out_ino w op) w2 (io_world (snd (body ?v)))"
      by (auto simp: io_keep_def fresh_io_def intro: world_keep_trans)
    then have "touches op (out_ino w op) w2 (io_world (close_io (snd (body ?v))))"
      and "touches op (out_ino w op) w2 (io_world (snd (body ?v)))"
      by (simp_all add: world_keep_touches)
    then show ?thesis using scope_drop_state [of body close_io ?v] by auto
  qed
  have created_same: "x = out_ino w op" if "file_create op w = (Done (Inr x), w2)" for x w2
    using that by (auto simp: file_create_def out_ino_def Let_def split: option.splits)
  show ?thesis
    unfolding with_files_def
  proof (rule touch_try)
    show "touch op (out_ino w op) (file_open ip) w"
      by (rule touch_same) (use open_same in \<open>cases "file_open ip w"; simp\<close>)
    fix n w1 assume "file_open ip w = (Done (Inr n), w1)"
    then have [simp]: "w1 = w" by (rule open_same)
    show "touch op (out_ino w op) (try_comp (file_create op) (\<lambda>out_ino w.
        case scope_drop body close_io (fresh_io n out_ino w) of (r, s) \<Rightarrow> (r, io_world s))) w1"
      using run by (intro touch_try) (auto simp: touch_def file_create_touches split_beta dest!: created_same)
  qed
qed

lemma touch_call:
  assumes "c_string (mem w) out_path = Some op" "\<And>k ad v. keeps (body k ad) v"
  shows "touch op (out_ino w op) (bind_comp (from_raw_parts key key_len) (\<lambda>key_slice.
         with_pinned key_slice (\<lambda>secret.
         bind_comp (read_aad aad aad_len) (\<lambda>ad.
         try_comp (cstr_path in_path) (\<lambda>in_path.
         try_comp (cstr_path out_path) (\<lambda>out_path.
         ext_case (unbound_key_new L alg (pinned_as_slice secret)) (returns InvalidKey) (\<lambda>k.
         with_files in_path out_path (body k ad)))))))) w"
proof (rule touch_bind [OF touch_inputs(1)], rule touch_pinned)
  fix x w1 s u
  assume "from_raw_parts key key_len w = (Done x, w1)" and u: "u = w1\<lparr>locked_bytes := locked_bytes u\<rparr>"
  then have "w1 = w" by simp
  then obtain l where l: "u = w\<lparr>locked_bytes := l\<rparr>" using u by blast
  have op: "y = op" "w' = u" if "cstr_path out_path u = (Done (Inr y), w')" for y w'
    using that assms(1) by (auto simp: cstr_path_def l split: if_splits)
  have "touch op (out_ino u op) (with_files i op (body k ad)) u" for i k ad
    by (rule touch_with_files) (rule assms(2))
  moreover have "out_ino u op = out_ino w op" by (simp add: l out_ino_def split: option.split)
  ultimately have files: "touch op (out_ino w op) (with_files i op (body k ad)) u" for i k ad by simp
  show "touch op (out_ino w op) (bind_comp (read_aad aad aad_len) (\<lambda>ad.
         try_comp (cstr_path in_path) (\<lambda>in_path.
         try_comp (cstr_path out_path) (\<lambda>out_path.
         ext_case (unbound_key_new L alg (pinned_as_slice s)) (returns InvalidKey) (\<lambda>k.
         with_files in_path out_path (body k ad)))))) u"
  proof (intro touch_bind [OF touch_inputs(2)] touch_try [OF touch_inputs(3)] touch_ext touch_ret)
    fix ad u1 i u2 y u3 k
    assume "read_aad aad aad_len u = (Done ad, u1)" "cstr_path in_path u1 = (Done (Inr i), u2)"
      and out: "cstr_path out_path u2 = (Done (Inr y), u3)"
    then have "u1 = u" "u2 = u" by (auto dest: read_aad_Done cstr_path_Done)
    with out show "touch op (out_ino w op) (with_files i y (body k ad)) u3"
      using op [of y u3] files by simp
  qed
qed

lemma touch_boundary: "touch pth ino body w \<Longrightarrow> touch pth ino (boundary body) w"
  by (cases "body w"; cases "fst (body w)")
     (auto simp: touch_def touches_def boundary_def guard_def bind_comp_def run_hook_def split: panic_hook.splits)

lemma touch_branches:
  "(x = None \<Longrightarrow> touch pth ino f w) \<Longrightarrow> (\<And>y. x = Some y \<Longrightarrow> touch pth ino (g y) w) \<Longrightarrow>
     touch pth ino (case x of None \<Rightarrow> f | Some y \<Rightarrow> g y) w"
  "(b \<Longrightarrow> touch pth ino f w) \<Longrightarrow> (\<not> b \<Longrightarrow> touch pth ino h w) \<Longrightarrow> touch pth ino (if b then f else h) w"
  by (auto split: option.splits)

lemma seal_file_touch:
  assumes "c_string (mem w) out_path = Some op"
  shows "touch op (out_ino w op) (pqforge_stream_seal_file L aid key key_len aad aad_len chunk in_path out_path) w"
  unfolding pqforge_stream_seal_file_def stream_seal_file_body_def
  by (intro touch_boundary touch_branches touch_ret touch_call [OF assms] keeps_seal_frames)

lemma open_file_touch:
  assumes "c_string (mem w) out_path = Some op"
  shows "touch op (out_ino w op) (pqforge_stream_open_file L aid key key_len aad aad_len chunk in_path out_path) w"
  unfolding pqforge_stream_open_file_def stream_open_file_body_def
  by (intro touch_boundary touch_branches touch_ret touch_call [OF assms] keeps_open_frames)

text \<open>
  An unknown algorithm, a null argument and a chunk size of 0 are refused in
  this order, with \<open>InvalidKey\<close>, \<open>NullArgument\<close> and \<open>Unaligned\<close>, before any file is opened
  or created and with the state unchanged.
\<close>

lemma stream_refusals:
  "(\<forall>run \<in> {pqforge_stream_seal_file L aid key kl aad al chunk inp outp,
      pqforge_stream_open_file L aid key kl aad al chunk inp outp}.
     (stream_aead_alg aid = None \<longrightarrow> run w = (Done (code InvalidKey), w)) \<and>
     (stream_aead_alg aid \<noteq> None \<and> (is_null key \<or> is_null inp \<or> is_null outp \<or> is_null aad \<and> al \<noteq> 0) \<longrightarrow>
        run w = (Done (code NullArgument), w)) \<and>
     (stream_aead_alg aid \<noteq> None \<and> \<not> (is_null key \<or> is_null inp \<or> is_null outp \<or> is_null aad \<and> al \<noteq> 0) \<and>
        chunk = 0 \<longrightarrow> run w = (Done (code Unaligned), w)))"
  by (auto simp: pqforge_stream_seal_file_def pqforge_stream_open_file_def stream_seal_file_body_def
      stream_open_file_body_def boundary_returns split: option.splits)

end
