(* ===== verification/File_State.thy ===== *)
theory File_State
  imports Ffi_Caller Stream_File
begin

text \<open>
  A file system on which calls succeed, as a caller of the file entry points sees it: the
  files by their paths, what one call changes of them, and paths passed as C strings. The
  unit tests and the Dart file cipher run on it.
\<close>

section \<open>A healthy file system\<close>

text \<open>
  Every open succeeds, reads do not fail, blocks of up to 100 bytes can be allocated, and
  no file has two names. \<open>files_are s F n\<close>: the files are \<open>F\<close> and the disk takes \<open>n\<close> bytes.
\<close>

definition healthy :: "world \<Rightarrow> bool" where
  "healthy w \<longleftrightarrow> fs_ok w \<and> no_read_fail w \<and> (\<forall>p. open_err w p = None) \<and> (\<forall>p. create_err w p = None) \<and>
     (\<forall>n\<le>100. grants w n) \<and> (\<forall>p q i. names w p = Some i \<longrightarrow> names w q = Some i \<longrightarrow> p = q)"

definition files_are :: "ffi_caller \<Rightarrow> (bytes \<Rightarrow> bytes option) \<Rightarrow> nat \<Rightarrow> bool" where
  "files_are s F n \<longleftrightarrow> t_ok s \<and> t_top s \<le> 2 ^ 63 \<and> healthy (t_world s) \<and>
     file_at (t_world s) = F \<and> n \<le> disk_room (t_world s)"

text \<open>\<open>leaves m s x F n\<close>: the step returns \<open>x\<close> and leaves the files \<open>F\<close>.\<close>

definition leaves :: "'a ffi \<Rightarrow> ffi_caller \<Rightarrow> 'a \<Rightarrow> (bytes \<Rightarrow> bytes option) \<Rightarrow> nat \<Rightarrow> bool" where
  "leaves m s x F n \<longleftrightarrow> (\<exists>s'. m s = (Done x, s') \<and> files_are s' F n)"

lemma leaves_bind:
  "leaves m s x F n \<Longrightarrow> (\<And>s'. files_are s' F n \<Longrightarrow> leaves (k x) s' y G l) \<Longrightarrow> leaves (bind_comp m k) s y G l"
  by (auto simp: leaves_def run_simps)

lemma leaves_ret: "files_are s F n \<Longrightarrow> leaves (ret x) s x F n" "files_are s F n \<Longrightarrow> leaves (Pair (Done x)) s x F n"
  by (simp_all add: leaves_def)

lemma leaves_world:
  assumes "f (t_world s) = (Done x, w)" "files_are s F n" "healthy w" "file_at w = G" "m \<le> disk_room w"
  shows "leaves (ffi_call f) s x G m"
  using assms by (simp add: leaves_def ffi_call_def files_are_def t_ok_def)

lemma file_frame_files:
  assumes "healthy w" "file_frame p w w'" "file_at w' p = Some bs"
  shows "file_at w' = (file_at w)(p := Some bs)" "names w' q = Some i \<Longrightarrow> names w' q' = Some i \<Longrightarrow> q = q'" "fs_ok w'"
proof -
  let ?o = "out_ino w p"
  have n: "names w' = (names w)(p \<mapsto> ?o)" and i: "\<And>i. i \<noteq> ?o \<Longrightarrow> inodes w' i = inodes w i"
    and nx: "next_ino w' = (if names w p = None then Suc (next_ino w) else next_ino w)"
    using assms(2) by (simp_all add: file_frame_def)
  have other: "names w q \<noteq> Some ?o" if "q \<noteq> p" for q
    using that assms(1) by (auto simp: healthy_def out_ino_def fs_ok_def split: option.splits)
  show "file_at w' = (file_at w)(p := Some bs)"
  proof
    fix q show "file_at w' q = ((file_at w)(p := Some bs)) q"
    proof (cases "q = p")
      case False
      then have "names w' q = names w q" using n by simp
      then show ?thesis using False other [OF False] i by (cases "names w q") (auto simp: file_at_def)
    qed (simp add: assms(3))
  qed
  show "names w' q = Some i \<Longrightarrow> names w' q' = Some i \<Longrightarrow> q = q'"
    using assms(1) other by (auto simp: n healthy_def split: if_splits)
  show "fs_ok w'"
    using assms(1) by (auto simp: fs_ok_def n nx healthy_def out_ino_def split: if_splits option.splits)
      (metis less_SucI)
qed

lemma healthy_fields:
  assumes "healthy w"
  shows "fs_ok w" "no_read_fail w" "open_err w p = None" "create_err w p = None" "n \<le> 100 \<Longrightarrow> grants w n"
  using assms by (simp_all add: healthy_def)

text \<open>A step that makes or rewrites one file and leaves the rest keeps the file system healthy.\<close>

lemma healthy_frame:
  assumes "healthy w" "file_frame p w w'" "file_at w' p = Some bs" "no_read_fail w'"
  shows "healthy w'"
proof -
  have "grants w' n = grants w n" for n using assms(2) by (simp add: grants_def file_frame_def)
  moreover have "open_err w' = open_err w" "create_err w' = create_err w" using assms(2) by (simp_all add: file_frame_def)
  ultimately show ?thesis
    using file_frame_files(2,3) [OF assms(1-3)] assms(1,4) unfolding healthy_def by metis
qed

section \<open>Paths in memory\<close>

lemma c_string_at:
  "bytes_at m p (bs @ [0]) \<Longrightarrow> 0 \<notin> set bs \<Longrightarrow> p + length bs < 2 ^ 64 \<Longrightarrow> c_string m p = Some bs"
proof (induction bs arbitrary: p)
  case Nil
  then show ?case by (subst c_string.simps) simp
next
  case (Cons b bs)
  then have "c_string m (Suc p) = Some bs" by simp
  with Cons.prems show ?case by (subst c_string.simps) simp
qed

lemma place_all_top: "place_all xs s = (Done ps, s') \<Longrightarrow> t_top s' = t_top s + sum_list (map (heap_room \<circ> length) xs)"
proof (induction xs arbitrary: s ps)
  case (Cons x xs)
  from Cons.prems obtain p s1 qs where 1: "vec_new x s = (Done p, s1)" and 2: "place_all xs s1 = (Done qs, s')"
    by (auto simp: vec_new_def bind_comp_def split: prod.splits outcome.splits)
  from 1 have "t_top s1 = t_top s + heap_room (length x)" by (auto simp: vec_new_def)
  with Cons.IH [OF 2] show ?case by simp
qed simp

definition usable_path :: "bytes \<Rightarrow> bool" where
  "usable_path p \<longleftrightarrow> valid_utf8 p \<and> 0 \<notin> set p \<and> length p \<le> 4096"

lemma request_of:
  assumes "healthy w" "file_at w ip = Some data" "usable_path ip" "usable_path op"
    and "slice_at (mem w) k (of_nat (length key)) key" "\<not> is_null i" "c_string (mem w) i = Some ip"
    and "\<not> is_null j" "c_string (mem w) j = Some op"
  shows "file_request w k (of_nat (length key)) key 0 0 [] i ip j op data"
  using assms by (simp add: file_request_def input_at_def healthy_def usable_path_def)

lemma separate_of:
  assumes "healthy w" "file_at w ip \<noteq> None" "op \<noteq> ip"
  shows "separate w ip op"
  using assms by (auto simp: separate_def out_ino_def healthy_def fs_ok_def file_at_def split: option.splits)

end
