(* ===== verification/Test_Files.thy ===== *)
theory Test_Files
  imports Test_Abi Test_Aead File_State
begin

text \<open>
  The unit tests of \<open>crypto/stream_file.rs\<close>: files written by the test, sealed to a second
  path, opened to a third and read back. The temporary directory is a parameter.
\<close>

section \<open>What the tests use of the standard library\<close>

fun decimal :: "nat \<Rightarrow> bytes" where
  "decimal n = (if n < 10 then [of_nat (48 + n)] else decimal (n div 10) @ [of_nat (48 + n mod 10)])"

declare decimal.simps [simp del]

text \<open>\<open>PathBuf::push\<close> of a relative path.\<close>

definition path_push :: "bytes \<Rightarrow> bytes \<Rightarrow> bytes" where
  "path_push dir name = (if dir = [] \<or> last dir = 47 then dir @ name else dir @ [47] @ name)"

definition cstring_new :: "bytes \<Rightarrow> bytes test" where
  "cstring_new path = (if valid_utf8 path \<and> 0 \<notin> set path then ret (path @ [0])
     else (\<lambda>s. (Panic (StringPayload ''called unwrap on a None or an Err value''), s)))"

definition create_and_write :: "bytes \<Rightarrow> bytes \<Rightarrow> unit test" where
  "create_and_write path bs =
    bind_comp (ffi_call (file_create path)) (\<lambda>r.
    bind_comp (unwrap r) (\<lambda>ino.
    bind_comp (ffi_call (\<lambda>w. case disk_append ino bs w of (r, w') \<Rightarrow> (Done (lift_err r), w'))) (\<lambda>r.
    bind_comp (unwrap r) (\<lambda>_. ret ()))))"

text \<open>Reads until one comes back empty.\<close>

function read_to_end :: "nat \<Rightarrow> nat \<Rightarrow> world \<Rightarrow> (io_error + bytes) \<times> world" where
  "read_to_end ino pos w =
    (case file_read ino pos IO_BUF w of
       (Inl e, w') \<Rightarrow> (Inl e, w')
     | (Inr bs, w') \<Rightarrow>
       if bs = [] then (Inr [], w')
       else case read_to_end ino (pos + length bs) w' of
           (Inl e, w'') \<Rightarrow> (Inl e, w'')
         | (Inr rest, w'') \<Rightarrow> (Inr (bs @ rest), w''))"
  by pat_completeness auto
termination
  by (relation "measure (\<lambda>(ino, pos, w). length (inodes w ino) - pos)")
     (auto simp: file_read_def Let_def split: list.splits read_event.splits)

declare read_to_end.simps [simp del]

definition open_and_read :: "bytes \<Rightarrow> bytes test" where
  "open_and_read path =
    bind_comp (ffi_call (file_open path)) (\<lambda>r.
    bind_comp (unwrap r) (\<lambda>ino.
    bind_comp (ffi_call (\<lambda>w. case read_to_end ino 0 w of (r, w') \<Rightarrow> (Done (lift_err r), w'))) (\<lambda>r.
    unwrap r)))"

text \<open>Its result is ignored.\<close>

definition remove_file :: "bytes \<Rightarrow> unit test" where
  "remove_file path = ffi_call (\<lambda>w. (Done (), w\<lparr>names := (names w)(path := None)\<rparr>))"

section \<open>Helpers and tests\<close>

definition test_tmp :: "bytes \<Rightarrow> nat \<Rightarrow> bytes \<Rightarrow> bytes" where
  "test_tmp dir pid name =
    path_push dir (ascii_bytes ''pqforge_sf_'' @ decimal pid @ ascii_bytes ''_'' @ name)"

definition file_test_seal :: "'k aead_lib \<Rightarrow> c_int \<Rightarrow> bytes \<Rightarrow> nat \<Rightarrow> bytes \<Rightarrow> bytes \<Rightarrow> c_int test" where
  "file_test_seal L alg key chunk input output =
    freeing (
      bind_comp (cstring_new input) (\<lambda>i.
      bind_comp (cstring_new output) (\<lambda>out.
      call0 [key, i, out] (\<lambda>ps.
        pqforge_stream_seal_file L alg (ps ! 0) (of_nat (length key)) 0 0 (of_nat chunk) (ps ! 1) (ps ! 2)))))"

definition file_test_open :: "'k aead_lib \<Rightarrow> c_int \<Rightarrow> bytes \<Rightarrow> nat \<Rightarrow> bytes \<Rightarrow> bytes \<Rightarrow> c_int test" where
  "file_test_open L alg key chunk input output =
    freeing (
      bind_comp (cstring_new input) (\<lambda>i.
      bind_comp (cstring_new output) (\<lambda>out.
      call0 [key, i, out] (\<lambda>ps.
        pqforge_stream_open_file L alg (ps ! 0) (of_nat (length key)) 0 0 (of_nat chunk) (ps ! 1) (ps ! 2)))))"

text \<open>One turn of the loop over the sizes, and the loop.\<close>

definition round_trip_of_size :: "'k aead_lib \<Rightarrow> bytes \<Rightarrow> nat \<Rightarrow> nat \<Rightarrow> unit test" where
  "round_trip_of_size L dir pid sz =
    (let key = replicate 32 5; chunk = 64;
         plain = map (\<lambda>i. of_nat (i * 31 + 7)) [0..<sz];
         pin = test_tmp dir pid (ascii_bytes ''in_'' @ decimal sz);
         enc = test_tmp dir pid (ascii_bytes ''enc_'' @ decimal sz);
         dec = test_tmp dir pid (ascii_bytes ''dec_'' @ decimal sz)
     in bind_comp (create_and_write pin plain) (\<lambda>_.
        bind_comp (file_test_seal L 0 key chunk pin enc) (\<lambda>rc.
        bind_comp (assert_that (rc = code Ok)) (\<lambda>_.
        bind_comp (file_test_open L 0 key chunk enc dec) (\<lambda>rc.
        bind_comp (assert_that (rc = code Ok)) (\<lambda>_.
        bind_comp (open_and_read dec) (\<lambda>out.
        bind_comp (assert_that (out = plain)) (\<lambda>_.
        for_each [pin, enc, dec] remove_file))))))))"

definition seal_open_file_round_trip_various_sizes :: "'k aead_lib \<Rightarrow> bytes \<Rightarrow> nat \<Rightarrow> unit test" where
  "seal_open_file_round_trip_various_sizes L dir pid =
    for_each [0, 1, 63, 64, 65, 200, 4096] (round_trip_of_size L dir pid)"

definition tampered_file_fails_authentication :: "'k aead_lib \<Rightarrow> bytes \<Rightarrow> nat \<Rightarrow> unit test" where
  "tampered_file_fails_authentication L dir pid =
    (let key = replicate 32 6; pin = test_tmp dir pid (ascii_bytes ''tamper_in''); enc = test_tmp dir pid (ascii_bytes ''tamper_enc'');
         dec = test_tmp dir pid (ascii_bytes ''tamper_dec'')
     in bind_comp (create_and_write pin (replicate 300 9)) (\<lambda>_.
        bind_comp (file_test_seal L 1 key 64 pin enc) (\<lambda>rc.
        bind_comp (assert_that (rc = code Ok)) (\<lambda>_.
        bind_comp (open_and_read enc) (\<lambda>data.
        bind_comp (xor_at 5 data) (\<lambda>data.
        bind_comp (create_and_write enc data) (\<lambda>_.
        bind_comp (file_test_open L 1 key 64 enc dec) (\<lambda>rc.
        bind_comp (assert_that (rc = code AuthFailed)) (\<lambda>_.
        for_each [pin, enc, dec] remove_file)))))))))"

lemma passes_leaves:
  "leaves m s x F n \<Longrightarrow> (\<And>s'. files_are s' F n \<Longrightarrow> passes (k x) s' \<longleftrightarrow> P) \<Longrightarrow> passes (bind_comp m k) s \<longleftrightarrow> P"
  by (auto simp: leaves_def passes_def run_simps)

section \<open>The steps\<close>

lemma leaves_create_and_write:
  assumes "files_are s F n" "length bs \<le> n"
  shows "leaves (create_and_write p bs) s () (F(p := Some bs)) (n - length bs)"
proof -
  let ?w = "t_world s"
  have h: "healthy ?w" and F: "file_at ?w = F" and n: "n \<le> disk_room ?w" using assms(1) by (simp_all add: files_are_def)
  note ce = healthy_fields(4) [OF h, of p]
  note cf = created_fields [OF ce]
  let ?w1 = "created p ?w"
  have at1: "file_at ?w1 p = Some []"
    using cf(1,2) by (simp add: file_at_def file_frame_def)
  have h1: "healthy ?w1"
    by (rule healthy_frame [OF h cf(1) at1]) (use healthy_fields(2) [OF h] cf(4) in \<open>simp add: no_read_fail_def\<close>)
  have F1: "file_at ?w1 = F(p := Some [])" using file_frame_files(1) [OF h cf(1) at1] F by simp
  let ?o = "out_ino ?w p"
  let ?w2 = "?w1\<lparr>inodes := (inodes ?w1)(?o := bs), disk_room := disk_room ?w1 - length bs\<rparr>"
  have app: "disk_append ?o bs ?w1 = (Inr (), ?w2)"
    using cf(2,3) assms(2) n by (simp add: disk_append_def Let_def)
  have n1: "names ?w1 p = Some ?o" using cf(1) by (simp add: file_frame_def)
  have "file_at ?w2 q = (F(p := Some bs)) q" for q
  proof (cases "q = p")
    case False
    then have "names ?w1 q \<noteq> Some ?o" using h1 n1 by (auto simp: healthy_def)
    moreover have "file_at ?w1 q = F q" using F1 False by simp
    ultimately show ?thesis using False by (cases "names ?w1 q") (auto simp: file_at_def)
  qed (simp add: file_at_def n1)
  then have F2: "file_at ?w2 = F(p := Some bs)" by (rule ext)
  have h2: "healthy ?w2" using h1 by (simp add: healthy_def fs_ok_def no_read_fail_def grants_def)
  have 1: "leaves (ffi_call (file_create p)) s (Inr ?o) (F(p := Some [])) n"
    by (rule leaves_world [where w = ?w1]) (use file_create_run [OF ce] assms(1) h1 F1 n cf(3) in simp_all)
  have s1: "ffi_call (file_create p) s = (Done (Inr ?o), s\<lparr>t_world := ?w1\<rparr>)"
    by (simp add: ffi_call_def file_create_run [OF ce])
  have "files_are (s\<lparr>t_world := ?w1\<rparr>) (F(p := Some [])) n"
    using 1 s1 by (auto simp: leaves_def)
  then have 2: "leaves (ffi_call (\<lambda>w. case disk_append ?o bs w of (r, w') \<Rightarrow> (Done (lift_err r), w')))
      (s\<lparr>t_world := ?w1\<rparr>) (Inr ()) (F(p := Some bs)) (n - length bs)"
    by (rule leaves_world [rotated, OF _ h2 F2]) (use n cf(3) app in \<open>simp_all add: lift_err_def\<close>)
  show ?thesis
    using s1 2 by (auto simp: create_and_write_def leaves_def run_simps)
qed

lemma read_to_end_run:
  "no_read_fail w \<Longrightarrow> \<exists>w'. read_to_end ino pos w = (Inr (drop pos (inodes w ino)), w') \<and>
     no_read_fail w' \<and> w' = w\<lparr>read_plan := read_plan w'\<rparr>"
proof (induction ino pos w rule: read_to_end.induct)
  case (1 ino pos w)
  have pl: "list_all (\<lambda>e. case e of ReadFail _ \<Rightarrow> False | ReadShort _ \<Rightarrow> True) (read_plan w)"
    using "1.prems" by (simp add: no_read_fail_def)
  have "0 < IO_BUF" by (simp add: IO_BUF_def)
  from file_read_ok [OF pl this] obtain k where k: "0 < k" and
    f: "file_read ino pos IO_BUF w = (Inr (take k (drop pos (inodes w ino))), w\<lparr>read_plan := tl (read_plan w)\<rparr>)"
    by metis
  let ?bs = "take k (drop pos (inodes w ino))" and ?w1 = "w\<lparr>read_plan := tl (read_plan w)\<rparr>"
  have ok: "no_read_fail ?w1" using pl by (cases "read_plan w") (auto simp: no_read_fail_def)
  show ?case
  proof (cases "?bs = []")
    case True
    with f k ok show ?thesis by (subst read_to_end.simps) (auto intro: exI [of _ ?w1])
  next
    case False
    from "1.IH" [OF f [symmetric] refl False ok] obtain w' where
      r: "read_to_end ino (pos + length ?bs) ?w1 = (Inr (drop (pos + length ?bs) (inodes w ino)), w')"
      and w': "no_read_fail w'" "w' = ?w1\<lparr>read_plan := read_plan w'\<rparr>" by auto
    have "?bs @ drop (pos + length ?bs) (inodes w ino) = drop pos (inodes w ino)"
      by (metis append_take_drop_id append_eq_conv_conj drop_drop add.commute)
    then show ?thesis
      using f r w' False by (subst read_to_end.simps) (auto simp del: take_take)
  qed
qed

lemma leaves_open_and_read:
  assumes "files_are s F n" "F p = Some bs"
  shows "leaves (open_and_read p) s bs F n"
proof -
  let ?w = "t_world s"
  have h: "healthy ?w" and F: "file_at ?w = F" and n: "n \<le> disk_room ?w" using assms(1) by (simp_all add: files_are_def)
  obtain i where i: "names ?w p = Some i" "inodes ?w i = bs"
    using assms(2) F by (auto simp: file_at_def)
  have o: "file_open p ?w = (Done (Inr i), ?w)"
    using healthy_fields(3) [OF h, of p] i(1) by (simp add: file_open_def)
  obtain w' where r: "read_to_end i 0 ?w = (Inr bs, w')" "no_read_fail w'" "w' = ?w\<lparr>read_plan := read_plan w'\<rparr>"
    using read_to_end_run [OF healthy_fields(2) [OF h], of i 0] i(2) by auto
  have "file_at w' = F" "disk_room w' = disk_room ?w" "fs_ok w'" "open_err w' = open_err ?w" "create_err w' = create_err ?w"
    "names w' = names ?w" "grants w' = grants ?w"
    by (subst r(3), use F h in \<open>simp add: file_at_def fs_ok_def healthy_def grants_def fun_eq_iff\<close>)+
  then have "healthy w'" using h r(2) by (simp add: healthy_def)
  then have "leaves (ffi_call (\<lambda>w. case read_to_end i 0 w of (r, w') \<Rightarrow> (Done (lift_err r), w'))) s (Inr bs) F n"
    by (intro leaves_world [where w = w']) (use r(1) assms(1) n \<open>file_at w' = F\<close> \<open>disk_room w' = disk_room ?w\<close> in
      \<open>simp_all add: lift_err_def\<close>)
  then show ?thesis
    using o by (auto simp: open_and_read_def leaves_def run_simps ffi_call_def)
qed

lemma leaves_remove_file:
  assumes "files_are s F n"
  shows "leaves (remove_file p) s () (F(p := None)) n"
  unfolding remove_file_def
proof (rule leaves_world [OF refl assms])
  let ?w = "(t_world s)\<lparr>names := (names (t_world s))(p := None)\<rparr>"
  have h: "healthy (t_world s)" and F: "file_at (t_world s) = F" using assms by (simp_all add: files_are_def)
  show "healthy ?w" using h by (auto simp: healthy_def fs_ok_def no_read_fail_def grants_def)
  show "file_at ?w = F(p := None)" using F by (auto simp: file_at_def fun_eq_iff)
qed (use assms in \<open>simp add: files_are_def\<close>)

section \<open>A call on two paths\<close>

lemma file_call_leaves:
  assumes "files_are s F n" "length key \<le> 100" "usable_path ip" "usable_path op"
    and f: "\<And>ps w. healthy w \<Longrightarrow> file_at w = F \<Longrightarrow> n \<le> disk_room w \<Longrightarrow>
      slice_at (mem w) (ps ! 0) (of_nat (length key)) key \<Longrightarrow>
      \<not> is_null (ps ! 1) \<Longrightarrow> c_string (mem w) (ps ! 1) = Some ip \<Longrightarrow>
      \<not> is_null (ps ! 2) \<Longrightarrow> c_string (mem w) (ps ! 2) = Some op \<Longrightarrow>
      \<exists>w'. f ps w = (Done c, w') \<and> healthy w' \<and> file_at w' = G \<and> m \<le> disk_room w'"
  shows "leaves (freeing (bind_comp (cstring_new ip) (\<lambda>i. bind_comp (cstring_new op) (\<lambda>out.
      call0 [key, i, out] f)))) s c G m"
proof -
  have s: "t_ok s" "t_top s \<le> 2 ^ 63" "healthy (t_world s)" "file_at (t_world s) = F" "n \<le> disk_room (t_world s)"
    using assms(1) by (simp_all add: files_are_def)
  let ?xs = "[key, ip @ [0], op @ [0]]"
  obtain ps s1 where 1: "place_all ?xs s = (Done ps, s1)" "kept s s1" "length ps = length ?xs"
    "\<forall>i<length ?xs. placed s1 (ps ! i) (?xs ! i)"
    using place_all_run [OF s(1)] by blast
  have room: "heap_room k \<le> k + 16" for k by (simp add: heap_room_def)
  have lens: "length key \<le> 100" "length ip \<le> 4096" "length op \<le> 4096"
    using assms(2-4) by (simp_all add: usable_path_def)
  have top: "t_top s1 < 2 ^ 64"
    using place_all_top [OF 1(1)] s(2) lens room [of "length key"] room [of "Suc (length ip)"] room [of "Suc (length op)"]
    by simp
  have p: "placed s1 (ps ! 0) key" "placed s1 (ps ! 1) (ip @ [0])" "placed s1 (ps ! 2) (op @ [0])"
    using 1(4) [rule_format, of 0] 1(4) [rule_format, of 1] 1(4) [rule_format, of 2] by simp_all
  let ?w = "t_world s1"
  obtain m1 where w1: "?w = (t_world s)\<lparr>mem := m1\<rparr>" using 1(2) by (auto simp: kept_def)
  have h1: "healthy ?w" "file_at ?w = F" "n \<le> disk_room ?w"
    using s(3-5) by (simp_all add: w1 healthy_def fs_ok_def no_read_fail_def grants_def file_at_def fun_eq_iff)
  have "slice_at (mem ?w) (ps ! 0) (of_nat (length key)) key"
    using p(1) lens(1) by (intro placed_slice) (simp_all add: isize_small)
  moreover have "\<not> is_null (ps ! 1)" "\<not> is_null (ps ! 2)" using p(2,3) by (auto simp: placed_def is_null_def)
  moreover have "c_string (mem ?w) (ps ! 1) = Some ip" "c_string (mem ?w) (ps ! 2) = Some op"
    using p(2,3) assms(3,4) top by (auto simp: placed_def usable_path_def intro!: c_string_at)
  ultimately obtain w' where "f ps ?w = (Done c, w')" "healthy w'" "file_at w' = G" "m \<le> disk_room w'"
    using f [OF h1] by blast
  moreover have "t_ok (s1\<lparr>t_world := w', t_top := t_top s\<rparr>)" using s(1) by (simp add: t_ok_def)
  ultimately show ?thesis
    using assms(3,4) 1(1) s(2)
    by (auto simp: leaves_def freeing_def cstring_new_def usable_path_def call0_def ffi_call_def run_simps
        files_are_def)
qed

lemma leaves_file_seal:
  assumes "files_are s F n" "F ip = Some data" "usable_path ip" "usable_path op" "op \<noteq> ip"
    and lib: "stream_aead_alg alg = Some a" "unbound_key_new L a key = ExtOk kk" "aead_correct L 64" "length key = 32"
    and ct: "ct = stream_seal (frame_enc L kk []) 64 data" "length ct \<le> n" "length data < 2 ^ 63"
  shows "leaves (file_test_seal L alg key 64 ip op) s (code Ok) (F(op := Some ct)) (n - length ct)"
  unfolding file_test_seal_def
proof (rule file_call_leaves [OF assms(1) _ assms(3,4)])
  fix ps and w :: world
  assume w: "healthy w" "file_at w = F" "n \<le> disk_room w"
    and args: "slice_at (mem w) (ps ! 0) (of_nat (length key)) key" "\<not> is_null (ps ! 1)" "c_string (mem w) (ps ! 1) = Some ip"
      "\<not> is_null (ps ! 2)" "c_string (mem w) (ps ! 2) = Some op"
  have at: "file_at w ip = Some data" using w(2) assms(2) by simp
  note req = request_of [OF w(1) at assms(3,4) args]
  have sep: "separate w ip op" by (rule separate_of [OF w(1) _ assms(5)]) (simp add: at)
  have c: "unat (of_nat 64 :: usize) = 64" by simp
  obtain w' where "pqforge_stream_seal_file L alg (ps ! 0) (of_nat (length key)) 0 0 (of_nat 64) (ps ! 1) (ps ! 2) w =
      (Done (code Ok), w')" and r: "file_result op ct (disk_room w - length ct) w w'"
    by (rule seal_file_refines [OF req lib(1,2), of "of_nat 64" data ct])
       (use lib(3) ct w healthy_fields(5) [OF w(1), of 64] sep in simp_all)
  moreover have "healthy w'" "file_at w' = F(op := Some ct)"
    using healthy_frame [OF w(1)] file_frame_files(1) [OF w(1)] r w(2) by (auto simp: file_result_def)
  ultimately show "\<exists>w'. pqforge_stream_seal_file L alg (ps ! 0) (of_nat (length key)) 0 0 (of_nat 64) (ps ! 1) (ps ! 2) w =
      (Done (code Ok), w') \<and> healthy w' \<and> file_at w' = F(op := Some ct) \<and> n - length ct \<le> disk_room w'"
    using w(3) by (auto simp: file_result_def)
qed (simp add: lib(4))

lemma leaves_file_open:
  assumes "files_are s F n" "F ip = Some ct" "usable_path ip" "usable_path op" "op \<noteq> ip"
    and lib: "stream_aead_alg alg = Some a" "unbound_key_new L a key = ExtOk kk" "aead_quiet L" "length key = 32"
    and so: "stream_open (frame_dec L kk []) 80 ct = (st, rel)" "length rel \<le> n" "length ct < 2 ^ 63"
  shows "leaves (file_test_open L alg key 64 ip op) s (code st) (F(op := Some rel)) (n - length rel)"
  unfolding file_test_open_def
proof (rule file_call_leaves [OF assms(1) _ assms(3,4)])
  fix ps and w :: world
  assume w: "healthy w" "file_at w = F" "n \<le> disk_room w"
    and args: "slice_at (mem w) (ps ! 0) (of_nat (length key)) key" "\<not> is_null (ps ! 1)" "c_string (mem w) (ps ! 1) = Some ip"
      "\<not> is_null (ps ! 2)" "c_string (mem w) (ps ! 2) = Some op"
  have at: "file_at w ip = Some ct" using w(2) assms(2) by simp
  note req = request_of [OF w(1) at assms(3,4) args]
  have sep: "separate w ip op" by (rule separate_of [OF w(1) _ assms(5)]) (simp add: at)
  obtain w' where "pqforge_stream_open_file L alg (ps ! 0) (of_nat (length key)) 0 0 (of_nat 64) (ps ! 1) (ps ! 2) w =
      (Done (code st), w')" and r: "file_result op rel (disk_room w - length rel) w w'"
    by (rule open_file_refines [OF req lib(1-3), of "of_nat 64" 80 ct st rel])
       (use so w healthy_fields(5) [OF w(1), of 80] sep in \<open>simp_all add: TAG_LEN_def\<close>)
  moreover have "healthy w'" "file_at w' = F(op := Some rel)"
    using healthy_frame [OF w(1)] file_frame_files(1) [OF w(1)] r w(2) by (auto simp: file_result_def)
  ultimately show "\<exists>w'. pqforge_stream_open_file L alg (ps ! 0) (of_nat (length key)) 0 0 (of_nat 64) (ps ! 1) (ps ! 2) w =
      (Done (code st), w') \<and> healthy w' \<and> file_at w' = F(op := Some rel) \<and> n - length rel \<le> disk_room w'"
    using w(3) by (auto simp: file_result_def)
qed (simp add: lib(4))

section \<open>The paths of the tests\<close>

text \<open>A well-formed text starts with a whole character, after which any text may follow.\<close>

lemma valid_utf8_char:
  assumes "valid_utf8 xs" "xs \<noteq> []"
  obtains c r where "xs = c @ r" "c \<noteq> []" "\<And>r'. valid_utf8 (c @ r') = valid_utf8 r'"
proof -
  obtain b0 bs where xs: "xs = b0 # bs" using assms(2) by (cases xs) auto
  note v = assms(1) [unfolded xs, unfolded valid_utf8.simps(2)]
  consider (1) "b0 < 0x80" | (2) "\<not> b0 < 0x80" "0xC2 \<le> b0 \<and> b0 \<le> 0xDF"
    | (3) "\<not> b0 < 0x80" "\<not> (0xC2 \<le> b0 \<and> b0 \<le> 0xDF)" "0xE0 \<le> b0 \<and> b0 \<le> 0xEF"
    | (4) "\<not> b0 < 0x80" "\<not> (0xC2 \<le> b0 \<and> b0 \<le> 0xDF)" "\<not> (0xE0 \<le> b0 \<and> b0 \<le> 0xEF)"
    by blast
  then show ?thesis
  proof cases
    case 1
    then show ?thesis by (intro that [of "[b0]" bs]) (simp_all add: xs)
  next
    case 2
    with v obtain b1 r where "bs = b1 # r" "utf8_cont b1" by (auto split: list.splits)
    moreover from this 2 have "valid_utf8 ([b0, b1] @ r') = valid_utf8 r'" for r'
      unfolding append_Cons by (subst valid_utf8.simps(2)) (auto simp del: valid_utf8.simps)
    ultimately show ?thesis by (intro that [of "[b0, b1]" r]) (simp_all add: xs del: valid_utf8.simps)
  next
    case 3
    with v obtain b1 b2 r where "bs = b1 # b2 # r" "utf8_second3 b0 b1" "utf8_cont b2" by (auto split: list.splits)
    moreover from this 3 have "valid_utf8 ([b0, b1, b2] @ r') = valid_utf8 r'" for r'
      unfolding append_Cons by (subst valid_utf8.simps(2)) (auto simp del: valid_utf8.simps)
    ultimately show ?thesis by (intro that [of "[b0, b1, b2]" r]) (simp_all add: xs del: valid_utf8.simps)
  next
    case 4
    with v have f: "0xF0 \<le> b0 \<and> b0 \<le> 0xF4" by (auto split: if_splits)
    with v 4 obtain b1 b2 b3 r where "bs = b1 # b2 # b3 # r" "utf8_second4 b0 b1" "utf8_cont b2" "utf8_cont b3"
      by (auto split: list.splits)
    moreover from this 4 f have "valid_utf8 ([b0, b1, b2, b3] @ r') = valid_utf8 r'" for r'
      unfolding append_Cons by (subst valid_utf8.simps(2)) (auto simp del: valid_utf8.simps)
    ultimately show ?thesis by (intro that [of "[b0, b1, b2, b3]" r]) (simp_all add: xs del: valid_utf8.simps)
  qed
qed

lemma valid_utf8_append: "valid_utf8 xs \<Longrightarrow> valid_utf8 ys \<Longrightarrow> valid_utf8 (xs @ ys)"
proof (induction xs rule: length_induct)
  case (1 xs)
  show ?case
  proof (cases "xs = []")
    case False
    obtain c r where c: "xs = c @ r" "c \<noteq> []" "\<forall>r'. valid_utf8 (c @ r') = valid_utf8 r'"
      using valid_utf8_char [OF "1.prems"(1) False] by metis
    then have "length r < length xs" "valid_utf8 r" using "1.prems"(1) by auto
    then have "valid_utf8 (r @ ys)" using "1.IH" "1.prems"(2) by blast
    then show ?thesis using c by simp
  qed (use "1.prems" in simp)
qed

lemma valid_utf8_ascii: "\<forall>b\<in>set xs. b < 0x80 \<Longrightarrow> valid_utf8 xs"
  by (induction xs) simp_all

definition ascii :: "bytes \<Rightarrow> bool" where
  "ascii xs \<longleftrightarrow> (\<forall>b\<in>set xs. 0 < b \<and> b < 0x80)"

lemma ascii_simps [simp]: "ascii []" "ascii (x # xs) \<longleftrightarrow> 0 < x \<and> x < 0x80 \<and> ascii xs" "ascii (xs @ ys) \<longleftrightarrow> ascii xs \<and> ascii ys"
  by (auto simp: ascii_def)

lemma ascii_decimal: "ascii (decimal n)"
proof (induction n rule: decimal.induct)
  case (1 n)
  have digit: "0 < (of_nat (48 + k) :: u8) \<and> (of_nat (48 + k) :: u8) < 0x80" if "k < 10" for k
  proof -
    from that have "k \<in> {0, 1, 2, 3, 4, 5, 6, 7, 8, 9}" by (simp; presburger)
    then show ?thesis by (elim insertE) simp_all
  qed
  show ?case
    by (subst decimal.simps) (use 1 digit [of n] digit [of "n mod 10"] in \<open>simp del: of_nat_add\<close>)
qed

text \<open>A temporary directory whose paths are C strings of reasonable length.\<close>

definition usable_dir :: "bytes \<Rightarrow> nat \<Rightarrow> bool" where
  "usable_dir dir pid \<longleftrightarrow> valid_utf8 dir \<and> 0 \<notin> set dir \<and> length dir + length (decimal pid) \<le> 4000"

lemma usable_tmp:
  assumes "usable_dir dir pid" "ascii name" "length name \<le> 60"
  shows "usable_path (test_tmp dir pid name)"
proof -
  let ?n = "ascii_bytes ''pqforge_sf_'' @ decimal pid @ ascii_bytes ''_'' @ name"
  have n: "ascii ?n" using assms(2) ascii_decimal by (simp add: ascii_bytes_def)
  then have "ascii (47 # ?n)" by simp
  with n have "valid_utf8 ?n" "valid_utf8 (47 # ?n)" "0 \<notin> set ?n"
    by (auto simp only: ascii_def intro!: valid_utf8_ascii)
  moreover from this have "valid_utf8 (dir @ ?n)" "valid_utf8 (dir @ 47 # ?n)"
    using assms(1) by (simp_all only: usable_dir_def valid_utf8_append)
  ultimately show ?thesis
    using assms(1,3) by (auto simp: usable_path_def usable_dir_def test_tmp_def path_push_def)
qed

lemma test_tmp_inj [simp]: "test_tmp dir pid a = test_tmp dir pid b \<longleftrightarrow> a = b"
  by (simp add: test_tmp_def path_push_def)

section \<open>What the tests check\<close>

lemma leaves_weaken: "leaves m s x F n \<Longrightarrow> k \<le> n \<Longrightarrow> leaves m s x F k"
  by (auto simp: leaves_def files_are_def)

lemma leaves_assert: "b \<Longrightarrow> leaves k s x F n \<Longrightarrow> leaves (bind_comp (assert_that b) (\<lambda>_. k)) s x F n"
  by simp

lemma leaves_remove_all: "files_are s F n \<Longrightarrow> \<exists>G. leaves (for_each ps remove_file) s () G n"
proof (induction ps arbitrary: s F)
  case Nil
  then show ?case by (auto simp: leaves_def)
next
  case (Cons p ps)
  obtain s1 where 1: "remove_file p s = (Done (), s1)" "files_are s1 (F(p := None)) n"
    using leaves_remove_file [OF Cons.prems, of p] by (auto simp: leaves_def)
  from Cons.IH [OF 1(2)] 1(1) show ?case by (auto simp: leaves_def run_simps)
qed

lemma length_sealed:
  assumes "aead_correct L 64"
  shows "length (stream_seal (frame_enc L kk ad) 64 data) \<le> 17 * length data + 16"
proof -
  have "length (plain_frames 64 data) \<le> Suc (length data)"
    using length_blocks_le [of 64 data] by (simp add: plain_frames_def)
  then show ?thesis
    using frames.length_stream_seal [of "(L, kk, ad)" 64 data] assms by (simp add: frame_lawful_def TAG_LEN_def)
qed

lemma leaves_round_trip:
  assumes "files_are s F n" "19 * sz + 16 \<le> n" "sz \<le> 5000" "length (decimal sz) \<le> 20" "usable_dir dir pid"
    and lib: "aead_keys L" "aead_correct L 64" "aead_quiet L"
  shows "\<exists>G. leaves (round_trip_of_size L dir pid sz) s () G (n - (19 * sz + 16))"
proof -
  let ?pin = "test_tmp dir pid (ascii_bytes ''in_'' @ decimal sz)" and ?enc = "test_tmp dir pid (ascii_bytes ''enc_'' @ decimal sz)"
    and ?dec = "test_tmp dir pid (ascii_bytes ''dec_'' @ decimal sz)"
  let ?plain = "map (\<lambda>i. of_nat (i * 31 + 7)) [0..<sz] :: bytes"
  have p: "usable_path ?pin" "usable_path ?enc" "usable_path ?dec" "?enc \<noteq> ?pin" "?dec \<noteq> ?enc"
    using assms(4) ascii_decimal by (auto intro!: usable_tmp [OF assms(5)] simp: ascii_bytes_def)
  obtain kk where kk: "unbound_key_new L AES_256_GCM (replicate 32 5) = ExtOk kk"
    using lib(1) unfolding aead_keys_def by (metis length_replicate)
  have alg: "stream_aead_alg 0 = Some AES_256_GCM" by (simp add: stream_aead_alg_def)
  let ?ct = "stream_seal (frame_enc L kk []) 64 ?plain"
  have ct: "length ?ct \<le> 17 * sz + 16" using length_sealed [OF lib(2), of kk "[]" ?plain] by simp
  have so: "stream_open (frame_dec L kk []) 80 ?ct = (Ok, ?plain)"
    using frames.open_seal [of "(L, kk, [])" 64 ?plain] lib(2) by (simp add: frame_lawful_def TAG_LEN_def)
  have rest: "\<exists>G. leaves (bind_comp (file_test_open L 0 (replicate 32 5) 64 ?enc ?dec) (\<lambda>rc.
      bind_comp (assert_that (rc = code Ok)) (\<lambda>_. bind_comp (open_and_read ?dec) (\<lambda>out.
      bind_comp (assert_that (out = ?plain)) (\<lambda>_. for_each [?pin, ?enc, ?dec] remove_file))))) s2 () G (n - (19 * sz + 16))"
    if "files_are s2 (F(?pin := Some ?plain, ?enc := Some ?ct)) (n - sz - length ?ct)" for s2
  proof -
    have "leaves (file_test_open L 0 (replicate 32 5) 64 ?enc ?dec) s2 (code Ok)
        (F(?pin := Some ?plain, ?enc := Some ?ct, ?dec := Some ?plain)) (n - sz - length ?ct - length ?plain)"
      by (rule leaves_file_open [OF that _ p(2,3,5) alg kk lib(3) _ so]) (use ct assms(2,3) in simp_all)
    then obtain s3 where 3: "file_test_open L 0 (replicate 32 5) 64 ?enc ?dec s2 = (Done (code Ok), s3)"
      "files_are s3 (F(?pin := Some ?plain, ?enc := Some ?ct, ?dec := Some ?plain)) (n - sz - length ?ct - sz)"
      by (auto simp: leaves_def)
    obtain s4 where 4: "open_and_read ?dec s3 = (Done ?plain, s4)"
      "files_are s4 (F(?pin := Some ?plain, ?enc := Some ?ct, ?dec := Some ?plain)) (n - sz - length ?ct - sz)"
      using leaves_open_and_read [OF 3(2), of ?dec ?plain] by (auto simp: leaves_def)
    obtain G where "leaves (for_each [?pin, ?enc, ?dec] remove_file) s4 () G (n - sz - length ?ct - sz)"
      using leaves_remove_all [OF 4(2)] by blast
    then have "leaves (for_each [?pin, ?enc, ?dec] remove_file) s4 () G (n - (19 * sz + 16))"
      by (rule leaves_weaken) (use ct in linarith)
    then show ?thesis using 3(1) 4(1) by (auto simp: leaves_def run_simps simp del: for_each.simps)
  qed
  obtain s1 where 1: "create_and_write ?pin ?plain s = (Done (), s1)" "files_are s1 (F(?pin := Some ?plain)) (n - sz)"
    using leaves_create_and_write [OF assms(1), of ?plain ?pin] assms(2) by (auto simp: leaves_def)
  have "leaves (file_test_seal L 0 (replicate 32 5) 64 ?pin ?enc) s1 (code Ok)
      (F(?pin := Some ?plain, ?enc := Some ?ct)) (n - sz - length ?ct)"
    by (rule leaves_file_seal [OF 1(2) _ p(1,2,4) alg kk lib(2)]) (use ct assms(2,3) in \<open>simp_all only: fun_upd_same length_map length_upt length_replicate\<close>, simp_all)
  then obtain s2 where 2: "file_test_seal L 0 (replicate 32 5) 64 ?pin ?enc s1 = (Done (code Ok), s2)"
    "files_are s2 (F(?pin := Some ?plain, ?enc := Some ?ct)) (n - sz - length ?ct)"
    by (auto simp: leaves_def)
  from rest [OF 2(2)] 1(1) 2(1) show ?thesis
    by (auto simp: round_trip_of_size_def Let_def leaves_def run_simps simp del: for_each.simps)
qed

lemma leaves_round_trips:
  assumes "files_are s F n" "sum_list (map (\<lambda>sz. 19 * sz + 16) szs) \<le> n"
    and "\<forall>sz\<in>set szs. sz \<le> 5000 \<and> length (decimal sz) \<le> 20" "usable_dir dir pid"
    and lib: "aead_keys L" "aead_correct L 64" "aead_quiet L"
  shows "\<exists>G. leaves (for_each szs (round_trip_of_size L dir pid)) s () G (n - sum_list (map (\<lambda>sz. 19 * sz + 16) szs))"
  using assms(1-3)
proof (induction szs arbitrary: s F n)
  case Nil
  then show ?case by (auto simp: leaves_def)
next
  case (Cons sz szs)
  obtain G where "leaves (round_trip_of_size L dir pid sz) s () G (n - (19 * sz + 16))"
    using leaves_round_trip [OF Cons.prems(1) _ _ _ assms(4) lib, of sz] Cons.prems(2,3) by auto
  then obtain s1 where 1: "round_trip_of_size L dir pid sz s = (Done (), s1)" "files_are s1 G (n - (19 * sz + 16))"
    by (auto simp: leaves_def)
  have le: "sum_list (map (\<lambda>sz. 19 * sz + 16) szs) \<le> n - (19 * sz + 16)" using Cons.prems(2) by simp
  obtain H where "leaves (for_each szs (round_trip_of_size L dir pid)) s1 () H
      (n - (19 * sz + 16) - sum_list (map (\<lambda>sz. 19 * sz + 16) szs))"
    using Cons.IH [OF 1(2) le] Cons.prems(3) by auto
  then show ?case using 1(1) by (auto simp: leaves_def run_simps)
qed

lemma files_round_trip_passes:
  assumes "files_are s F 85403" "usable_dir dir pid" "aead_keys L" "aead_correct L 64" "aead_quiet L"
  shows "passes (seal_open_file_round_trip_various_sizes L dir pid) s"
proof -
  have "\<exists>G. leaves (for_each [0, 1, 63, 64, 65, 200, 4096] (round_trip_of_size L dir pid)) s () G
      (85403 - sum_list (map (\<lambda>sz. 19 * sz + 16) [0, 1, 63, 64, 65, 200, 4096]))"
    by (rule leaves_round_trips [OF assms(1) _ _ assms(2-5)]) (simp_all add: decimal.simps)
  then show ?thesis by (auto simp: seal_open_file_round_trip_various_sizes_def leaves_def passes_def simp del: for_each.simps)
qed

text \<open>What opening releases is no longer than the stream.\<close>

lemma length_open_list:
  assumes "open_shortens L"
  shows "length (snd (open_list (frame_dec L k ad) cc c fs)) \<le> length (concat fs)"
proof (induction "frame_dec L k ad" cc c fs rule: open_list.induct)
  case (2 cc c f fs)
  have d: "length p \<le> length f" if "frame_dec L k ad c l f = Some p" for l p
    using assms that by (fastforce simp: frame_dec_def open_shortens_def split: ext.splits)
  show ?case
  proof (cases "length f < TAG_LEN")
    case False
    show ?thesis
    proof (cases "length f < cc \<or> fs = []")
      case True
      then show ?thesis using False by (auto simp: Let_def split: option.splits dest!: d intro: trans_le_add1)
    next
      case more: False
      have "length (snd (open_list (frame_dec L k ad) cc (c + 1) fs)) \<le> length (concat fs)"
        if "frame_dec L k ad c False f = Some p" for p
        using 2(1) [OF False refl] that more by simp
      then show ?thesis
        using more False d [of False]
        by (cases "frame_dec L k ad c False f") (auto simp: split_beta Let_def intro: add_mono)
    qed
  qed simp
qed simp

lemma tampered_file_test_iff:
  assumes "files_are s F 2000" "usable_dir dir pid" "aead_correct L 64" "aead_quiet L" "open_shortens L"
    and kk: "unbound_key_new L CHACHA20_POLY1305 (replicate 32 6) = ExtOk kk"
  defines "ct \<equiv> stream_seal (frame_enc L kk []) 64 (replicate 300 9)"
  shows "passes (tampered_file_fails_authentication L dir pid) s \<longleftrightarrow>
    fst (stream_open (frame_dec L kk []) 80 (flip_byte 5 ct)) = AuthFailed"
proof -
  let ?pin = "test_tmp dir pid (ascii_bytes ''tamper_in'')" and ?enc = "test_tmp dir pid (ascii_bytes ''tamper_enc'')"
    and ?dec = "test_tmp dir pid (ascii_bytes ''tamper_dec'')" and ?pt = "replicate 300 9 :: bytes"
  have p: "usable_path ?pin" "usable_path ?enc" "usable_path ?dec" "?enc \<noteq> ?pin" "?dec \<noteq> ?enc"
    by (auto intro!: usable_tmp [OF assms(2)] simp: ascii_bytes_def)
  have alg: "stream_aead_alg 1 = Some CHACHA20_POLY1305" by (simp add: stream_aead_alg_def)
  have b: "length (blocks 64 ?pt) = 5" by (simp add: blocks_step)
  have ct: "length ct = 380"
    using frames.length_stream_seal [of "(L, kk, [])" 64 ?pt] assms(3) b
    by (simp add: frame_lawful_def TAG_LEN_def plain_frames_def ct_def)
  obtain st rel where so: "stream_open (frame_dec L kk []) 80 (flip_byte 5 ct) = (st, rel)" by fastforce
  have rel: "length rel \<le> 380"
    using length_open_list [OF assms(5), of kk "[]" 80 0 "blocks 80 (flip_byte 5 ct)"] so ct
    by (simp add: stream_open_def concat_blocks)
  let ?F1 = "F(?pin := Some ?pt)" and ?F2 = "F(?pin := Some ?pt, ?enc := Some ct)"
    and ?F3 = "F(?pin := Some ?pt, ?enc := Some (flip_byte 5 ct))"
  obtain s1 where 1: "create_and_write ?pin ?pt s = (Done (), s1)" "files_are s1 ?F1 1700"
    using leaves_create_and_write [OF assms(1), of ?pt ?pin] by (auto simp: leaves_def)
  have "leaves (file_test_seal L 1 (replicate 32 6) 64 ?pin ?enc) s1 (code Ok) ?F2 (1700 - length ct)"
    by (rule leaves_file_seal [OF 1(2) _ p(1,2,4) alg kk assms(3)]) (simp_all only: ct fun_upd_same length_replicate, simp_all add: ct_def)
  then obtain s2 where 2: "file_test_seal L 1 (replicate 32 6) 64 ?pin ?enc s1 = (Done (code Ok), s2)" "files_are s2 ?F2 1320"
    by (auto simp: leaves_def ct)
  obtain s3 where 3: "open_and_read ?enc s2 = (Done ct, s3)" "files_are s3 ?F2 1320"
    using leaves_open_and_read [OF 2(2), of ?enc ct] by (auto simp: leaves_def)
  obtain s4 where 4: "create_and_write ?enc (flip_byte 5 ct) s3 = (Done (), s4)" "files_are s4 ?F3 940"
    using leaves_create_and_write [OF 3(2), of "flip_byte 5 ct" ?enc] ct by (auto simp: leaves_def)
  have "leaves (file_test_open L 1 (replicate 32 6) 64 ?enc ?dec) s4 (code st) (?F3(?dec := Some rel)) (940 - length rel)"
    by (rule leaves_file_open [OF 4(2) _ p(2,3,5) alg kk assms(4) _ so]) (use rel ct in simp_all)
  then obtain s5 where 5: "file_test_open L 1 (replicate 32 6) 64 ?enc ?dec s4 = (Done (code st), s5)"
    "files_are s5 (?F3(?dec := Some rel)) (940 - length rel)"
    by (auto simp: leaves_def)
  have "passes (for_each [?pin, ?enc, ?dec] remove_file) s5"
    using leaves_remove_all [OF 5(2), of "[?pin, ?enc, ?dec]"] by (auto simp: leaves_def passes_def simp del: for_each.simps)
  then have "passes (tampered_file_fails_authentication L dir pid) s \<longleftrightarrow> st = AuthFailed"
    unfolding tampered_file_fails_authentication_def Let_def
    using 1(1) 2(1) 3(1) 4(1) 5(1) ct
    by (auto simp: passes_def run_simps assert_that_def simp del: for_each.simps)
  then show ?thesis by (simp add: so)
qed

end
