(* ===== verification/Kem.thy ===== *)
theory Kem
  imports Contract
begin

text \<open>
  \<open>crypto/kem.rs\<close>: ML-KEM across the C-ABI. The primitives of \<open>aws-lc-rs\<close> are the record
  \<open>kem_lib\<close>, over its opaque decapsulation and encapsulation keys; the operations that
  draw randomness take the state of its CSPRNG.
\<close>

datatype kem_algorithm = ML_KEM_512 | ML_KEM_768 | ML_KEM_1024

record ('dk, 'ek) kem_lib =
  dk_generate :: "kem_algorithm \<Rightarrow> nat \<Rightarrow> 'dk ext \<times> nat"
  encapsulation_key :: "'dk \<Rightarrow> 'ek ext"
  ek_bytes :: "'ek \<Rightarrow> bytes ext"
  dk_bytes :: "'dk \<Rightarrow> bytes ext"
  ek_new :: "kem_algorithm \<Rightarrow> bytes \<Rightarrow> 'ek ext"
  dk_new :: "kem_algorithm \<Rightarrow> bytes \<Rightarrow> 'dk ext"
  encapsulate :: "'ek \<Rightarrow> nat \<Rightarrow> (bytes \<times> bytes) ext \<times> nat"
  decapsulate :: "'dk \<Rightarrow> bytes \<Rightarrow> bytes ext"

definition kem_alg :: "c_int \<Rightarrow> kem_algorithm option" where
  "kem_alg aid =
    (if aid = 0 then Some ML_KEM_512 else if aid = 1 then Some ML_KEM_768
     else if aid = 2 then Some ML_KEM_1024 else None)"

section \<open>Entry points\<close>

definition mlkem_keygen_body ::
  "('dk, 'ek) kem_lib \<Rightarrow> c_int \<Rightarrow> addr \<Rightarrow> usize \<Rightarrow> addr \<Rightarrow> addr \<Rightarrow> usize \<Rightarrow> addr \<Rightarrow> closure" where
  "mlkem_keygen_body L alg_id pub_out pub_cap pub_len sec_out sec_cap sec_len =
    (case kem_alg alg_id of
       None \<Rightarrow> returns InvalidKey
     | Some alg \<Rightarrow>
       bind_comp (rng_call (dk_generate L alg)) (\<lambda>r.
       ext_case r (fails (EInternal ''ML-KEM keygen failed'')) (\<lambda>dk.
       ext_case (encapsulation_key L dk) (fails (EInternal ''derive encapsulation key failed'')) (\<lambda>ek.
       ext_case (ek_bytes L ek) (fails (EInternal ''export public key failed'')) (\<lambda>pub_bytes.
       ext_case (dk_bytes L dk) (fails (EInternal ''export secret key failed'')) (\<lambda>sec_bytes.
       with_zeroizing sec_bytes (\<lambda>secret.
       bind_comp (write_out pub_bytes pub_out pub_cap pub_len) (\<lambda>s1.
       if s1 \<noteq> Ok then returns s1
       else bind_comp (write_out secret sec_out sec_cap sec_len) (\<lambda>s2. returns s2)))))))))"

definition pqforge_mlkem_keygen ::
  "('dk, 'ek) kem_lib \<Rightarrow> c_int \<Rightarrow> addr \<Rightarrow> usize \<Rightarrow> addr \<Rightarrow> addr \<Rightarrow> usize \<Rightarrow> addr \<Rightarrow> (world, c_int) comp" where
  "pqforge_mlkem_keygen L alg_id pub_out pub_cap pub_len sec_out sec_cap sec_len =
    boundary (mlkem_keygen_body L alg_id pub_out pub_cap pub_len sec_out sec_cap sec_len)"

definition mlkem_encapsulate_body ::
  "('dk, 'ek) kem_lib \<Rightarrow> c_int \<Rightarrow> addr \<Rightarrow> usize \<Rightarrow> addr \<Rightarrow> usize \<Rightarrow> addr \<Rightarrow> addr \<Rightarrow> usize \<Rightarrow> addr
    \<Rightarrow> closure" where
  "mlkem_encapsulate_body L alg_id pubkey pubkey_len ct_out ct_cap ct_len ss_out ss_cap ss_len =
    (case kem_alg alg_id of
       None \<Rightarrow> returns InvalidKey
     | Some alg \<Rightarrow>
       if is_null pubkey then returns NullArgument
       else
         bind_comp (from_raw_parts pubkey pubkey_len) (\<lambda>pub_slice.
         ext_case (ek_new L alg pub_slice) (returns InvalidKey) (\<lambda>ek.
         bind_comp (rng_call (encapsulate L ek)) (\<lambda>r.
         ext_case r (fails (EInternal ''ML-KEM encapsulate failed'')) (\<lambda>(ciphertext, shared).
         with_zeroizing shared (\<lambda>secret.
         bind_comp (write_out ciphertext ct_out ct_cap ct_len) (\<lambda>s1.
         if s1 \<noteq> Ok then returns s1
         else bind_comp (write_out secret ss_out ss_cap ss_len) (\<lambda>s2. returns s2))))))))"

definition pqforge_mlkem_encapsulate ::
  "('dk, 'ek) kem_lib \<Rightarrow> c_int \<Rightarrow> addr \<Rightarrow> usize \<Rightarrow> addr \<Rightarrow> usize \<Rightarrow> addr \<Rightarrow> addr \<Rightarrow> usize \<Rightarrow> addr
    \<Rightarrow> (world, c_int) comp" where
  "pqforge_mlkem_encapsulate L alg_id pubkey pubkey_len ct_out ct_cap ct_len ss_out ss_cap ss_len =
    boundary (mlkem_encapsulate_body L alg_id pubkey pubkey_len ct_out ct_cap ct_len
      ss_out ss_cap ss_len)"

definition mlkem_decapsulate_body ::
  "('dk, 'ek) kem_lib \<Rightarrow> c_int \<Rightarrow> addr \<Rightarrow> usize \<Rightarrow> addr \<Rightarrow> usize \<Rightarrow> addr \<Rightarrow> usize \<Rightarrow> addr
    \<Rightarrow> closure" where
  "mlkem_decapsulate_body L alg_id seckey seckey_len ct ct_len ss_out ss_cap ss_len =
    (case kem_alg alg_id of
       None \<Rightarrow> returns InvalidKey
     | Some alg \<Rightarrow>
       if is_null seckey \<or> is_null ct then returns NullArgument
       else
         bind_comp (from_raw_parts seckey seckey_len) (\<lambda>sec_slice.
         bind_comp (from_raw_parts ct ct_len) (\<lambda>ct_slice.
         ext_case (dk_new L alg sec_slice) (returns InvalidKey) (\<lambda>dk.
         ext_case (decapsulate L dk ct_slice) (fails EInvalidCiphertext) (\<lambda>shared.
         with_zeroizing shared (\<lambda>secret.
         bind_comp (write_out secret ss_out ss_cap ss_len) (\<lambda>s. returns s)))))))"

definition pqforge_mlkem_decapsulate ::
  "('dk, 'ek) kem_lib \<Rightarrow> c_int \<Rightarrow> addr \<Rightarrow> usize \<Rightarrow> addr \<Rightarrow> usize \<Rightarrow> addr \<Rightarrow> usize \<Rightarrow> addr
    \<Rightarrow> (world, c_int) comp" where
  "pqforge_mlkem_decapsulate L alg_id seckey seckey_len ct ct_len ss_out ss_cap ss_len =
    boundary (mlkem_decapsulate_body L alg_id seckey seckey_len ct ct_len ss_out ss_cap ss_len)"

section \<open>The verdicts on byte strings\<close>

definition mlkem_keygen_spec :: "('dk, 'ek) kem_lib \<Rightarrow> kem_algorithm \<Rightarrow> nat \<Rightarrow> (bytes \<times> bytes) verdict" where
  "mlkem_keygen_spec L alg g =
    on_ext (fst (dk_generate L alg g)) Internal (\<lambda>dk.
    on_ext (encapsulation_key L dk) Internal (\<lambda>ek.
    on_ext (ek_bytes L ek) Internal (\<lambda>pk.
    on_ext (dk_bytes L dk) Internal (\<lambda>sk. Produce (pk, sk)))))"

definition mlkem_encapsulate_spec ::
  "('dk, 'ek) kem_lib \<Rightarrow> kem_algorithm \<Rightarrow> bytes \<Rightarrow> nat \<Rightarrow> (bytes \<times> bytes) verdict" where
  "mlkem_encapsulate_spec L alg pk g =
    on_ext (ek_new L alg pk) InvalidKey (\<lambda>ek.
    on_ext (fst (encapsulate L ek g)) Internal Produce)"

definition mlkem_encapsulate_rng :: "('dk, 'ek) kem_lib \<Rightarrow> kem_algorithm \<Rightarrow> bytes \<Rightarrow> nat \<Rightarrow> nat" where
  "mlkem_encapsulate_rng L alg pk g =
    (case ek_new L alg pk of ExtOk ek \<Rightarrow> snd (encapsulate L ek g) | _ \<Rightarrow> g)"

definition mlkem_decapsulate_spec :: "('dk, 'ek) kem_lib \<Rightarrow> kem_algorithm \<Rightarrow> bytes \<Rightarrow> bytes \<Rightarrow> bytes verdict" where
  "mlkem_decapsulate_spec L alg sk ct =
    on_ext (dk_new L alg sk) InvalidKey (\<lambda>dk.
    on_ext (decapsulate L dk ct) InvalidCiphertext Produce)"

text \<open>
  FIPS 203 correctness: exported keys are read back, and decapsulation recovers the
  encapsulated secret for every pair of random draws without a decryption failure.
\<close>

definition kem_correct :: "('dk, 'ek) kem_lib \<Rightarrow> kem_algorithm \<Rightarrow> (nat \<Rightarrow> nat \<Rightarrow> bool) \<Rightarrow> bool" where
  "kem_correct L alg good \<longleftrightarrow>
    (\<forall>g dk ek pk sk. fst (dk_generate L alg g) = ExtOk dk \<longrightarrow> encapsulation_key L dk = ExtOk ek \<longrightarrow>
       ek_bytes L ek = ExtOk pk \<longrightarrow> dk_bytes L dk = ExtOk sk \<longrightarrow>
       ek_new L alg pk = ExtOk ek \<and> dk_new L alg sk = ExtOk dk \<and>
       (\<forall>g' ct ss. good g g' \<longrightarrow> fst (encapsulate L ek g') = ExtOk (ct, ss) \<longrightarrow>
          decapsulate L dk ct = ExtOk ss))"

section \<open>The entry points deliver the verdicts\<close>

lemma mlkem_keygen_delivers:
  assumes "kem_alg alg_id = Some alg"
    and "out_ok (mem w) o1 c1" "len_ok (mem w) l1" "out_ok (mem w) o2 c2" "len_ok (mem w) l2"
  shows "pqforge_mlkem_keygen L alg_id o1 c1 l1 o2 c2 l2 w =
    then_wipe (wiped_second (mlkem_keygen_spec L alg (rng w)))
      (deliver_two (mlkem_keygen_spec L alg (rng w)) o1 c1 l1 o2 c2 l2
        (w\<lparr>rng := snd (dk_generate L alg (rng w))\<rparr>))"
  using assms
  by (simp add: pqforge_mlkem_keygen_def mlkem_keygen_body_def mlkem_keygen_spec_def boundary_simps
      on_ext_def split: ext.splits)

lemma mlkem_encapsulate_delivers:
  assumes "kem_alg alg_id = Some alg" "slice_at (mem w) pubkey n pk"
    and "out_ok (mem w) o1 c1" "len_ok (mem w) l1" "out_ok (mem w) o2 c2" "len_ok (mem w) l2"
  shows "pqforge_mlkem_encapsulate L alg_id pubkey n o1 c1 l1 o2 c2 l2 w =
    then_wipe (wiped_second (mlkem_encapsulate_spec L alg pk (rng w)))
      (deliver_two (mlkem_encapsulate_spec L alg pk (rng w)) o1 c1 l1 o2 c2 l2
        (w\<lparr>rng := mlkem_encapsulate_rng L alg pk (rng w)\<rparr>))"
  using assms
  by (simp add: pqforge_mlkem_encapsulate_def mlkem_encapsulate_body_def mlkem_encapsulate_spec_def
      mlkem_encapsulate_rng_def boundary_simps on_ext_def split: ext.splits prod.splits)

lemma mlkem_decapsulate_delivers:
  assumes "kem_alg alg_id = Some alg" "slice_at (mem w) seckey n sk" "slice_at (mem w) ct m c"
    and "out_ok (mem w) out cap" "len_ok (mem w) len"
  shows "pqforge_mlkem_decapsulate L alg_id seckey n ct m out cap len w =
    then_wipe (wiped_only (mlkem_decapsulate_spec L alg sk c))
      (deliver (mlkem_decapsulate_spec L alg sk c) out cap len w)"
  using assms
  by (simp add: pqforge_mlkem_decapsulate_def mlkem_decapsulate_body_def mlkem_decapsulate_spec_def
      boundary_simps on_ext_def split: ext.splits)

text \<open>A produced result that fits is handed out whole.\<close>

lemma mlkem_keygen_fits:
  assumes "kem_alg aid = Some alg" "mlkem_keygen_spec L alg (rng w) = Produce (pk, sk)"
    and "fits (mem w) o1 c1 l1 pk" "fits (mem w) o2 c2 l2 sk"
  shows "\<exists>w'. pqforge_mlkem_keygen L aid o1 c1 l1 o2 c2 l2 w = (Done (code Ok), w') \<and>
    mem w' = put_result o2 l2 sk (put_result o1 l1 pk (mem w)) \<and> rng w' = snd (dk_generate L alg (rng w))"
  unfolding mlkem_keygen_delivers [OF assms(1) fits_contract [OF assms(3)] fits_contract [OF assms(4)]]
  using deliver_two_fits [OF assms(2), of "w\<lparr>rng := snd (dk_generate L alg (rng w))\<rparr>"] assms(3,4)
  by fastforce

lemma mlkem_encapsulate_fits:
  assumes "kem_alg aid = Some alg" "slice_at (mem w) pubkey n pk"
    and "mlkem_encapsulate_spec L alg pk (rng w) = Produce (ct, ss)"
    and "fits (mem w) o1 c1 l1 ct" "fits (mem w) o2 c2 l2 ss"
  shows "\<exists>w'. pqforge_mlkem_encapsulate L aid pubkey n o1 c1 l1 o2 c2 l2 w = (Done (code Ok), w') \<and>
    mem w' = put_result o2 l2 ss (put_result o1 l1 ct (mem w))"
  unfolding mlkem_encapsulate_delivers
    [OF assms(1,2) fits_contract [OF assms(4)] fits_contract [OF assms(5)]]
  using deliver_two_fits [OF assms(3), of "w\<lparr>rng := mlkem_encapsulate_rng L alg pk (rng w)\<rparr>"] assms(4,5)
  by fastforce

lemma mlkem_decapsulate_fits:
  assumes "kem_alg aid = Some alg" "slice_at (mem w) seckey n sk" "slice_at (mem w) ct m c"
    and "mlkem_decapsulate_spec L alg sk c = Produce ss" "fits (mem w) out cap len ss"
  shows "\<exists>w'. pqforge_mlkem_decapsulate L aid seckey n ct m out cap len w = (Done (code Ok), w') \<and>
    mem w' = put_result out len ss (mem w)"
  unfolding mlkem_decapsulate_delivers [OF assms(1-3) fits_contract [OF assms(5)]]
  using deliver_fits [OF assms(4,5)] by blast

text \<open>
  FIPS 203: key generation and encapsulation to a generated key succeed, with outputs of
  fixed sizes.
\<close>

definition kem_sizes :: "('dk, 'ek) kem_lib \<Rightarrow> kem_algorithm \<Rightarrow> nat \<Rightarrow> nat \<Rightarrow> nat \<Rightarrow> nat \<Rightarrow> bool" where
  "kem_sizes L alg pk_len sk_len ct_len ss_len \<longleftrightarrow>
    (\<forall>g. \<exists>pk sk. mlkem_keygen_spec L alg g = Produce (pk, sk) \<and> length pk = pk_len \<and> length sk = sk_len \<and>
      (\<forall>g'. \<exists>ct ss. mlkem_encapsulate_spec L alg pk g' = Produce (ct, ss) \<and>
        length ct = ct_len \<and> length ss = ss_len))"

lemma kem_sizes_keygen:
  assumes "kem_sizes L alg n m k l"
  obtains pk sk where "mlkem_keygen_spec L alg g = Produce (pk, sk)" "length pk = n" "length sk = m"
  using assms unfolding kem_sizes_def by metis

lemma kem_agrees:
  assumes "kem_correct L alg good" "mlkem_keygen_spec L alg g = Produce (pk, sk)"
    and "mlkem_encapsulate_spec L alg pk g' = Produce (ct, ss)" "good g g'"
  shows "mlkem_decapsulate_spec L alg sk ct = Produce ss"
proof -
  obtain dk ek where k: "fst (dk_generate L alg g) = ExtOk dk" "encapsulation_key L dk = ExtOk ek"
    "ek_bytes L ek = ExtOk pk" "dk_bytes L dk = ExtOk sk"
    using assms(2) by (auto simp: mlkem_keygen_spec_def on_ext_def split: ext.splits)
  then have r: "ek_new L alg pk = ExtOk ek" "dk_new L alg sk = ExtOk dk"
    and d: "\<And>ct ss. fst (encapsulate L ek g') = ExtOk (ct, ss) \<Longrightarrow> decapsulate L dk ct = ExtOk ss"
    using assms(1,4) unfolding kem_correct_def by blast+
  have "fst (encapsulate L ek g') = ExtOk (ct, ss)"
    using assms(3) r(1) by (auto simp: mlkem_encapsulate_spec_def on_ext_def split: ext.splits)
  then show ?thesis by (simp add: mlkem_decapsulate_spec_def r d)
qed

text \<open>What decapsulation answers on every branch.\<close>

lemma kem_decapsulate_errors:
  assumes "slice_at (mem w) seckey n sk" "slice_at (mem w) ct m c"
    and "out_ok (mem w) out cap" "len_ok (mem w) len" "kem_alg aid = Some alg"
  shows "pqforge_mlkem_decapsulate L aid seckey n ct m out cap len w =
    (case dk_new L alg sk of
       ExtErr \<Rightarrow> (Done (code InvalidKey), w)
     | ExtPanic p \<Rightarrow> (Done (code Internal), run_hook p w)
     | ExtOk dk \<Rightarrow> (case decapsulate L dk c of
         ExtErr \<Rightarrow> (Done (code InvalidCiphertext), w)
       | ExtPanic p \<Rightarrow> (Done (code Internal), run_hook p w)
       | ExtOk ss \<Rightarrow> (Done (code (write_out_status ss out cap len)),
           zeroizing_drop ss (w\<lparr>mem := write_out_mem ss out cap len (mem w)\<rparr>)))) \<and>
   pqforge_mlkem_decapsulate L aid 0 n ct m out cap len w = (Done (code NullArgument), w) \<and>
   (kem_alg bad = None \<longrightarrow>
      pqforge_mlkem_decapsulate L bad seckey n ct m out cap len w = (Done (code InvalidKey), w))"
proof -
  have 1: "pqforge_mlkem_decapsulate L aid 0 n ct m out cap len w = (Done (code NullArgument), w)"
    and 2: "kem_alg bad = None \<Longrightarrow>
      pqforge_mlkem_decapsulate L bad seckey n ct m out cap len w = (Done (code InvalidKey), w)"
    using assms(5)
    by (simp_all add: pqforge_mlkem_decapsulate_def mlkem_decapsulate_body_def boundary_returns is_null_def)
  show ?thesis
    using 1 2 by (simp add: mlkem_decapsulate_delivers [OF assms(5,1-4)] mlkem_decapsulate_spec_def
        split: ext.splits)
qed

interpretation mlkem_keygen: ffi_entry
  "\<lambda>(L, i, o1, c1, l1, o2, c2, l2). mlkem_keygen_body L i o1 c1 l1 o2 c2 l2"
  "\<lambda>(L, i, o1, c1, l1, o2, c2, l2) w.
     out_ok (mem w) o1 c1 \<and> len_ok (mem w) l1 \<and> out_ok (mem w) o2 c2 \<and> len_ok (mem w) l2"
  by unfold_locales
     (auto simp: mlkem_keygen_body_def intro!: contained_intros dest!: rng_call_Done write_out_Done_keeps
       split: option.splits)

interpretation mlkem_encapsulate: ffi_entry
  "\<lambda>(L, i, pk, n, o1, c1, l1, o2, c2, l2). mlkem_encapsulate_body L i pk n o1 c1 l1 o2 c2 l2"
  "\<lambda>(L, i, pk, n, o1, c1, l1, o2, c2, l2) w. in_ok (mem w) pk n \<and>
     out_ok (mem w) o1 c1 \<and> len_ok (mem w) l1 \<and> out_ok (mem w) o2 c2 \<and> len_ok (mem w) l2"
  by unfold_locales
     (auto simp: mlkem_encapsulate_body_def in_ok_def intro!: contained_intros dest!: rng_call_Done write_out_Done_keeps
       split: option.splits)

interpretation mlkem_decapsulate: ffi_entry
  "\<lambda>(L, i, sk, n, ct, m, out, cap, len). mlkem_decapsulate_body L i sk n ct m out cap len"
  "\<lambda>(L, i, sk, n, ct, m, out, cap, len) w. in_ok (mem w) sk n \<and> in_ok (mem w) ct m \<and>
     out_ok (mem w) out cap \<and> len_ok (mem w) len"
  by unfold_locales
     (auto simp: mlkem_decapsulate_body_def in_ok_def intro!: contained_intros split: option.splits)

end
