(* ===== verification/Test_Kem.thy ===== *)
theory Test_Kem
  imports Test_Harness Kem
begin

text \<open>
  The unit tests of \<open>crypto/kem.rs\<close>: key generation, encapsulation and decapsulation called
  one after the other on each other's output vectors.
\<close>

section \<open>Calls and tests\<close>

definition KEM_PK :: nat where "KEM_PK = 1184"
definition KEM_SK :: nat where "KEM_SK = 2400"
definition KEM_CT :: nat where "KEM_CT = 1088"
definition KEM_SS :: nat where "KEM_SS = 32"

lemmas kem_size_defs = KEM_PK_def KEM_SK_def KEM_CT_def KEM_SS_def

definition kem_keygen_call ::
  "('dk, 'ek) kem_lib \<Rightarrow> c_int \<Rightarrow> nat \<Rightarrow> nat \<Rightarrow> (c_int \<times> (bytes \<times> usize) \<times> (bytes \<times> usize)) test" where
  "kem_keygen_call L alg cap1 cap2 =
    call2 [] cap1 cap2 (\<lambda>_ o1 c1 l1 o2 c2 l2. pqforge_mlkem_keygen L alg o1 c1 l1 o2 c2 l2)"

definition kem_encapsulate_call ::
  "('dk, 'ek) kem_lib \<Rightarrow> c_int \<Rightarrow> bytes \<Rightarrow> nat \<Rightarrow> nat \<Rightarrow> nat
    \<Rightarrow> (c_int \<times> (bytes \<times> usize) \<times> (bytes \<times> usize)) test" where
  "kem_encapsulate_call L alg pk n cap1 cap2 =
    call2 [pk] cap1 cap2 (\<lambda>ps o1 c1 l1 o2 c2 l2.
      pqforge_mlkem_encapsulate L alg (ps ! 0) (of_nat n) o1 c1 l1 o2 c2 l2)"

definition kem_decapsulate_call ::
  "('dk, 'ek) kem_lib \<Rightarrow> c_int \<Rightarrow> bytes \<Rightarrow> nat \<Rightarrow> bytes \<Rightarrow> nat \<Rightarrow> nat \<Rightarrow> (c_int \<times> bytes \<times> usize) test" where
  "kem_decapsulate_call L alg sk n ct m cap =
    call1 [sk, ct] cap (\<lambda>ps out out_cap out_len.
      pqforge_mlkem_decapsulate L alg (ps ! 0) (of_nat n) (ps ! 1) (of_nat m) out out_cap out_len)"

definition keygen_encapsulate_decapsulate_round_trip :: "('dk, 'ek) kem_lib \<Rightarrow> unit test" where
  "keygen_encapsulate_decapsulate_round_trip L =
    bind_comp (kem_keygen_call L 1 KEM_PK KEM_SK) (\<lambda>(rc, (pk, pl), (sk, sl)).
    bind_comp (assert_that (rc = code Ok)) (\<lambda>_.
    bind_comp (assert_that ((unat pl, unat sl) = (KEM_PK, KEM_SK))) (\<lambda>_.
    bind_comp (kem_encapsulate_call L 1 pk KEM_PK KEM_CT KEM_SS) (\<lambda>(rc, (ct, cl), (ss1, s1l)).
    bind_comp (assert_that (rc = code Ok)) (\<lambda>_.
    bind_comp (assert_that ((unat cl, unat s1l) = (KEM_CT, KEM_SS))) (\<lambda>_.
    bind_comp (kem_decapsulate_call L 1 sk KEM_SK ct KEM_CT KEM_SS) (\<lambda>(rc, ss2, _).
    bind_comp (assert_that (rc = code Ok)) (\<lambda>_.
    assert_that (ss1 = ss2)))))))))"

definition buffer_too_small_reports_required_length :: "('dk, 'ek) kem_lib \<Rightarrow> unit test" where
  "buffer_too_small_reports_required_length L =
    bind_comp (kem_keygen_call L 1 10 KEM_SK) (\<lambda>(rc, (_, pl), _).
    bind_comp (assert_that (rc = code BufferTooSmall)) (\<lambda>_.
    assert_that (unat pl = KEM_PK)))"

definition kem_unknown_algorithm_is_invalid_key :: "('dk, 'ek) kem_lib \<Rightarrow> unit test" where
  "kem_unknown_algorithm_is_invalid_key L =
    bind_comp (kem_keygen_call L 99 2000 4000) (\<lambda>(rc, _, _).
    assert_that (rc = code InvalidKey))"

section \<open>What the tests check\<close>

lemma yields_kem_keygen:
  assumes "t_ok s" "kem_alg aid = Some alg" "cap1 \<le> isize_max" "cap2 \<le> isize_max"
  shows "yields (kem_keygen_call L aid cap1 cap2) s
    (seen2 cap1 cap2 (mlkem_keygen_spec L alg (rng (t_world s)))) (snd (dk_generate L alg (rng (t_world s))))"
  unfolding kem_keygen_call_def
  by (rule yields_call2 [OF assms(1) _ assms(3,4)])
     (simp_all add: short_def mlkem_keygen_delivers [OF assms(2)])

lemma yields_kem_encapsulate:
  assumes "t_ok s" "kem_alg aid = Some alg" "cap1 \<le> isize_max" "cap2 \<le> isize_max"
    and "length pk = n" "n \<le> isize_max"
  shows "yields (kem_encapsulate_call L aid pk n cap1 cap2) s
    (seen2 cap1 cap2 (mlkem_encapsulate_spec L alg pk (rng (t_world s))))
    (mlkem_encapsulate_rng L alg pk (rng (t_world s)))"
  unfolding kem_encapsulate_call_def
  by (rule yields_call2 [OF assms(1) _ assms(3,4)])
     (use assms(5,6) in \<open>simp_all add: short_def mlkem_encapsulate_delivers [OF assms(2) inputs_at_nth]\<close>)

lemma yields_kem_decapsulate:
  assumes "t_ok s" "kem_alg aid = Some alg" "cap \<le> isize_max"
    and "length sk = n" "n \<le> isize_max" "length ct = m" "m \<le> isize_max"
  shows "yields (kem_decapsulate_call L aid sk n ct m cap) s
    (seen1 cap (mlkem_decapsulate_spec L alg sk ct)) (rng (t_world s))"
  unfolding kem_decapsulate_call_def
  by (rule yields_call1 [OF assms(1) _ assms(3)])
     (use assms(4-7) in \<open>simp_all add: short_def mlkem_decapsulate_delivers [OF assms(2) inputs_at_nth inputs_at_nth]\<close>)

lemma kem_round_trip_passes:
  fixes L :: "('dk, 'ek) kem_lib"
  assumes "t_ok s" "kem_sizes L ML_KEM_768 KEM_PK KEM_SK KEM_CT KEM_SS" "kem_correct L ML_KEM_768 good"
    and "good (rng (t_world s)) (snd (dk_generate L ML_KEM_768 (rng (t_world s))))"
  shows "passes (keygen_encapsulate_decapsulate_round_trip L) s"
proof -
  let ?g = "rng (t_world s)" and ?g' = "snd (dk_generate L ML_KEM_768 (rng (t_world s)))"
  obtain pk sk ct ss where k: "mlkem_keygen_spec L ML_KEM_768 ?g = Produce (pk, sk)" "length pk = KEM_PK" "length sk = KEM_SK"
    and e: "mlkem_encapsulate_spec L ML_KEM_768 pk ?g' = Produce (ct, ss)" "length ct = KEM_CT" "length ss = KEM_SS"
    using assms(2) unfolding kem_sizes_def by metis
  note d = kem_agrees [OF assms(3) k(1) e(1) assms(4)]
  have alg: "kem_alg 1 = Some ML_KEM_768" by (simp add: kem_alg_def)
  have size: "KEM_PK \<le> isize_max" "KEM_SK \<le> isize_max" "KEM_CT \<le> isize_max" "KEM_SS \<le> isize_max"
    by (simp_all add: kem_size_defs isize_max_def)
  have 3: "passes (bind_comp (kem_decapsulate_call L 1 sk KEM_SK ct KEM_CT KEM_SS) (\<lambda>(rc, ss2, _).
      bind_comp (assert_that (rc = code Ok)) (\<lambda>_. assert_that (ss = ss2)))) s'" if "t_ok s'" for s'
    by (rule passes_step [OF yields_kem_decapsulate [OF that alg]])
       (simp_all add: size k e d seen1_Produce)
  have 2: "passes (bind_comp (kem_encapsulate_call L 1 pk KEM_PK KEM_CT KEM_SS) (\<lambda>(rc, (ct, cl), (ss1, s1l)).
      bind_comp (assert_that (rc = code Ok)) (\<lambda>_.
      bind_comp (assert_that ((unat cl, unat s1l) = (KEM_CT, KEM_SS))) (\<lambda>_.
      bind_comp (kem_decapsulate_call L 1 sk KEM_SK ct KEM_CT KEM_SS) (\<lambda>(rc, ss2, _).
      bind_comp (assert_that (rc = code Ok)) (\<lambda>_. assert_that (ss1 = ss2))))))) s'"
    if "t_ok s'" "rng (t_world s') = ?g'" for s'
    by (rule passes_step [OF yields_kem_encapsulate [OF that(1) alg]])
       (use that(2) 3 in \<open>simp_all add: size k e seen2_Produce unat_isize\<close>)
  show ?thesis
    unfolding keygen_encapsulate_decapsulate_round_trip_def
    by (rule passes_step [OF yields_kem_keygen [OF assms(1) alg]])
       (use 2 in \<open>simp_all add: size k seen2_Produce unat_isize\<close>)
qed

lemma kem_small_buffer_passes:
  assumes "t_ok s" "kem_sizes L ML_KEM_768 KEM_PK KEM_SK KEM_CT KEM_SS"
  shows "passes (buffer_too_small_reports_required_length L) s"
proof -
  obtain pk sk where k: "mlkem_keygen_spec L ML_KEM_768 (rng (t_world s)) = Produce (pk, sk)" "length pk = KEM_PK"
    by (rule kem_sizes_keygen [OF assms(2)])
  show ?thesis
    unfolding buffer_too_small_reports_required_length_def
    by (rule passes_step [OF yields_kem_keygen [OF assms(1), of 1 ML_KEM_768]])
       (simp_all add: kem_alg_def k seen2_def seen1_def kem_size_defs isize_max_def unat_of_nat)
qed

lemma kem_unknown_algorithm_passes:
  assumes "t_ok s"
  shows "passes (kem_unknown_algorithm_is_invalid_key L) s"
proof -
  have "yields (kem_keygen_call L 99 2000 4000) s (seen2 2000 4000 (Refuse InvalidKey)) (rng (t_world s))"
    unfolding kem_keygen_call_def
    by (rule yields_call2 [OF assms, where bufs = "[]"])
       (simp_all add: short_def isize_max_def pqforge_mlkem_keygen_def mlkem_keygen_body_def kem_alg_def boundary_simps)
  then have "passes (kem_unknown_algorithm_is_invalid_key L) s \<longleftrightarrow> True"
    unfolding kem_unknown_algorithm_is_invalid_key_def by (rule passes_bind) (simp add: seen2_Refuse)
  then show ?thesis by simp
qed

end
