(* ===== verification/Sign.thy ===== *)
theory Sign
  imports Contract
begin

text \<open>
  \<open>crypto/sign.rs\<close>: ML-DSA across the C-ABI. The primitives of \<open>aws-lc-rs\<close> are the record
  \<open>dsa_lib\<close>, over its opaque key pair.
\<close>

datatype dsa_algorithm = ML_DSA_44 | ML_DSA_65 | ML_DSA_87

record 'kp dsa_lib =
  dsa_generate :: "dsa_algorithm \<Rightarrow> nat \<Rightarrow> 'kp ext \<times> nat"
  dsa_from_raw :: "dsa_algorithm \<Rightarrow> bytes \<Rightarrow> 'kp ext"
  dsa_from_seed :: "dsa_algorithm \<Rightarrow> bytes \<Rightarrow> 'kp ext"
  dsa_public :: "'kp \<Rightarrow> bytes"
  dsa_raw_private :: "'kp \<Rightarrow> bytes ext"
  dsa_signature_len :: "'kp \<Rightarrow> nat"
  dsa_sign :: "'kp \<Rightarrow> bytes \<Rightarrow> nat \<Rightarrow> bytes ext \<times> nat" \<comment> \<open>the bytes written to the buffer\<close>
  dsa_verify :: "dsa_algorithm \<Rightarrow> bytes \<Rightarrow> bytes \<Rightarrow> bytes \<Rightarrow> unit ext"

text \<open>The \<open>match alg_id\<close> each entry point repeats.\<close>

definition dsa_alg :: "c_int \<Rightarrow> dsa_algorithm option" where
  "dsa_alg aid =
    (if aid = 0 then Some ML_DSA_44 else if aid = 1 then Some ML_DSA_65
     else if aid = 2 then Some ML_DSA_87 else None)"

section \<open>Entry points\<close>

definition mldsa_keygen_body ::
  "'kp dsa_lib \<Rightarrow> c_int \<Rightarrow> addr \<Rightarrow> usize \<Rightarrow> addr \<Rightarrow> addr \<Rightarrow> usize \<Rightarrow> addr \<Rightarrow> closure" where
  "mldsa_keygen_body L alg_id pub_out pub_cap pub_len sec_out sec_cap sec_len =
    (case dsa_alg alg_id of
       None \<Rightarrow> returns InvalidKey
     | Some alg \<Rightarrow>
       bind_comp (rng_call (dsa_generate L alg)) (\<lambda>r.
       ext_case r (fails (EInternal ''ML-DSA keygen failed'')) (\<lambda>kp.
       ext_case (dsa_raw_private L kp) (fails (EInternal ''export raw secret key failed'')) (\<lambda>raw_secret.
       with_zeroizing raw_secret (\<lambda>secret.
       bind_comp (write_out (dsa_public L kp) pub_out pub_cap pub_len) (\<lambda>s1.
       if s1 \<noteq> Ok then returns s1
       else bind_comp (write_out secret sec_out sec_cap sec_len) (\<lambda>s2. returns s2)))))))"

definition pqforge_mldsa_keygen ::
  "'kp dsa_lib \<Rightarrow> c_int \<Rightarrow> addr \<Rightarrow> usize \<Rightarrow> addr \<Rightarrow> addr \<Rightarrow> usize \<Rightarrow> addr \<Rightarrow> (world, c_int) comp" where
  "pqforge_mldsa_keygen L alg_id pub_out pub_cap pub_len sec_out sec_cap sec_len =
    boundary (mldsa_keygen_body L alg_id pub_out pub_cap pub_len sec_out sec_cap sec_len)"

text \<open>\<open>vec![0u8; needed]\<close> after \<open>kp.sign\<close> has written into it.\<close>

definition filled :: "nat \<Rightarrow> bytes \<Rightarrow> bytes" where
  "filled needed bs = bs @ drop (length bs) (replicate needed 0)"

definition mldsa_sign_body ::
  "'kp dsa_lib \<Rightarrow> c_int \<Rightarrow> addr \<Rightarrow> usize \<Rightarrow> addr \<Rightarrow> usize \<Rightarrow> addr \<Rightarrow> usize \<Rightarrow> addr \<Rightarrow> closure" where
  "mldsa_sign_body L alg_id seckey seckey_len msg msg_len sig_out sig_cap sig_len =
    (if is_null seckey \<or> (is_null msg \<and> msg_len \<noteq> 0) then returns NullArgument
     else
       bind_comp (from_raw_parts seckey seckey_len) (\<lambda>sec_slice.
       bind_comp (msg_or_empty msg msg_len) (\<lambda>msg_slice.
       case dsa_alg alg_id of
         None \<Rightarrow> returns InvalidKey
       | Some alg \<Rightarrow>
         ext_case (dsa_from_raw L alg sec_slice) (returns InvalidKey) (\<lambda>kp.
         bind_comp (rng_call (dsa_sign L kp msg_slice)) (\<lambda>r.
         ext_case r (fails (EInternal ''ML-DSA sign failed'')) (\<lambda>written.
         bind_comp (write_out (filled (dsa_signature_len L kp) written) sig_out sig_cap sig_len)
           (\<lambda>s. returns s)))))))"

definition pqforge_mldsa_sign ::
  "'kp dsa_lib \<Rightarrow> c_int \<Rightarrow> addr \<Rightarrow> usize \<Rightarrow> addr \<Rightarrow> usize \<Rightarrow> addr \<Rightarrow> usize \<Rightarrow> addr \<Rightarrow> (world, c_int) comp" where
  "pqforge_mldsa_sign L alg_id seckey seckey_len msg msg_len sig_out sig_cap sig_len =
    boundary (mldsa_sign_body L alg_id seckey seckey_len msg msg_len sig_out sig_cap sig_len)"

definition mldsa_verify_body ::
  "'kp dsa_lib \<Rightarrow> c_int \<Rightarrow> addr \<Rightarrow> usize \<Rightarrow> addr \<Rightarrow> usize \<Rightarrow> addr \<Rightarrow> usize \<Rightarrow> closure" where
  "mldsa_verify_body L alg_id pubkey pubkey_len msg msg_len sg sig_len =
    (if is_null pubkey \<or> is_null sg \<or> (is_null msg \<and> msg_len \<noteq> 0) then returns NullArgument
     else
       bind_comp (from_raw_parts pubkey pubkey_len) (\<lambda>pub_slice.
       bind_comp (from_raw_parts sg sig_len) (\<lambda>sig_slice.
       bind_comp (msg_or_empty msg msg_len) (\<lambda>msg_slice.
       case dsa_alg alg_id of
         None \<Rightarrow> returns InvalidKey
       | Some alg \<Rightarrow>
         ext_case (dsa_verify L alg pub_slice msg_slice sig_slice) (returns AuthFailed)
           (\<lambda>_. returns Ok)))))"

definition pqforge_mldsa_verify ::
  "'kp dsa_lib \<Rightarrow> c_int \<Rightarrow> addr \<Rightarrow> usize \<Rightarrow> addr \<Rightarrow> usize \<Rightarrow> addr \<Rightarrow> usize \<Rightarrow> (world, c_int) comp" where
  "pqforge_mldsa_verify L alg_id pubkey pubkey_len msg msg_len sg sig_len =
    boundary (mldsa_verify_body L alg_id pubkey pubkey_len msg msg_len sg sig_len)"

definition mldsa_keygen_from_seed_body ::
  "'kp dsa_lib \<Rightarrow> c_int \<Rightarrow> addr \<Rightarrow> usize \<Rightarrow> addr \<Rightarrow> usize \<Rightarrow> addr \<Rightarrow> addr \<Rightarrow> usize \<Rightarrow> addr \<Rightarrow> closure" where
  "mldsa_keygen_from_seed_body L alg_id seed seed_len pub_out pub_cap pub_len sec_out sec_cap sec_len =
    (if is_null seed then returns NullArgument
     else
       bind_comp (from_raw_parts seed seed_len) (\<lambda>seed_slice.
       case dsa_alg alg_id of
         None \<Rightarrow> returns InvalidKey
       | Some alg \<Rightarrow>
         ext_case (dsa_from_seed L alg seed_slice) (returns InvalidKey) (\<lambda>kp.
         ext_case (dsa_raw_private L kp) (fails (EInternal ''export raw secret key failed'')) (\<lambda>raw_secret.
         with_zeroizing raw_secret (\<lambda>secret.
         bind_comp (write_out (dsa_public L kp) pub_out pub_cap pub_len) (\<lambda>s1.
         if s1 \<noteq> Ok then returns s1
         else bind_comp (write_out secret sec_out sec_cap sec_len) (\<lambda>s2. returns s2)))))))"

definition pqforge_mldsa_keygen_from_seed ::
  "'kp dsa_lib \<Rightarrow> c_int \<Rightarrow> addr \<Rightarrow> usize \<Rightarrow> addr \<Rightarrow> usize \<Rightarrow> addr \<Rightarrow> addr \<Rightarrow> usize \<Rightarrow> addr
    \<Rightarrow> (world, c_int) comp" where
  "pqforge_mldsa_keygen_from_seed L alg_id seed seed_len pub_out pub_cap pub_len sec_out sec_cap sec_len =
    boundary (mldsa_keygen_from_seed_body L alg_id seed seed_len pub_out pub_cap pub_len
      sec_out sec_cap sec_len)"

section \<open>The verdicts on byte strings\<close>

definition exported_pair :: "'kp dsa_lib \<Rightarrow> 'kp \<Rightarrow> (bytes \<times> bytes) verdict" where
  "exported_pair L kp = on_ext (dsa_raw_private L kp) Internal (\<lambda>sk. Produce (dsa_public L kp, sk))"

definition mldsa_keygen_spec :: "'kp dsa_lib \<Rightarrow> dsa_algorithm \<Rightarrow> nat \<Rightarrow> (bytes \<times> bytes) verdict" where
  "mldsa_keygen_spec L alg g = on_ext (fst (dsa_generate L alg g)) Internal (exported_pair L)"

definition mldsa_from_seed_spec :: "'kp dsa_lib \<Rightarrow> c_int \<Rightarrow> bytes \<Rightarrow> (bytes \<times> bytes) verdict" where
  "mldsa_from_seed_spec L aid seed = (case dsa_alg aid of
       None \<Rightarrow> Refuse InvalidKey
     | Some alg \<Rightarrow> on_ext (dsa_from_seed L alg seed) InvalidKey (exported_pair L))"

definition mldsa_sign_spec :: "'kp dsa_lib \<Rightarrow> dsa_algorithm \<Rightarrow> bytes \<Rightarrow> bytes \<Rightarrow> nat \<Rightarrow> bytes verdict" where
  "mldsa_sign_spec L alg sk msg g =
    on_ext (dsa_from_raw L alg sk) InvalidKey (\<lambda>kp.
    on_ext (fst (dsa_sign L kp msg g)) Internal (\<lambda>bs.
      Produce (filled (dsa_signature_len L kp) bs)))"

definition mldsa_sign_rng :: "'kp dsa_lib \<Rightarrow> dsa_algorithm \<Rightarrow> bytes \<Rightarrow> bytes \<Rightarrow> nat \<Rightarrow> nat" where
  "mldsa_sign_rng L alg sk msg g =
    (case dsa_from_raw L alg sk of ExtOk kp \<Rightarrow> snd (dsa_sign L kp msg g) | _ \<Rightarrow> g)"

definition mldsa_verify_spec :: "'kp dsa_lib \<Rightarrow> c_int \<Rightarrow> bytes \<Rightarrow> bytes \<Rightarrow> bytes \<Rightarrow> PqForgeStatus" where
  "mldsa_verify_spec L aid pk msg sg = (case dsa_alg aid of
       None \<Rightarrow> InvalidKey
     | Some alg \<Rightarrow> (case dsa_verify L alg pk msg sg of
           ExtOk _ \<Rightarrow> Ok | ExtErr \<Rightarrow> AuthFailed | ExtPanic _ \<Rightarrow> Internal))"

text \<open>
  FIPS 204: exported secret keys are read back as the key pair they came from, a signature
  fills its buffer, and it verifies under the exported public key.
\<close>

definition dsa_correct :: "'kp dsa_lib \<Rightarrow> dsa_algorithm \<Rightarrow> bool" where
  "dsa_correct L alg \<longleftrightarrow>
    (\<forall>kp sk. dsa_raw_private L kp = ExtOk sk \<longrightarrow>
       (\<exists>kp'. dsa_from_raw L alg sk = ExtOk kp' \<and> dsa_public L kp' = dsa_public L kp)) \<and>
    (\<forall>kp msg g bs. fst (dsa_sign L kp msg g) = ExtOk bs \<longrightarrow>
       length bs = dsa_signature_len L kp \<and> dsa_verify L alg (dsa_public L kp) msg bs = ExtOk ())"

section \<open>Lemmas\<close>

lemma length_filled: "length bs \<le> n \<Longrightarrow> length (filled n bs) = n"
  by (simp add: filled_def)

lemma filled_full [simp]: "length bs = n \<Longrightarrow> filled n bs = bs"
  by (simp add: filled_def)

lemma mldsa_keygen_delivers:
  assumes "dsa_alg alg_id = Some alg"
    and "out_ok (mem w) o1 c1" "len_ok (mem w) l1" "out_ok (mem w) o2 c2" "len_ok (mem w) l2"
  shows "pqforge_mldsa_keygen L alg_id o1 c1 l1 o2 c2 l2 w =
    then_wipe (wiped_second (mldsa_keygen_spec L alg (rng w)))
      (deliver_two (mldsa_keygen_spec L alg (rng w)) o1 c1 l1 o2 c2 l2
        (w\<lparr>rng := snd (dsa_generate L alg (rng w))\<rparr>))"
  using assms
  by (simp add: pqforge_mldsa_keygen_def mldsa_keygen_body_def mldsa_keygen_spec_def
      exported_pair_def boundary_simps on_ext_def split: ext.splits)

lemma mldsa_from_seed_delivers:
  assumes "slice_at (mem w) seed n sd"
    and "out_ok (mem w) o1 c1" "len_ok (mem w) l1" "out_ok (mem w) o2 c2" "len_ok (mem w) l2"
  shows "pqforge_mldsa_keygen_from_seed L alg_id seed n o1 c1 l1 o2 c2 l2 w =
    then_wipe (wiped_second (mldsa_from_seed_spec L alg_id sd))
      (deliver_two (mldsa_from_seed_spec L alg_id sd) o1 c1 l1 o2 c2 l2 w)"
  using assms
  by (simp add: pqforge_mldsa_keygen_from_seed_def mldsa_keygen_from_seed_body_def
      mldsa_from_seed_spec_def exported_pair_def boundary_simps on_ext_def
      split: option.splits ext.splits)

lemma mldsa_sign_delivers:
  assumes "dsa_alg alg_id = Some alg" "slice_at (mem w) seckey n sk" "input_at (mem w) msg m ms"
    and "out_ok (mem w) out cap" "len_ok (mem w) len"
  shows "pqforge_mldsa_sign L alg_id seckey n msg m out cap len w =
    deliver (mldsa_sign_spec L alg sk ms (rng w)) out cap len
      (w\<lparr>rng := mldsa_sign_rng L alg sk ms (rng w)\<rparr>)"
  using assms input_at_null [OF assms(3)]
  by (auto simp: pqforge_mldsa_sign_def mldsa_sign_body_def mldsa_sign_spec_def mldsa_sign_rng_def
      boundary_simps on_ext_def split: ext.splits)

lemma mldsa_verify_delivers:
  assumes "slice_at (mem w) pubkey n pk" "input_at (mem w) msg m ms" "slice_at (mem w) sg l sig"
  shows "\<exists>w'. pqforge_mldsa_verify L alg_id pubkey n msg m sg l w =
      (Done (code (mldsa_verify_spec L alg_id pk ms sig)), w') \<and> mem w' = mem w"
  using assms input_at_null [OF assms(2)]
  by (auto simp: pqforge_mldsa_verify_def mldsa_verify_body_def mldsa_verify_spec_def boundary_simps
      split: option.splits ext.splits)

lemma mldsa_verify_rng: "pqforge_mldsa_verify L aid pk n msg m sg l w = (r, w') \<Longrightarrow> r = Done c \<Longrightarrow> rng w' = rng w"
  by (auto simp: pqforge_mldsa_verify_def mldsa_verify_body_def boundary_def guard_def bind_comp_def
      from_raw_parts_def msg_or_empty_def run_hook_def ext_case_def returns_def
      split: if_splits option.splits ext.splits outcome.splits prod.splits panic_hook.splits)

text \<open>A produced result that fits is handed out whole.\<close>

lemma mldsa_keygen_fits:
  assumes "dsa_alg aid = Some alg" "mldsa_keygen_spec L alg (rng w) = Produce (pk, sk)"
    and "fits (mem w) o1 c1 l1 pk" "fits (mem w) o2 c2 l2 sk"
  shows "\<exists>w'. pqforge_mldsa_keygen L aid o1 c1 l1 o2 c2 l2 w = (Done (code Ok), w') \<and>
    mem w' = put_result o2 l2 sk (put_result o1 l1 pk (mem w)) \<and> rng w' = snd (dsa_generate L alg (rng w))"
  unfolding mldsa_keygen_delivers [OF assms(1) fits_contract [OF assms(3)] fits_contract [OF assms(4)]]
  using deliver_two_fits [OF assms(2), of "w\<lparr>rng := snd (dsa_generate L alg (rng w))\<rparr>"] assms(3,4)
  by fastforce

lemma mldsa_from_seed_fits:
  assumes "slice_at (mem w) seed n sd" "mldsa_from_seed_spec L aid sd = Produce (pk, sk)"
    and "fits (mem w) o1 c1 l1 pk" "fits (mem w) o2 c2 l2 sk"
  shows "\<exists>w'. pqforge_mldsa_keygen_from_seed L aid seed n o1 c1 l1 o2 c2 l2 w = (Done (code Ok), w') \<and>
    mem w' = put_result o2 l2 sk (put_result o1 l1 pk (mem w)) \<and> rng w' = rng w"
  unfolding mldsa_from_seed_delivers [OF assms(1) fits_contract [OF assms(3)] fits_contract [OF assms(4)]]
  by (rule deliver_two_fits [OF assms(2-4)])

lemma mldsa_sign_fits:
  assumes "dsa_alg aid = Some alg" "slice_at (mem w) seckey n sk" "input_at (mem w) msg m ms"
    and "mldsa_sign_spec L alg sk ms (rng w) = Produce sg" "fits (mem w) out cap len sg"
  shows "\<exists>w'. pqforge_mldsa_sign L aid seckey n msg m out cap len w = (Done (code Ok), w') \<and>
    mem w' = put_result out len sg (mem w)"
  unfolding mldsa_sign_delivers [OF assms(1-3) fits_contract [OF assms(5)]]
  using deliver_fits [OF assms(4), of "w\<lparr>rng := mldsa_sign_rng L alg sk ms (rng w)\<rparr>" out cap len "[]"] assms(5)
  by auto

text \<open>What a generated key signs, its public key verifies.\<close>

lemma dsa_signed_verifies:
  assumes "dsa_correct L alg" "dsa_alg aid = Some alg"
    and "mldsa_keygen_spec L alg g = Produce (pk, sk)" "mldsa_sign_spec L alg sk ms g' = Produce sg"
  shows "mldsa_verify_spec L aid pk ms sg = Ok"
proof -
  from assms(3) obtain kp where kp: "dsa_raw_private L kp = ExtOk sk" "pk = dsa_public L kp"
    by (auto simp: mldsa_keygen_spec_def exported_pair_def on_ext_def split: ext.splits)
  from assms(4) obtain kp' bs where kp': "dsa_from_raw L alg sk = ExtOk kp'"
    and bs: "fst (dsa_sign L kp' ms g') = ExtOk bs" and sg: "sg = filled (dsa_signature_len L kp') bs"
    by (auto simp: mldsa_sign_spec_def on_ext_def split: ext.splits)
  have "dsa_public L kp' = pk" using assms(1) kp kp' by (fastforce simp: dsa_correct_def)
  moreover have "length bs = dsa_signature_len L kp'"
    and "dsa_verify L alg (dsa_public L kp') ms bs = ExtOk ()"
    using assms(1) bs by (auto simp: dsa_correct_def)
  ultimately show ?thesis using assms(2) sg by (simp add: mldsa_verify_spec_def)
qed

text \<open>FIPS 204: keys and signatures are produced, of fixed sizes, and a seed has 32 bytes.\<close>

definition dsa_sizes :: "'kp dsa_lib \<Rightarrow> c_int \<Rightarrow> dsa_algorithm \<Rightarrow> nat \<Rightarrow> nat \<Rightarrow> nat \<Rightarrow> bool" where
  "dsa_sizes L aid alg pk_len sk_len sig_len \<longleftrightarrow>
    (\<forall>g. \<exists>pk sk. mldsa_keygen_spec L alg g = Produce (pk, sk) \<and> length pk = pk_len \<and> length sk = sk_len \<and>
      (\<forall>msg g'. \<exists>sg. mldsa_sign_spec L alg sk msg g' = Produce sg \<and> length sg = sig_len)) \<and>
    (\<forall>seed. if length seed = 32
      then \<exists>pk sk. mldsa_from_seed_spec L aid seed = Produce (pk, sk) \<and> length pk = pk_len \<and> length sk = sk_len
      else mldsa_from_seed_spec L aid seed = Refuse InvalidKey)"

lemma dsa_produced_lengths:
  assumes "dsa_sizes L aid alg n m l" "mldsa_keygen_spec L alg g = Produce (pk, sk)"
    and "mldsa_sign_spec L alg sk msg g' = Produce sg"
  shows "length pk = n" "length sk = m" "length sg = l"
  using assms unfolding dsa_sizes_def by (metis Pair_inject verdict.inject(2))+

interpretation mldsa_keygen: ffi_entry
  "\<lambda>(L, i, o1, c1, l1, o2, c2, l2). mldsa_keygen_body L i o1 c1 l1 o2 c2 l2"
  "\<lambda>(L, i, o1, c1, l1, o2, c2, l2) w.
     out_ok (mem w) o1 c1 \<and> len_ok (mem w) l1 \<and> out_ok (mem w) o2 c2 \<and> len_ok (mem w) l2"
  by unfold_locales
     (auto simp: mldsa_keygen_body_def intro!: contained_intros dest!: rng_call_Done write_out_Done_keeps
       split: option.splits)

interpretation mldsa_from_seed: ffi_entry
  "\<lambda>(L, i, seed, n, o1, c1, l1, o2, c2, l2). mldsa_keygen_from_seed_body L i seed n o1 c1 l1 o2 c2 l2"
  "\<lambda>(L, i, seed, n, o1, c1, l1, o2, c2, l2) w. in_ok (mem w) seed n \<and>
     out_ok (mem w) o1 c1 \<and> len_ok (mem w) l1 \<and> out_ok (mem w) o2 c2 \<and> len_ok (mem w) l2"
  by unfold_locales
     (auto simp: mldsa_keygen_from_seed_body_def in_ok_def intro!: contained_intros
       dest!: write_out_Done_keeps
       split: option.splits)

interpretation mldsa_sign: ffi_entry
  "\<lambda>(L, i, sk, n, msg, m, out, cap, len). mldsa_sign_body L i sk n msg m out cap len"
  "\<lambda>(L, i, sk, n, msg, m, out, cap, len) w. in_ok (mem w) sk n \<and> in_ok (mem w) msg m \<and>
     out_ok (mem w) out cap \<and> len_ok (mem w) len"
  by unfold_locales
     (auto simp: mldsa_sign_body_def in_ok_def intro!: contained_intros
       dest!: rng_call_Done msg_or_empty_Done split: option.splits)

interpretation mldsa_verify: ffi_entry
  "\<lambda>(L, i, pk, n, msg, m, sg, l). mldsa_verify_body L i pk n msg m sg l"
  "\<lambda>(L, i, pk, n, msg, m, sg, l) w. in_ok (mem w) pk n \<and> in_ok (mem w) msg m \<and> in_ok (mem w) sg l"
  by unfold_locales
     (auto simp: mldsa_verify_body_def in_ok_def intro!: contained_intros
       dest!: msg_or_empty_Done split: option.splits)

end
