(* ===== verification/Test_Sign.thy ===== *)
theory Test_Sign
  imports Test_Harness Sign Abi
begin

text \<open>
  The unit tests of \<open>crypto/sign.rs\<close>: generated and seeded key pairs, signatures and their
  verification.
\<close>

section \<open>Calls and helpers\<close>

definition DSA_PK :: nat where "DSA_PK = 1952"
definition DSA_SK :: nat where "DSA_SK = 4032"
definition DSA_SIG :: nat where "DSA_SIG = 3309"

lemmas dsa_size_defs = DSA_PK_def DSA_SK_def DSA_SIG_def

definition dsa_keygen_call ::
  "'kp dsa_lib \<Rightarrow> c_int \<Rightarrow> nat \<Rightarrow> nat \<Rightarrow> (c_int \<times> (bytes \<times> usize) \<times> (bytes \<times> usize)) test" where
  "dsa_keygen_call L alg cap1 cap2 =
    call2 [] cap1 cap2 (\<lambda>_ o1 c1 l1 o2 c2 l2. pqforge_mldsa_keygen L alg o1 c1 l1 o2 c2 l2)"

definition dsa_seeded_call ::
  "'kp dsa_lib \<Rightarrow> c_int \<Rightarrow> bytes \<Rightarrow> nat \<Rightarrow> nat \<Rightarrow> (c_int \<times> (bytes \<times> usize) \<times> (bytes \<times> usize)) test" where
  "dsa_seeded_call L alg seed cap1 cap2 =
    call2 [seed] cap1 cap2 (\<lambda>ps o1 c1 l1 o2 c2 l2.
      pqforge_mldsa_keygen_from_seed L alg (ps ! 0) (of_nat (length seed)) o1 c1 l1 o2 c2 l2)"

definition dsa_sign_call ::
  "'kp dsa_lib \<Rightarrow> c_int \<Rightarrow> bytes \<Rightarrow> bytes \<Rightarrow> nat \<Rightarrow> (c_int \<times> bytes \<times> usize) test" where
  "dsa_sign_call L alg sk msg cap =
    call1 [sk, msg] cap (\<lambda>ps out out_cap out_len.
      pqforge_mldsa_sign L alg (ps ! 0) (of_nat (length sk)) (ps ! 1) (of_nat (length msg)) out out_cap out_len)"

definition dsa_verify_call :: "'kp dsa_lib \<Rightarrow> c_int \<Rightarrow> bytes \<Rightarrow> bytes \<Rightarrow> bytes \<Rightarrow> nat \<Rightarrow> c_int test" where
  "dsa_verify_call L alg pk msg sg n =
    call0 [pk, msg, sg] (\<lambda>ps.
      pqforge_mldsa_verify L alg (ps ! 0) (of_nat (length pk)) (ps ! 1) (of_nat (length msg)) (ps ! 2) (of_nat n))"

definition dsa_test_keygen :: "'kp dsa_lib \<Rightarrow> (bytes \<times> bytes) test" where
  "dsa_test_keygen L =
    bind_comp (dsa_keygen_call L 1 (DSA_PK + 64) (DSA_SK + 64)) (\<lambda>(rc, (pk, pl), (sk, sl)).
    bind_comp (assert_that (rc = code Ok)) (\<lambda>_.
    bind_comp (assert_that ((unat pl, unat sl) = (DSA_PK, DSA_SK))) (\<lambda>_.
    ret (take (unat pl) pk, take (unat sl) sk))))"

section \<open>The tests\<close>

definition keygen_sign_verify_round_trip :: "'kp dsa_lib \<Rightarrow> unit test" where
  "keygen_sign_verify_round_trip L =
    bind_comp (dsa_test_keygen L) (\<lambda>(pk, sk).
    let msg = ascii_bytes ''pqforge ML-DSA self-test'' in
    bind_comp (dsa_sign_call L 1 sk msg DSA_SIG) (\<lambda>(rc, sg, sigl).
    bind_comp (assert_that (rc = code Ok)) (\<lambda>_.
    bind_comp (assert_that (unat sigl = DSA_SIG)) (\<lambda>_.
    bind_comp (dsa_verify_call L 1 pk msg sg DSA_SIG) (\<lambda>rc.
    assert_that (rc = code Ok))))))"

definition verify_rejects_tampered_message :: "'kp dsa_lib \<Rightarrow> unit test" where
  "verify_rejects_tampered_message L =
    bind_comp (dsa_test_keygen L) (\<lambda>(pk, sk).
    bind_comp (dsa_sign_call L 1 sk (ascii_bytes ''original message'') DSA_SIG) (\<lambda>(_, sg, _).
    bind_comp (dsa_verify_call L 1 pk (ascii_bytes ''tampered message'') sg DSA_SIG) (\<lambda>rc.
    assert_that (rc = code AuthFailed))))"

definition dsa_unknown_algorithm_is_invalid_key :: "'kp dsa_lib \<Rightarrow> unit test" where
  "dsa_unknown_algorithm_is_invalid_key L =
    bind_comp (dsa_keygen_call L 99 3000 5000) (\<lambda>(rc, _, _).
    assert_that (rc = code InvalidKey))"

definition dsa_pub_from_seed :: "'kp dsa_lib \<Rightarrow> bytes \<Rightarrow> bytes test" where
  "dsa_pub_from_seed L seed =
    bind_comp (dsa_seeded_call L 1 seed (DSA_PK + 64) (DSA_SK + 64)) (\<lambda>(rc, (pk, pl), _).
    bind_comp (assert_that (rc = code Ok)) (\<lambda>_.
    ret (take (unat pl) pk)))"

definition keygen_from_seed_is_deterministic :: "'kp dsa_lib \<Rightarrow> unit test" where
  "keygen_from_seed_is_deterministic L =
    (let seed = replicate 32 7
     in bind_comp (dsa_pub_from_seed L seed) (\<lambda>p1.
        bind_comp (dsa_pub_from_seed L seed) (\<lambda>p2.
        bind_comp (assert_that (p1 = p2)) (\<lambda>_.
        bind_comp (dsa_pub_from_seed L seed) (\<lambda>p3.
        bind_comp (dsa_pub_from_seed L (replicate 32 9)) (\<lambda>p4.
        bind_comp (assert_that (p3 \<noteq> p4)) (\<lambda>_.
        bind_comp (dsa_seeded_call L 1 (replicate 31 0) (DSA_PK + 64) (DSA_SK + 64)) (\<lambda>(rc, _, _).
        assert_that (rc = code InvalidKey)))))))))"

section \<open>What the calls yield\<close>

lemma yields_dsa_keygen:
  assumes "t_ok s" "dsa_alg aid = Some alg" "cap1 \<le> isize_max" "cap2 \<le> isize_max"
  shows "yields (dsa_keygen_call L aid cap1 cap2) s
    (seen2 cap1 cap2 (mldsa_keygen_spec L alg (rng (t_world s)))) (snd (dsa_generate L alg (rng (t_world s))))"
  unfolding dsa_keygen_call_def
  by (rule yields_call2 [OF assms(1) _ assms(3,4)])
     (simp_all add: short_def mldsa_keygen_delivers [OF assms(2)])

lemma yields_dsa_seeded:
  assumes "t_ok s" "cap1 \<le> isize_max" "cap2 \<le> isize_max" "length seed \<le> isize_max"
  shows "yields (dsa_seeded_call L aid seed cap1 cap2) s
    (seen2 cap1 cap2 (mldsa_from_seed_spec L aid seed)) (rng (t_world s))"
  unfolding dsa_seeded_call_def
  by (rule yields_call2 [OF assms(1) _ assms(2,3)])
     (use assms(4) in \<open>simp_all add: short_def mldsa_from_seed_delivers [OF inputs_at_nth]\<close>)

lemma yields_dsa_sign:
  assumes "t_ok s" "dsa_alg aid = Some alg" "cap \<le> isize_max" "length sk \<le> isize_max" "length msg \<le> isize_max"
  shows "yields (dsa_sign_call L aid sk msg cap) s
    (seen1 cap (mldsa_sign_spec L alg sk msg (rng (t_world s)))) (mldsa_sign_rng L alg sk msg (rng (t_world s)))"
  unfolding dsa_sign_call_def
  by (rule yields_call1 [OF assms(1) _ assms(3), where bufs = "[]"])
     (use assms(4,5) in \<open>simp_all add: short_def
        mldsa_sign_delivers [OF assms(2) inputs_at_nth slice_at_input [OF inputs_at_nth]]\<close>)

lemma yields_dsa_verify:
  assumes "t_ok s" "length pk \<le> isize_max" "length msg \<le> isize_max" "length sg = n" "n \<le> isize_max"
  shows "yields (dsa_verify_call L aid pk msg sg n) s (code (mldsa_verify_spec L aid pk msg sg)) (rng (t_world s))"
  unfolding dsa_verify_call_def
proof (rule yields_call0 [OF assms(1)])
  fix ps and w :: world assume i: "inputs_at w ps [pk, msg, sg]" and r: "rng w = rng (t_world s)"
  have "slice_at (mem w) (ps ! 0) (of_nat (length pk)) pk" "input_at (mem w) (ps ! 1) (of_nat (length msg)) msg"
    "slice_at (mem w) (ps ! 2) (of_nat n) sg"
    using inputs_at_list [OF i] assms(4) by (simp_all add: slice_at_input)
  from mldsa_verify_delivers [OF this, of L aid] mldsa_verify_rng r
  show "\<exists>w'. pqforge_mldsa_verify L aid (ps ! 0) (of_nat (length pk)) (ps ! 1) (of_nat (length msg)) (ps ! 2) (of_nat n) w =
      (Done (code (mldsa_verify_spec L aid pk msg sg)), w') \<and> rng w' = rng (t_world s)" by metis
qed (use assms in \<open>simp add: short_def\<close>)

section \<open>What the tests check\<close>

lemma dsa_size_bounds:
  "DSA_PK + 64 \<le> isize_max" "DSA_SK + 64 \<le> isize_max" "DSA_PK \<le> isize_max" "DSA_SK \<le> isize_max" "DSA_SIG \<le> isize_max"
  by (simp_all add: dsa_size_defs isize_max_def)

lemma dsa_alg_1: "dsa_alg 1 = Some ML_DSA_65"
  by (simp add: dsa_alg_def)

lemma yields_test_keygen:
  assumes "t_ok s" "mldsa_keygen_spec L ML_DSA_65 (rng (t_world s)) = Produce (pk, sk)"
    and "length pk = DSA_PK" "length sk = DSA_SK"
  shows "yields (dsa_test_keygen L) s (pk, sk) (snd (dsa_generate L ML_DSA_65 (rng (t_world s))))"
  unfolding dsa_test_keygen_def
  by (rule yields_bind [OF yields_dsa_keygen [OF assms(1) dsa_alg_1]])
     (use assms(2-) in \<open>simp_all add: dsa_size_bounds seen2_Produce unat_isize yields_Pair\<close>)

lemma passes_dsa_verify:
  assumes "t_ok s" "length pk \<le> isize_max" "length msg \<le> 1000" "length sg = n" "n \<le> isize_max"
  shows "passes (bind_comp (dsa_verify_call L aid pk msg sg n) (\<lambda>rc. assert_that (rc = c))) s \<longleftrightarrow>
    code (mldsa_verify_spec L aid pk msg sg) = c"
  by (rule passes_bind [OF yields_dsa_verify [OF assms(1,2) isize_small [OF assms(3)] assms(4,5)]]) simp

text \<open>Both tests first make a key pair and sign a message.\<close>

lemma passes_signed:
  assumes "t_ok s" "dsa_sizes L 1 ML_DSA_65 DSA_PK DSA_SK DSA_SIG" "length msg \<le> 1000"
    and keygen: "mldsa_keygen_spec L ML_DSA_65 (rng (t_world s)) = Produce (pk, sk)"
    and sign: "mldsa_sign_spec L ML_DSA_65 sk msg (snd (dsa_generate L ML_DSA_65 (rng (t_world s)))) = Produce sg"
    and k: "\<And>s'. t_ok s' \<Longrightarrow> passes (k pk (0, sg, of_nat DSA_SIG)) s' \<longleftrightarrow> P"
  shows "passes (bind_comp (dsa_test_keygen L) (\<lambda>(pk, sk). bind_comp (dsa_sign_call L 1 sk msg DSA_SIG) (k pk))) s \<longleftrightarrow> P"
proof -
  note l = dsa_produced_lengths [OF assms(2) keygen sign]
  note m = isize_small [OF assms(3)]
  show ?thesis
    by (rule passes_bind [OF yields_test_keygen [OF assms(1) keygen l(1,2)]], unfold prod.case,
        rule passes_bind [OF yields_dsa_sign [OF _ dsa_alg_1]])
       (simp_all add: l m dsa_size_bounds sign seen1_Produce k)
qed

lemma dsa_round_trip_passes:
  assumes "t_ok s" "dsa_sizes L 1 ML_DSA_65 DSA_PK DSA_SK DSA_SIG" "dsa_correct L ML_DSA_65"
  shows "passes (keygen_sign_verify_round_trip L) s"
proof -
  let ?m = "ascii_bytes ''pqforge ML-DSA self-test''"
  obtain pk sk sg where k: "mldsa_keygen_spec L ML_DSA_65 (rng (t_world s)) = Produce (pk, sk)"
    and g: "mldsa_sign_spec L ML_DSA_65 sk ?m (snd (dsa_generate L ML_DSA_65 (rng (t_world s)))) = Produce sg"
    using assms(2) unfolding dsa_sizes_def by metis
  note l = dsa_produced_lengths [OF assms(2) k g]
  have v: "mldsa_verify_spec L 1 pk ?m sg = Ok" by (rule dsa_signed_verifies [OF assms(3) dsa_alg_1 k g])
  have "passes (keygen_sign_verify_round_trip L) s \<longleftrightarrow> True"
    unfolding keygen_sign_verify_round_trip_def Let_def
    by (rule passes_signed [OF assms(1,2) _ k g])
       (simp_all add: unat_isize dsa_size_bounds passes_dsa_verify l v)
  then show ?thesis by simp
qed

lemma dsa_tampered_test_iff:
  assumes "t_ok s" "dsa_sizes L 1 ML_DSA_65 DSA_PK DSA_SK DSA_SIG"
    and "mldsa_keygen_spec L ML_DSA_65 (rng (t_world s)) = Produce (pk, sk)"
    and "mldsa_sign_spec L ML_DSA_65 sk (ascii_bytes ''original message'')
      (snd (dsa_generate L ML_DSA_65 (rng (t_world s)))) = Produce sg"
  shows "passes (verify_rejects_tampered_message L) s \<longleftrightarrow>
    mldsa_verify_spec L 1 pk (ascii_bytes ''tampered message'') sg = AuthFailed"
  unfolding verify_rejects_tampered_message_def
  by (rule passes_signed [OF assms(1,2) _ assms(3,4)])
     (simp_all add: dsa_size_bounds passes_dsa_verify dsa_produced_lengths [OF assms(2-4)])

lemma dsa_unknown_algorithm_passes:
  assumes "t_ok s"
  shows "passes (dsa_unknown_algorithm_is_invalid_key L) s"
proof -
  have "yields (dsa_keygen_call L 99 3000 5000) s (seen2 3000 5000 (Refuse InvalidKey)) (rng (t_world s))"
    unfolding dsa_keygen_call_def
    by (rule yields_call2 [OF assms, where bufs = "[]"])
       (simp_all add: short_def isize_max_def pqforge_mldsa_keygen_def mldsa_keygen_body_def dsa_alg_def boundary_simps)
  then show ?thesis
    unfolding dsa_unknown_algorithm_is_invalid_key_def by (rule passes_step) (simp add: seen2_Refuse)
qed

lemma yields_pub_from_seed:
  assumes "t_ok s" "mldsa_from_seed_spec L 1 seed = Produce (pk, sk)" "length pk = DSA_PK" "length sk = DSA_SK"
    and "length seed = 32"
  shows "yields (dsa_pub_from_seed L seed) s pk (rng (t_world s))"
  unfolding dsa_pub_from_seed_def
  by (rule yields_bind [OF yields_dsa_seeded [OF assms(1)]])
     (use assms(2-) in \<open>simp_all add: dsa_size_bounds isize_small seen2_Produce unat_isize yields_Pair\<close>)

text \<open>Determinism needs nothing of the primitives; that different seeds give different keys does.\<close>

lemma dsa_seeded_test_iff:
  assumes "t_ok s" "dsa_sizes L 1 ML_DSA_65 DSA_PK DSA_SK DSA_SIG"
  shows "passes (keygen_from_seed_is_deterministic L) s \<longleftrightarrow>
    (\<forall>pk sk pk' sk'. mldsa_from_seed_spec L 1 (replicate 32 7) = Produce (pk, sk) \<longrightarrow>
      mldsa_from_seed_spec L 1 (replicate 32 9) = Produce (pk', sk') \<longrightarrow> pk \<noteq> pk')"
proof -
  have seeds: "if length seed = 32
      then \<exists>pk sk. mldsa_from_seed_spec L 1 seed = Produce (pk, sk) \<and> length pk = DSA_PK \<and> length sk = DSA_SK
      else mldsa_from_seed_spec L 1 seed = Refuse InvalidKey" for seed
    using assms(2) unfolding dsa_sizes_def by blast
  obtain pk sk pk' sk' where k: "mldsa_from_seed_spec L 1 (replicate 32 7) = Produce (pk, sk)" "length pk = DSA_PK" "length sk = DSA_SK"
    and k': "mldsa_from_seed_spec L 1 (replicate 32 9) = Produce (pk', sk')" "length pk' = DSA_PK" "length sk' = DSA_SK"
    using seeds [of "replicate 32 7"] seeds [of "replicate 32 9"] by auto
  have refused: "mldsa_from_seed_spec L 1 (replicate 31 0) = Refuse InvalidKey"
    using seeds [of "replicate 31 0"] by simp
  note pub = yields_pub_from_seed [OF _ k] and pub' = yields_pub_from_seed [OF _ k']
  have last: "passes (bind_comp (dsa_seeded_call L 1 (replicate 31 0) (DSA_PK + 64) (DSA_SK + 64)) (\<lambda>(rc, _, _).
      assert_that (rc = 1))) s' \<longleftrightarrow> True" if "t_ok s'" for s'
    by (rule passes_bind [OF yields_dsa_seeded [OF that]])
       (simp_all add: dsa_size_bounds isize_small refused seen2_Refuse)
  have "passes (keygen_from_seed_is_deterministic L) s \<longleftrightarrow> pk \<noteq> pk'"
    unfolding keygen_from_seed_is_deterministic_def Let_def
    apply (rule passes_bind [OF pub [OF assms(1)]], simp)
    apply (rule passes_bind [OF pub], assumption, simp)
    apply simp
    apply (rule passes_bind [OF pub], assumption, simp)
    apply (rule passes_bind [OF pub'], assumption, simp)
    apply (simp add: last)
    done
  then show ?thesis using k k' by auto
qed

end
