(* ===== verification/Classical.thy ===== *)
theory Classical
  imports Contract
begin

text \<open>
  \<open>crypto/classical.rs\<close>: X25519 and Ed25519 across the C-ABI. The primitives of
  \<open>aws-lc-rs\<close> are the record \<open>classical_lib\<close>, over its opaque X25519 private key and
  Ed25519 key pair.
\<close>

record ('xk, 'ek) classical_lib =
  rand_fill :: "nat \<Rightarrow> nat \<Rightarrow> bytes ext \<times> nat" \<comment> \<open>length, CSPRNG state\<close>
  x_private :: "bytes \<Rightarrow> 'xk ext"
  x_public :: "'xk \<Rightarrow> bytes ext"
  x_agree :: "'xk \<Rightarrow> bytes \<Rightarrow> bytes ext"
  ed_from_seed :: "bytes \<Rightarrow> 'ek ext"
  ed_public :: "'ek \<Rightarrow> bytes"
  ed_sign :: "'ek \<Rightarrow> bytes \<Rightarrow> panic_payload + bytes" \<comment> \<open>no error return, may panic\<close>
  ed_verify :: "bytes \<Rightarrow> bytes \<Rightarrow> bytes \<Rightarrow> unit ext"   \<comment> \<open>public key, message, signature\<close>

definition X25519_KEY_LEN :: nat where
  "X25519_KEY_LEN = 32"

definition ED25519_SEED_LEN :: nat where
  "ED25519_SEED_LEN = 32"

definition ED25519_PUBLIC_LEN :: nat where
  "ED25519_PUBLIC_LEN = 32"

definition ED25519_SIGNATURE_LEN :: nat where
  "ED25519_SIGNATURE_LEN = 64"

text \<open>
  The key generators keep their secret in one \<open>Zeroizing\<close> buffer, created as 32 zero bytes
  and then filled. Each branch is the scope of that buffer with the contents it has by
  then: what \<open>rand::fill\<close> left in it, the copied seed, or still the zeros.
\<close>

definition after_fill :: "nat \<Rightarrow> bytes ext \<Rightarrow> bytes" where
  "after_fill n r = (case r of ExtOk bs \<Rightarrow> bs | _ \<Rightarrow> replicate n 0)"

section \<open>X25519\<close>

definition x25519_keygen_body ::
  "('xk, 'ek) classical_lib \<Rightarrow> addr \<Rightarrow> usize \<Rightarrow> addr \<Rightarrow> usize \<Rightarrow> addr \<Rightarrow> addr \<Rightarrow> usize \<Rightarrow> addr
    \<Rightarrow> closure" where
  "x25519_keygen_body L seed seed_len pub_out pub_cap pub_len sec_out sec_cap sec_len =
    (let with_secret = (\<lambda>secret.
        ext_case (x_private L secret) (fails (EInvalidKey ''x25519 private key rejected'')) (\<lambda>private.
        ext_case (x_public L private) (fails (EInternal ''x25519 public key failed'')) (\<lambda>public.
        bind_comp (write_out public pub_out pub_cap pub_len) (\<lambda>s1.
        if s1 \<noteq> Ok then returns s1
        else bind_comp (write_out secret sec_out sec_cap sec_len) (\<lambda>s2. returns s2)))))
      in
        if is_null seed then
          bind_comp (rng_call (rand_fill L X25519_KEY_LEN)) (\<lambda>r.
          with_zeroizing (after_fill X25519_KEY_LEN r) (\<lambda>buf.
          ext_case r (fails (EInternal ''x25519 rng failed'')) with_secret))
        else if unat seed_len \<noteq> X25519_KEY_LEN then
          with_zeroizing (replicate X25519_KEY_LEN 0) (\<lambda>_. returns InvalidKey)
        else
          bind_comp (from_raw_parts seed seed_len) (\<lambda>s.
          with_zeroizing s with_secret))"

definition pqforge_x25519_keygen ::
  "('xk, 'ek) classical_lib \<Rightarrow> addr \<Rightarrow> usize \<Rightarrow> addr \<Rightarrow> usize \<Rightarrow> addr \<Rightarrow> addr \<Rightarrow> usize \<Rightarrow> addr
    \<Rightarrow> (world, c_int) comp" where
  "pqforge_x25519_keygen L seed seed_len pub_out pub_cap pub_len sec_out sec_cap sec_len =
    boundary (x25519_keygen_body L seed seed_len pub_out pub_cap pub_len sec_out sec_cap sec_len)"

definition x25519_ecdh_body ::
  "('xk, 'ek) classical_lib \<Rightarrow> addr \<Rightarrow> usize \<Rightarrow> addr \<Rightarrow> usize \<Rightarrow> addr \<Rightarrow> usize \<Rightarrow> addr \<Rightarrow> closure" where
  "x25519_ecdh_body L secret secret_len peer_pub peer_pub_len out out_cap out_len =
    (if is_null secret \<or> is_null peer_pub then returns NullArgument
     else if unat secret_len \<noteq> X25519_KEY_LEN \<or> unat peer_pub_len \<noteq> X25519_KEY_LEN
     then returns InvalidKey
     else
       bind_comp (from_raw_parts secret secret_len) (\<lambda>sec.
       bind_comp (from_raw_parts peer_pub peer_pub_len) (\<lambda>peer.
       ext_case (x_private L sec) (fails (EInvalidKey ''x25519 private key rejected'')) (\<lambda>private.
       ext_case (x_agree L private peer) (fails (EInvalidKey ''x25519 ecdh failed'')) (\<lambda>shared.
       with_zeroizing shared (\<lambda>shared.
       bind_comp (write_out shared out out_cap out_len) (\<lambda>s. returns s)))))))"

definition pqforge_x25519_ecdh ::
  "('xk, 'ek) classical_lib \<Rightarrow> addr \<Rightarrow> usize \<Rightarrow> addr \<Rightarrow> usize \<Rightarrow> addr \<Rightarrow> usize \<Rightarrow> addr
    \<Rightarrow> (world, c_int) comp" where
  "pqforge_x25519_ecdh L secret secret_len peer_pub peer_pub_len out out_cap out_len =
    boundary (x25519_ecdh_body L secret secret_len peer_pub peer_pub_len out out_cap out_len)"

section \<open>Ed25519\<close>

definition ed25519_keygen_body ::
  "('xk, 'ek) classical_lib \<Rightarrow> addr \<Rightarrow> usize \<Rightarrow> addr \<Rightarrow> usize \<Rightarrow> addr \<Rightarrow> addr \<Rightarrow> usize \<Rightarrow> addr
    \<Rightarrow> closure" where
  "ed25519_keygen_body L seed seed_len pub_out pub_cap pub_len sec_out sec_cap sec_len =
    (let with_seed = (\<lambda>seed_buf.
        ext_case (ed_from_seed L seed_buf) (fails (EInvalidKey ''ed25519 seed rejected'')) (\<lambda>kp.
        bind_comp (write_out (ed_public L kp) pub_out pub_cap pub_len) (\<lambda>s1.
        if s1 \<noteq> Ok then returns s1
        else bind_comp (write_out seed_buf sec_out sec_cap sec_len) (\<lambda>s2. returns s2))))
      in
        if is_null seed then
          bind_comp (rng_call (rand_fill L ED25519_SEED_LEN)) (\<lambda>r.
          with_zeroizing (after_fill ED25519_SEED_LEN r) (\<lambda>buf.
          ext_case r (fails (EInternal ''ed25519 rng failed'')) with_seed))
        else if unat seed_len \<noteq> ED25519_SEED_LEN then
          with_zeroizing (replicate ED25519_SEED_LEN 0) (\<lambda>_. returns InvalidKey)
        else
          bind_comp (from_raw_parts seed seed_len) (\<lambda>s.
          with_zeroizing s with_seed))"

definition pqforge_ed25519_keygen ::
  "('xk, 'ek) classical_lib \<Rightarrow> addr \<Rightarrow> usize \<Rightarrow> addr \<Rightarrow> usize \<Rightarrow> addr \<Rightarrow> addr \<Rightarrow> usize \<Rightarrow> addr
    \<Rightarrow> (world, c_int) comp" where
  "pqforge_ed25519_keygen L seed seed_len pub_out pub_cap pub_len sec_out sec_cap sec_len =
    boundary (ed25519_keygen_body L seed seed_len pub_out pub_cap pub_len sec_out sec_cap sec_len)"

definition ed25519_public_from_seed_body ::
  "('xk, 'ek) classical_lib \<Rightarrow> addr \<Rightarrow> usize \<Rightarrow> addr \<Rightarrow> usize \<Rightarrow> addr \<Rightarrow> closure" where
  "ed25519_public_from_seed_body L seed seed_len pub_out pub_cap pub_len =
    (if is_null seed then returns NullArgument
     else if unat seed_len \<noteq> ED25519_SEED_LEN then returns InvalidKey
     else
       bind_comp (from_raw_parts seed seed_len) (\<lambda>s.
       ext_case (ed_from_seed L s) (fails (EInvalidKey ''ed25519 seed rejected'')) (\<lambda>kp.
       bind_comp (write_out (ed_public L kp) pub_out pub_cap pub_len) (\<lambda>s1. returns s1))))"

definition pqforge_ed25519_public_from_seed ::
  "('xk, 'ek) classical_lib \<Rightarrow> addr \<Rightarrow> usize \<Rightarrow> addr \<Rightarrow> usize \<Rightarrow> addr \<Rightarrow> (world, c_int) comp" where
  "pqforge_ed25519_public_from_seed L seed seed_len pub_out pub_cap pub_len =
    boundary (ed25519_public_from_seed_body L seed seed_len pub_out pub_cap pub_len)"

definition ed25519_sign_body ::
  "('xk, 'ek) classical_lib \<Rightarrow> addr \<Rightarrow> usize \<Rightarrow> addr \<Rightarrow> usize \<Rightarrow> addr \<Rightarrow> usize \<Rightarrow> addr \<Rightarrow> closure" where
  "ed25519_sign_body L seed seed_len msg msg_len sig_out sig_cap sig_len =
    (if is_null seed \<or> (is_null msg \<and> msg_len \<noteq> 0) then returns NullArgument
     else if unat seed_len \<noteq> ED25519_SEED_LEN then returns InvalidKey
     else
       bind_comp (from_raw_parts seed seed_len) (\<lambda>s.
       bind_comp (msg_or_empty msg msg_len) (\<lambda>msg_slice.
       ext_case (ed_from_seed L s) (fails (EInvalidKey ''ed25519 seed rejected'')) (\<lambda>kp.
       infallible (ed_sign L kp msg_slice) (\<lambda>sg.
       bind_comp (write_out sg sig_out sig_cap sig_len) (\<lambda>s1. returns s1))))))"

definition pqforge_ed25519_sign ::
  "('xk, 'ek) classical_lib \<Rightarrow> addr \<Rightarrow> usize \<Rightarrow> addr \<Rightarrow> usize \<Rightarrow> addr \<Rightarrow> usize \<Rightarrow> addr
    \<Rightarrow> (world, c_int) comp" where
  "pqforge_ed25519_sign L seed seed_len msg msg_len sig_out sig_cap sig_len =
    boundary (ed25519_sign_body L seed seed_len msg msg_len sig_out sig_cap sig_len)"

definition ed25519_verify_body ::
  "('xk, 'ek) classical_lib \<Rightarrow> addr \<Rightarrow> usize \<Rightarrow> addr \<Rightarrow> usize \<Rightarrow> addr \<Rightarrow> usize \<Rightarrow> closure" where
  "ed25519_verify_body L pubkey pubkey_len msg msg_len sg sig_len =
    (if is_null pubkey \<or> is_null sg \<or> (is_null msg \<and> msg_len \<noteq> 0) then returns NullArgument
     else if unat pubkey_len \<noteq> ED25519_PUBLIC_LEN \<or> unat sig_len \<noteq> ED25519_SIGNATURE_LEN
     then returns AuthFailed
     else
       bind_comp (from_raw_parts pubkey pubkey_len) (\<lambda>pub_slice.
       bind_comp (from_raw_parts sg sig_len) (\<lambda>sig_slice.
       bind_comp (msg_or_empty msg msg_len) (\<lambda>msg_slice.
       ext_case (ed_verify L pub_slice msg_slice sig_slice) (returns AuthFailed) (\<lambda>_. returns Ok)))))"

definition pqforge_ed25519_verify ::
  "('xk, 'ek) classical_lib \<Rightarrow> addr \<Rightarrow> usize \<Rightarrow> addr \<Rightarrow> usize \<Rightarrow> addr \<Rightarrow> usize \<Rightarrow> (world, c_int) comp" where
  "pqforge_ed25519_verify L pubkey pubkey_len msg msg_len sg sig_len =
    boundary (ed25519_verify_body L pubkey pubkey_len msg msg_len sg sig_len)"

section \<open>The verdicts on byte strings\<close>

definition x25519_pair :: "('xk, 'ek) classical_lib \<Rightarrow> bytes \<Rightarrow> (bytes \<times> bytes) verdict" where
  "x25519_pair L secret =
    on_ext (x_private L secret) InvalidKey (\<lambda>private.
    on_ext (x_public L private) Internal (\<lambda>public. Produce (public, secret)))"

definition x25519_shared :: "('xk, 'ek) classical_lib \<Rightarrow> bytes \<Rightarrow> bytes \<Rightarrow> bytes verdict" where
  "x25519_shared L sec peer =
    on_ext (x_private L sec) InvalidKey (\<lambda>private.
    on_ext (x_agree L private peer) InvalidKey Produce)"

definition ed25519_pair :: "('xk, 'ek) classical_lib \<Rightarrow> bytes \<Rightarrow> (bytes \<times> bytes) verdict" where
  "ed25519_pair L seed = on_ext (ed_from_seed L seed) InvalidKey (\<lambda>kp. Produce (ed_public L kp, seed))"

definition ed25519_public_spec :: "('xk, 'ek) classical_lib \<Rightarrow> bytes \<Rightarrow> bytes verdict" where
  "ed25519_public_spec L seed = on_ext (ed_from_seed L seed) InvalidKey (\<lambda>kp. Produce (ed_public L kp))"

definition ed25519_sign_spec :: "('xk, 'ek) classical_lib \<Rightarrow> bytes \<Rightarrow> bytes \<Rightarrow> bytes verdict" where
  "ed25519_sign_spec L seed msg =
    on_ext (ed_from_seed L seed) InvalidKey (\<lambda>kp.
      case ed_sign L kp msg of Inl p \<Rightarrow> Blow p | Inr sg \<Rightarrow> Produce sg)"

definition ed25519_verify_spec :: "('xk, 'ek) classical_lib \<Rightarrow> bytes \<Rightarrow> bytes \<Rightarrow> bytes \<Rightarrow> PqForgeStatus" where
  "ed25519_verify_spec L pk msg sg =
    (if length pk \<noteq> 32 \<or> length sg \<noteq> 64 then AuthFailed
     else case ed_verify L pk msg sg of ExtOk _ \<Rightarrow> Ok | ExtErr \<Rightarrow> AuthFailed | ExtPanic _ \<Rightarrow> Internal)"

text \<open>RFC 7748: both sides of an exchange compute the same secret.\<close>

definition dh_correct :: "('xk, 'ek) classical_lib \<Rightarrow> bool" where
  "dh_correct L \<longleftrightarrow>
    (\<forall>a b ka kb pa pb. x_private L a = ExtOk ka \<longrightarrow> x_private L b = ExtOk kb \<longrightarrow>
       x_public L ka = ExtOk pa \<longrightarrow> x_public L kb = ExtOk pb \<longrightarrow>
       x_agree L ka pb = x_agree L kb pa)"

text \<open>RFC 8032: signatures have 64 bytes, public keys 32, and signatures verify.\<close>

definition ed_correct :: "('xk, 'ek) classical_lib \<Rightarrow> bool" where
  "ed_correct L \<longleftrightarrow>
    (\<forall>s kp m sg. ed_from_seed L s = ExtOk kp \<longrightarrow> ed_sign L kp m = Inr sg \<longrightarrow>
       length (ed_public L kp) = 32 \<and> length sg = 64 \<and> ed_verify L (ed_public L kp) m sg = ExtOk ())"

section \<open>The entry points deliver the verdicts\<close>

lemmas classical_len_defs = X25519_KEY_LEN_def ED25519_SEED_LEN_def ED25519_PUBLIC_LEN_def
  ED25519_SIGNATURE_LEN_def

text \<open>The secret a key generator ends up with, and the state of the generator of randomness after it.\<close>

definition drawn :: "('xk, 'ek) classical_lib \<Rightarrow> bytes option \<Rightarrow> nat \<Rightarrow> bytes ext" where
  "drawn L seed g = (case seed of
       Some s \<Rightarrow> if length s = 32 then ExtOk s else ExtErr
     | None \<Rightarrow> fst (rand_fill L 32 g))"

definition drawn_rng :: "('xk, 'ek) classical_lib \<Rightarrow> bytes option \<Rightarrow> nat \<Rightarrow> nat" where
  "drawn_rng L seed g = (case seed of Some s \<Rightarrow> g | None \<Rightarrow> snd (rand_fill L 32 g))"

definition refused_draw :: "bytes option \<Rightarrow> PqForgeStatus" where
  "refused_draw seed = (case seed of Some s \<Rightarrow> InvalidKey | None \<Rightarrow> Internal)"

lemma x25519_keygen_seeded:
  assumes "slice_at (mem w) seed n sd"
    and "out_ok (mem w) o1 c1" "len_ok (mem w) l1" "out_ok (mem w) o2 c2" "len_ok (mem w) l2"
  shows "pqforge_x25519_keygen L seed n o1 c1 l1 o2 c2 l2 w =
    then_wipe [if length sd = 32 then sd else replicate 32 0]
      (deliver_two (if length sd = 32 then x25519_pair L sd else Refuse InvalidKey)
        o1 c1 l1 o2 c2 l2 w)"
  using assms slice_at_length [OF assms(1)]
  by (simp add: pqforge_x25519_keygen_def x25519_keygen_body_def x25519_pair_def boundary_simps
      on_ext_def classical_len_defs Let_def split: ext.splits)

lemma x25519_keygen_fresh:
  assumes "is_null seed"
    and "out_ok (mem w) o1 c1" "len_ok (mem w) l1" "out_ok (mem w) o2 c2" "len_ok (mem w) l2"
  shows "pqforge_x25519_keygen L seed n o1 c1 l1 o2 c2 l2 w =
    then_wipe [after_fill 32 (fst (rand_fill L 32 (rng w)))]
      (deliver_two (on_ext (fst (rand_fill L 32 (rng w))) Internal (x25519_pair L))
        o1 c1 l1 o2 c2 l2 (w\<lparr>rng := snd (rand_fill L 32 (rng w))\<rparr>))"
  using assms
  by (simp add: pqforge_x25519_keygen_def x25519_keygen_body_def x25519_pair_def boundary_simps
      on_ext_def classical_len_defs Let_def split: ext.splits)

lemma x25519_ecdh_delivers:
  assumes "slice_at (mem w) secret n sec" "slice_at (mem w) peer m pb"
    and "out_ok (mem w) out cap" "len_ok (mem w) len"
    and "length sec = 32" "length pb = 32"
  shows "pqforge_x25519_ecdh L secret n peer m out cap len w =
    then_wipe (wiped_only (x25519_shared L sec pb)) (deliver (x25519_shared L sec pb) out cap len w)"
  using assms slice_at_length [OF assms(1)] slice_at_length [OF assms(2)]
  by (simp add: pqforge_x25519_ecdh_def x25519_ecdh_body_def x25519_shared_def boundary_simps
      on_ext_def classical_len_defs split: ext.splits)

lemma x25519_ecdh_refuses:
  assumes "slice_at (mem w) secret n sec" "slice_at (mem w) peer m pb" "\<not> (length sec = 32 \<and> length pb = 32)"
  shows "pqforge_x25519_ecdh L secret n peer m out cap len w = (Done (code InvalidKey), w)"
  using assms slice_at_length [OF assms(1)] slice_at_length [OF assms(2)]
  by (auto simp: pqforge_x25519_ecdh_def x25519_ecdh_body_def boundary_simps classical_len_defs)

lemma ed25519_keygen_seeded:
  assumes "slice_at (mem w) seed n sd"
    and "out_ok (mem w) o1 c1" "len_ok (mem w) l1" "out_ok (mem w) o2 c2" "len_ok (mem w) l2"
  shows "pqforge_ed25519_keygen L seed n o1 c1 l1 o2 c2 l2 w =
    then_wipe [if length sd = 32 then sd else replicate 32 0]
      (deliver_two (if length sd = 32 then ed25519_pair L sd else Refuse InvalidKey)
        o1 c1 l1 o2 c2 l2 w)"
  using assms slice_at_length [OF assms(1)]
  by (simp add: pqforge_ed25519_keygen_def ed25519_keygen_body_def ed25519_pair_def boundary_simps
      on_ext_def classical_len_defs Let_def split: ext.splits)

lemma ed25519_keygen_fresh:
  assumes "is_null seed"
    and "out_ok (mem w) o1 c1" "len_ok (mem w) l1" "out_ok (mem w) o2 c2" "len_ok (mem w) l2"
  shows "pqforge_ed25519_keygen L seed n o1 c1 l1 o2 c2 l2 w =
    then_wipe [after_fill 32 (fst (rand_fill L 32 (rng w)))]
      (deliver_two (on_ext (fst (rand_fill L 32 (rng w))) Internal (ed25519_pair L))
        o1 c1 l1 o2 c2 l2 (w\<lparr>rng := snd (rand_fill L 32 (rng w))\<rparr>))"
  using assms
  by (simp add: pqforge_ed25519_keygen_def ed25519_keygen_body_def ed25519_pair_def boundary_simps
      on_ext_def classical_len_defs Let_def split: ext.splits)

lemma ed25519_public_delivers:
  assumes "slice_at (mem w) seed n sd" "out_ok (mem w) out cap" "len_ok (mem w) len"
  shows "pqforge_ed25519_public_from_seed L seed n out cap len w =
    deliver (if length sd = 32 then ed25519_public_spec L sd else Refuse InvalidKey) out cap len w"
  using assms slice_at_length [OF assms(1)]
  by (simp add: pqforge_ed25519_public_from_seed_def ed25519_public_from_seed_body_def
      ed25519_public_spec_def boundary_simps on_ext_def classical_len_defs split: ext.splits)

lemma ed25519_sign_delivers:
  assumes "slice_at (mem w) seed n sd" "input_at (mem w) msg m ms"
    and "out_ok (mem w) out cap" "len_ok (mem w) len"
  shows "pqforge_ed25519_sign L seed n msg m out cap len w =
    deliver (if length sd = 32 then ed25519_sign_spec L sd ms else Refuse InvalidKey) out cap len w"
  using assms slice_at_length [OF assms(1)] input_at_null [OF assms(2)]
  by (auto simp: pqforge_ed25519_sign_def ed25519_sign_body_def ed25519_sign_spec_def
      boundary_simps on_ext_def classical_len_defs split: ext.splits sum.splits)

lemma ed25519_verify_delivers:
  assumes "slice_at (mem w) pubkey n pk" "input_at (mem w) msg m ms" "slice_at (mem w) sg l sig"
  shows "\<exists>w'. pqforge_ed25519_verify L pubkey n msg m sg l w =
      (Done (code (ed25519_verify_spec L pk ms sig)), w') \<and> mem w' = mem w"
  using assms slice_at_length [OF assms(1)] slice_at_length [OF assms(3)] input_at_null [OF assms(2)]
  by (auto simp: pqforge_ed25519_verify_def ed25519_verify_body_def ed25519_verify_spec_def
      boundary_simps classical_len_defs split: ext.splits)

lemma ed25519_verify_rng: "pqforge_ed25519_verify L pk n msg m sg l w = (r, w') \<Longrightarrow> r = Done c \<Longrightarrow> rng w' = rng w"
  by (auto simp: pqforge_ed25519_verify_def ed25519_verify_body_def boundary_def guard_def bind_comp_def
      from_raw_parts_def msg_or_empty_def run_hook_def ext_case_def returns_def
      split: if_splits option.splits ext.splits outcome.splits prod.splits panic_hook.splits)

text \<open>A produced result that fits is handed out whole.\<close>

lemma x25519_keygen_fits:
  assumes "slice_at (mem w) seed n sd" "length sd = 32" "x25519_pair L sd = Produce (pk, sk)"
    and "fits (mem w) o1 c1 l1 pk" "fits (mem w) o2 c2 l2 sk"
  shows "\<exists>w'. pqforge_x25519_keygen L seed n o1 c1 l1 o2 c2 l2 w = (Done (code Ok), w') \<and>
    mem w' = put_result o2 l2 sk (put_result o1 l1 pk (mem w)) \<and> rng w' = rng w"
  unfolding x25519_keygen_seeded [OF assms(1) fits_contract [OF assms(4)] fits_contract [OF assms(5)]]
  by (rule deliver_two_fits) (simp_all add: assms)

lemma x25519_ecdh_fits:
  assumes "slice_at (mem w) secret n sec" "slice_at (mem w) peer m pb" "length sec = 32" "length pb = 32"
    and "x25519_shared L sec pb = Produce ss" "fits (mem w) out cap len ss"
  shows "\<exists>w'. pqforge_x25519_ecdh L secret n peer m out cap len w = (Done (code Ok), w') \<and>
    mem w' = put_result out len ss (mem w)"
  unfolding x25519_ecdh_delivers [OF assms(1,2) fits_contract [OF assms(6)] assms(3,4)]
  using deliver_fits [OF assms(5,6)] by blast

lemma ed25519_keygen_fits:
  assumes "slice_at (mem w) seed n sd" "length sd = 32" "ed25519_pair L sd = Produce (pk, sk)"
    and "fits (mem w) o1 c1 l1 pk" "fits (mem w) o2 c2 l2 sk"
  shows "\<exists>w'. pqforge_ed25519_keygen L seed n o1 c1 l1 o2 c2 l2 w = (Done (code Ok), w') \<and>
    mem w' = put_result o2 l2 sk (put_result o1 l1 pk (mem w)) \<and> rng w' = rng w"
  unfolding ed25519_keygen_seeded [OF assms(1) fits_contract [OF assms(4)] fits_contract [OF assms(5)]]
  by (rule deliver_two_fits) (simp_all add: assms)

lemma ed25519_public_fits:
  assumes "slice_at (mem w) seed n sd" "length sd = 32" "ed25519_public_spec L sd = Produce pk"
    and "fits (mem w) out cap len pk"
  shows "\<exists>w'. pqforge_ed25519_public_from_seed L seed n out cap len w = (Done (code Ok), w') \<and>
    mem w' = put_result out len pk (mem w)"
  unfolding ed25519_public_delivers [OF assms(1) fits_contract [OF assms(4)]]
  using deliver_fits [OF assms(3,4), of "[]"] assms(2) by auto

lemma ed25519_sign_fits:
  assumes "slice_at (mem w) seed n sd" "input_at (mem w) msg m ms" "length sd = 32"
    and "ed25519_sign_spec L sd ms = Produce sg" "fits (mem w) out cap len sg"
  shows "\<exists>w'. pqforge_ed25519_sign L seed n msg m out cap len w = (Done (code Ok), w') \<and>
    mem w' = put_result out len sg (mem w)"
  unfolding ed25519_sign_delivers [OF assms(1,2) fits_contract [OF assms(5)]]
  using deliver_fits [OF assms(4,5), of "[]"] assms(3) by auto

text \<open>Both sides of an exchange compute the same verdict.\<close>

lemma x25519_shared_sym:
  assumes "dh_correct L" "x25519_pair L a = Produce (pa, sa)" "x25519_pair L b = Produce (pb, sb)"
  shows "x25519_shared L b pa = x25519_shared L a pb"
proof -
  from assms(2) obtain ka where a: "x_private L a = ExtOk ka" "x_public L ka = ExtOk pa"
    by (auto simp: x25519_pair_def on_ext_def split: ext.splits)
  from assms(3) obtain kb where b: "x_private L b = ExtOk kb" "x_public L kb = ExtOk pb"
    by (auto simp: x25519_pair_def on_ext_def split: ext.splits)
  have "x_agree L ka pb = x_agree L kb pa" using assms(1) a b unfolding dh_correct_def by blast
  then show ?thesis by (simp add: x25519_shared_def a b)
qed

text \<open>
  RFC 7748 and RFC 8032: the generator fills the buffer it is given, every 32 bytes are a
  secret key with a public key of 32 bytes, and an exchange with a generated public key
  succeeds.
\<close>

definition draws :: "('xk, 'ek) classical_lib \<Rightarrow> bool" where
  "draws L \<longleftrightarrow> (\<forall>g. \<exists>bs. fst (rand_fill L 32 g) = ExtOk bs \<and> length bs = 32)"

definition x25519_sizes :: "('xk, 'ek) classical_lib \<Rightarrow> bool" where
  "x25519_sizes L \<longleftrightarrow>
    (\<forall>sec. length sec = 32 \<longrightarrow> (\<exists>pk. x25519_pair L sec = Produce (pk, sec) \<and> length pk = 32 \<and>
      (\<forall>sec'. length sec' = 32 \<longrightarrow> (\<exists>ss. x25519_shared L sec' pk = Produce ss \<and> length ss = 32))))"

definition ed25519_sizes :: "('xk, 'ek) classical_lib \<Rightarrow> bool" where
  "ed25519_sizes L \<longleftrightarrow>
    (\<forall>sd. length sd = 32 \<longrightarrow> (\<exists>pk. ed25519_pair L sd = Produce (pk, sd) \<and> length pk = 32) \<and>
      (\<forall>msg. \<exists>sg. ed25519_sign_spec L sd msg = Produce sg \<and> length sg = 64))"

lemma drawn_None: "draws L \<Longrightarrow> \<exists>bs. drawn L None g = ExtOk bs \<and> length bs = 32"
  by (simp add: drawn_def draws_def)

lemma drawn_Some [simp]: "length sd = 32 \<Longrightarrow> drawn L (Some sd) g = ExtOk sd" "drawn_rng L (Some sd) g = g"
  by (simp_all add: drawn_def drawn_rng_def)

lemma drawn_ok:
  assumes "draws L" "\<And>x. seed = Some x \<Longrightarrow> length x = 32"
  obtains sk where "drawn L seed g = ExtOk sk" "length sk = 32"
proof (cases seed)
  case None
  then show ?thesis using drawn_None [OF assms(1)] that by blast
next
  case (Some sd)
  then show ?thesis using that assms(2) by simp
qed

lemma ed25519_signed_verifies:
  assumes "ed_correct L" "ed25519_pair L sd = Produce (pk, sd)" "ed25519_sign_spec L sd msg = Produce sg"
  shows "ed25519_verify_spec L pk msg sg = Ok" "length pk = 32" "length sg = 64"
proof -
  obtain kp where kp: "ed_from_seed L sd = ExtOk kp" "pk = ed_public L kp"
    using assms(2) by (auto simp: ed25519_pair_def on_ext_def split: ext.splits)
  moreover from kp have "ed_sign L kp msg = Inr sg"
    using assms(3) by (auto simp: ed25519_sign_spec_def on_ext_def split: sum.splits)
  ultimately have "length pk = 32 \<and> length sg = 64 \<and> ed_verify L pk msg sg = ExtOk ()"
    using assms(1) unfolding ed_correct_def by blast
  then show "ed25519_verify_spec L pk msg sg = Ok" "length pk = 32" "length sg = 64"
    by (simp_all add: ed25519_verify_spec_def)
qed

section \<open>Containment\<close>

interpretation x25519_keygen: ffi_entry
  "\<lambda>(L, seed, n, o1, c1, l1, o2, c2, l2). x25519_keygen_body L seed n o1 c1 l1 o2 c2 l2"
  "\<lambda>(L, seed, n, o1, c1, l1, o2, c2, l2) w. in_ok (mem w) seed n \<and>
     out_ok (mem w) o1 c1 \<and> len_ok (mem w) l1 \<and> out_ok (mem w) o2 c2 \<and> len_ok (mem w) l2"
  by unfold_locales
     (auto simp: x25519_keygen_body_def in_ok_def Let_def intro!: contained_intros
       dest!: rng_call_Done write_out_Done_keeps)

interpretation x25519_ecdh: ffi_entry
  "\<lambda>(L, secret, n, peer, m, out, cap, len). x25519_ecdh_body L secret n peer m out cap len"
  "\<lambda>(L, secret, n, peer, m, out, cap, len) w. in_ok (mem w) secret n \<and> in_ok (mem w) peer m \<and>
     out_ok (mem w) out cap \<and> len_ok (mem w) len"
  by unfold_locales
     (auto simp: x25519_ecdh_body_def in_ok_def intro!: contained_intros)

interpretation ed25519_keygen: ffi_entry
  "\<lambda>(L, seed, n, o1, c1, l1, o2, c2, l2). ed25519_keygen_body L seed n o1 c1 l1 o2 c2 l2"
  "\<lambda>(L, seed, n, o1, c1, l1, o2, c2, l2) w. in_ok (mem w) seed n \<and>
     out_ok (mem w) o1 c1 \<and> len_ok (mem w) l1 \<and> out_ok (mem w) o2 c2 \<and> len_ok (mem w) l2"
  by unfold_locales
     (auto simp: ed25519_keygen_body_def in_ok_def Let_def intro!: contained_intros
       dest!: rng_call_Done write_out_Done_keeps)

interpretation ed25519_public: ffi_entry
  "\<lambda>(L, seed, n, out, cap, len). ed25519_public_from_seed_body L seed n out cap len"
  "\<lambda>(L, seed, n, out, cap, len) w. in_ok (mem w) seed n \<and> out_ok (mem w) out cap \<and> len_ok (mem w) len"
  by unfold_locales
     (auto simp: ed25519_public_from_seed_body_def in_ok_def intro!: contained_intros)

interpretation ed25519_sign: ffi_entry
  "\<lambda>(L, seed, n, msg, m, out, cap, len). ed25519_sign_body L seed n msg m out cap len"
  "\<lambda>(L, seed, n, msg, m, out, cap, len) w. in_ok (mem w) seed n \<and> in_ok (mem w) msg m \<and>
     out_ok (mem w) out cap \<and> len_ok (mem w) len"
  by unfold_locales
     (auto simp: ed25519_sign_body_def in_ok_def intro!: contained_intros dest!: msg_or_empty_Done)

interpretation ed25519_verify: ffi_entry
  "\<lambda>(L, pk, n, msg, m, sg, l). ed25519_verify_body L pk n msg m sg l"
  "\<lambda>(L, pk, n, msg, m, sg, l) w. in_ok (mem w) pk n \<and> in_ok (mem w) msg m \<and> in_ok (mem w) sg l"
  by unfold_locales
     (auto simp: ed25519_verify_body_def in_ok_def intro!: contained_intros dest!: msg_or_empty_Done)

text \<open>
  Keys and seeds of the wrong length are refused as \<open>InvalidKey\<close>
  before the library is asked, nothing is drawn from the CSPRNG and no byte of the caller's
  memory changes.
\<close>

lemma classical_wrong_lengths:
  assumes "slice_at (mem w) seed n sd" "length sd \<noteq> 32" "\<not> is_null q" "input_at (mem w) msg m ms"
    and "out_ok (mem w) o1 c1" "len_ok (mem w) l1" "out_ok (mem w) o2 c2" "len_ok (mem w) l2"
  shows "(\<forall>run \<in> {pqforge_x25519_keygen L seed n o1 c1 l1 o2 c2 l2, pqforge_ed25519_keygen L seed n o1 c1 l1 o2 c2 l2,
        pqforge_ed25519_public_from_seed L seed n o1 c1 l1, pqforge_ed25519_sign L seed n msg m o1 c1 l1,
        pqforge_x25519_ecdh L seed n q k o1 c1 l1, pqforge_x25519_ecdh L q k seed n o1 c1 l1}.
      \<exists>w'. run w = (Done (code InvalidKey), w') \<and> mem w' = mem w \<and> rng w' = rng w)"
proof -
  have n: "unat n \<noteq> X25519_KEY_LEN" "\<not> is_null seed"
    using assms(1,2) slice_at_length [OF assms(1)] by (simp_all add: X25519_KEY_LEN_def)
  have ecdh: "pqforge_x25519_ecdh L seed n q k o1 c1 l1 w = (Done (code InvalidKey), w)"
    "pqforge_x25519_ecdh L q k seed n o1 c1 l1 w = (Done (code InvalidKey), w)"
    using n assms(3) by (simp_all add: pqforge_x25519_ecdh_def x25519_ecdh_body_def boundary_returns)
  show ?thesis
    using assms(2) ecdh
    by (simp add: x25519_keygen_seeded [OF assms(1,5-8)] ed25519_keygen_seeded [OF assms(1,5-8)]
        ed25519_public_delivers [OF assms(1,5,6)] ed25519_sign_delivers [OF assms(1,4-6)])
qed

end
