(* ===== verification/Test_Classical.thy ===== *)
theory Test_Classical
  imports Test_Harness Classical Abi
begin

text \<open>
  The unit tests of \<open>crypto/classical.rs\<close>: X25519 exchanges and Ed25519 signatures between
  generated and seeded key pairs.
\<close>

section \<open>Calls and helpers\<close>

text \<open>The optional seed of the key generators: its slice, or null.\<close>

definition seed_ins :: "bytes option \<Rightarrow> bytes list" where
  "seed_ins seed = (case seed of Some s \<Rightarrow> [s] | None \<Rightarrow> [])"

definition seed_ptr :: "bytes option \<Rightarrow> addr list \<Rightarrow> addr" where
  "seed_ptr seed ps = (case seed of Some s \<Rightarrow> ps ! 0 | None \<Rightarrow> 0)"

definition seed_len :: "bytes option \<Rightarrow> usize" where
  "seed_len seed = (case seed of Some s \<Rightarrow> of_nat (length s) | None \<Rightarrow> 0)"

definition x25519_keygen_call ::
  "('xk, 'ek) classical_lib \<Rightarrow> bytes option \<Rightarrow> nat \<Rightarrow> nat
    \<Rightarrow> (c_int \<times> (bytes \<times> usize) \<times> (bytes \<times> usize)) test" where
  "x25519_keygen_call L seed cap1 cap2 =
    call2 (seed_ins seed) cap1 cap2 (\<lambda>ps o1 c1 l1 o2 c2 l2.
      pqforge_x25519_keygen L (seed_ptr seed ps) (seed_len seed) o1 c1 l1 o2 c2 l2)"

definition ed25519_keygen_call ::
  "('xk, 'ek) classical_lib \<Rightarrow> bytes option \<Rightarrow> nat \<Rightarrow> nat
    \<Rightarrow> (c_int \<times> (bytes \<times> usize) \<times> (bytes \<times> usize)) test" where
  "ed25519_keygen_call L seed cap1 cap2 =
    call2 (seed_ins seed) cap1 cap2 (\<lambda>ps o1 c1 l1 o2 c2 l2.
      pqforge_ed25519_keygen L (seed_ptr seed ps) (seed_len seed) o1 c1 l1 o2 c2 l2)"

definition x25519_test_keygen :: "('xk, 'ek) classical_lib \<Rightarrow> bytes option \<Rightarrow> (bytes \<times> bytes) test" where
  "x25519_test_keygen L seed =
    bind_comp (x25519_keygen_call L seed (X25519_KEY_LEN + 16) (X25519_KEY_LEN + 16)) (\<lambda>(rc, (pk, pl), (sk, sl)).
    bind_comp (assert_that (rc = code Ok)) (\<lambda>_.
    bind_comp (assert_that ((unat pl, unat sl) = (X25519_KEY_LEN, X25519_KEY_LEN))) (\<lambda>_.
    ret (take (unat pl) pk, take (unat sl) sk))))"

definition x25519_test_ecdh :: "('xk, 'ek) classical_lib \<Rightarrow> bytes \<Rightarrow> bytes \<Rightarrow> bytes test" where
  "x25519_test_ecdh L secret peer_pub =
    bind_comp (call1 [secret, peer_pub] (X25519_KEY_LEN + 16) (\<lambda>ps out out_cap out_len.
      pqforge_x25519_ecdh L (ps ! 0) (of_nat (length secret)) (ps ! 1) (of_nat (length peer_pub)) out out_cap out_len))
      (\<lambda>(rc, out, ol).
    bind_comp (assert_that (rc = code Ok)) (\<lambda>_.
    ret (take (unat ol) out)))"

definition ed25519_test_keygen :: "('xk, 'ek) classical_lib \<Rightarrow> bytes option \<Rightarrow> (bytes \<times> bytes) test" where
  "ed25519_test_keygen L seed =
    bind_comp (ed25519_keygen_call L seed (ED25519_PUBLIC_LEN + 16) (ED25519_SEED_LEN + 16)) (\<lambda>(rc, (pk, pl), (sk, sl)).
    bind_comp (assert_that (rc = code Ok)) (\<lambda>_.
    bind_comp (assert_that ((unat pl, unat sl) = (ED25519_PUBLIC_LEN, ED25519_SEED_LEN))) (\<lambda>_.
    ret (take (unat pl) pk, take (unat sl) sk))))"

definition ed25519_test_sign :: "('xk, 'ek) classical_lib \<Rightarrow> bytes \<Rightarrow> bytes \<Rightarrow> bytes test" where
  "ed25519_test_sign L seed msg =
    bind_comp (call1 [seed, msg] (ED25519_SIGNATURE_LEN + 16) (\<lambda>ps out out_cap out_len.
      pqforge_ed25519_sign L (ps ! 0) (of_nat (length seed)) (ps ! 1) (of_nat (length msg)) out out_cap out_len))
      (\<lambda>(rc, sg, sigl).
    bind_comp (assert_that (rc = code Ok)) (\<lambda>_.
    ret (take (unat sigl) sg)))"

definition ed25519_test_verify :: "('xk, 'ek) classical_lib \<Rightarrow> bytes \<Rightarrow> bytes \<Rightarrow> bytes \<Rightarrow> c_int test" where
  "ed25519_test_verify L pubkey msg sg =
    call0 [pubkey, msg, sg] (\<lambda>ps.
      pqforge_ed25519_verify L (ps ! 0) (of_nat (length pubkey)) (ps ! 1) (of_nat (length msg))
        (ps ! 2) (of_nat (length sg)))"

section \<open>The tests\<close>

definition x25519_ecdh_is_symmetric :: "('xk, 'ek) classical_lib \<Rightarrow> unit test" where
  "x25519_ecdh_is_symmetric L =
    bind_comp (x25519_test_keygen L None) (\<lambda>(pk_a, sk_a).
    bind_comp (x25519_test_keygen L None) (\<lambda>(pk_b, sk_b).
    bind_comp (x25519_test_ecdh L sk_a pk_b) (\<lambda>ss_ab.
    bind_comp (x25519_test_ecdh L sk_b pk_a) (\<lambda>ss_ba.
    bind_comp (assert_that (ss_ab = ss_ba)) (\<lambda>_.
    assert_that (length ss_ab = X25519_KEY_LEN))))))"

definition x25519_seeded_keygen_is_deterministic :: "('xk, 'ek) classical_lib \<Rightarrow> unit test" where
  "x25519_seeded_keygen_is_deterministic L =
    (let seed = replicate X25519_KEY_LEN 7
     in bind_comp (x25519_test_keygen L (Some seed)) (\<lambda>(pk1, sk1).
        bind_comp (x25519_test_keygen L (Some seed)) (\<lambda>(pk2, sk2).
        bind_comp (assert_that (pk1 = pk2)) (\<lambda>_.
        bind_comp (assert_that (sk1 = sk2)) (\<lambda>_.
        bind_comp (assert_that (sk1 = seed)) (\<lambda>_.
        bind_comp (x25519_test_keygen L (Some (replicate X25519_KEY_LEN 9))) (\<lambda>(pk3, _).
        assert_that (pk1 \<noteq> pk3))))))))"

definition x25519_wrong_seed_length_is_invalid_key :: "('xk, 'ek) classical_lib \<Rightarrow> unit test" where
  "x25519_wrong_seed_length_is_invalid_key L =
    bind_comp (x25519_keygen_call L (Some (replicate 31 0)) 64 64) (\<lambda>(rc, _, _).
    assert_that (rc = code InvalidKey))"

definition ed25519_sign_verify_round_trip :: "('xk, 'ek) classical_lib \<Rightarrow> unit test" where
  "ed25519_sign_verify_round_trip L =
    bind_comp (ed25519_test_keygen L None) (\<lambda>(pk, sk).
    let msg = ascii_bytes ''pqforge Ed25519 self-test'' in
    bind_comp (ed25519_test_sign L sk msg) (\<lambda>sg.
    bind_comp (assert_that (length sg = ED25519_SIGNATURE_LEN)) (\<lambda>_.
    bind_comp (ed25519_test_verify L pk msg sg) (\<lambda>rc.
    assert_that (rc = code Ok)))))"

definition ed25519_verify_rejects_tamper :: "('xk, 'ek) classical_lib \<Rightarrow> unit test" where
  "ed25519_verify_rejects_tamper L =
    bind_comp (ed25519_test_keygen L None) (\<lambda>(pk, sk).
    bind_comp (ed25519_test_sign L sk (ascii_bytes ''original'')) (\<lambda>sg.
    bind_comp (ed25519_test_verify L pk (ascii_bytes ''tampered'') sg) (\<lambda>rc.
    bind_comp (assert_that (rc = code AuthFailed)) (\<lambda>_.
    bind_comp (slice_to 31 pk) (\<lambda>short_pk.
    bind_comp (ed25519_test_verify L short_pk (ascii_bytes ''original'') sg) (\<lambda>rc.
    assert_that (rc = code AuthFailed)))))))"

definition ed25519_seeded_keygen_deterministic_and_public_from_seed_matches ::
  "('xk, 'ek) classical_lib \<Rightarrow> unit test" where
  "ed25519_seeded_keygen_deterministic_and_public_from_seed_matches L =
    (let seed = replicate ED25519_SEED_LEN 3
     in bind_comp (ed25519_test_keygen L (Some seed)) (\<lambda>(pk1, sk1).
        bind_comp (ed25519_test_keygen L (Some seed)) (\<lambda>(pk2, _).
        bind_comp (assert_that (pk1 = pk2)) (\<lambda>_.
        bind_comp (assert_that (sk1 = seed)) (\<lambda>_.
        bind_comp (call1 [seed] (ED25519_PUBLIC_LEN + 16) (\<lambda>ps out out_cap out_len.
          pqforge_ed25519_public_from_seed L (ps ! 0) (of_nat (length seed)) out out_cap out_len)) (\<lambda>(rc, pk, pl).
        bind_comp (assert_that (rc = code Ok)) (\<lambda>_.
        assert_that (take (unat pl) pk = pk1))))))))"

section \<open>What the calls yield\<close>

lemma yields_x25519_keygen:
  assumes "t_ok s" "cap1 \<le> isize_max" "cap2 \<le> isize_max" "short (seed_ins seed)"
  shows "yields (x25519_keygen_call L seed cap1 cap2) s
    (seen2 cap1 cap2 (on_ext (drawn L seed (rng (t_world s))) (refused_draw seed) (x25519_pair L)))
    (drawn_rng L seed (rng (t_world s)))"
proof (cases seed)
  case None
  show ?thesis unfolding x25519_keygen_call_def
    by (rule yields_call2 [OF assms(1,4,2,3)])
       (simp_all add: None seed_ptr_def drawn_def drawn_rng_def refused_draw_def is_null_def x25519_keygen_fresh)
next
  case (Some sd)
  show ?thesis unfolding x25519_keygen_call_def
    by (rule yields_call2 [OF assms(1,4,2,3), where bufs = "[if length sd = 32 then sd else replicate 32 0]"])
       (simp_all add: Some seed_ins_def seed_ptr_def seed_len_def drawn_def drawn_rng_def refused_draw_def
          x25519_keygen_seeded [OF inputs_at_nth])
qed

lemma yields_ed25519_keygen:
  assumes "t_ok s" "cap1 \<le> isize_max" "cap2 \<le> isize_max" "short (seed_ins seed)"
  shows "yields (ed25519_keygen_call L seed cap1 cap2) s
    (seen2 cap1 cap2 (on_ext (drawn L seed (rng (t_world s))) (refused_draw seed) (ed25519_pair L)))
    (drawn_rng L seed (rng (t_world s)))"
proof (cases seed)
  case None
  show ?thesis unfolding ed25519_keygen_call_def
    by (rule yields_call2 [OF assms(1,4,2,3)])
       (simp_all add: None seed_ptr_def drawn_def drawn_rng_def refused_draw_def is_null_def ed25519_keygen_fresh)
next
  case (Some sd)
  show ?thesis unfolding ed25519_keygen_call_def
    by (rule yields_call2 [OF assms(1,4,2,3), where bufs = "[if length sd = 32 then sd else replicate 32 0]"])
       (simp_all add: Some seed_ins_def seed_ptr_def seed_len_def drawn_def drawn_rng_def refused_draw_def
          ed25519_keygen_seeded [OF inputs_at_nth])
qed

lemma yields_x25519_test_keygen:
  assumes "t_ok s" "drawn L seed (rng (t_world s)) = ExtOk sec" "length sec = 32" "short (seed_ins seed)"
    and "x25519_pair L sec = Produce (pk, sec)" "length pk = 32"
  shows "yields (x25519_test_keygen L seed) s (pk, sec) (drawn_rng L seed (rng (t_world s)))"
  unfolding x25519_test_keygen_def
  by (rule yields_bind [OF yields_x25519_keygen [OF assms(1)]])
     (use assms(2-) in \<open>simp_all add: X25519_KEY_LEN_def isize_small seen2_Produce unat_of_nat yields_Pair\<close>)

lemma yields_ed25519_test_keygen:
  assumes "t_ok s" "drawn L seed (rng (t_world s)) = ExtOk sec" "length sec = 32" "short (seed_ins seed)"
    and "ed25519_pair L sec = Produce (pk, sec)" "length pk = 32"
  shows "yields (ed25519_test_keygen L seed) s (pk, sec) (drawn_rng L seed (rng (t_world s)))"
  unfolding ed25519_test_keygen_def
  by (rule yields_bind [OF yields_ed25519_keygen [OF assms(1)]])
     (use assms(2-) in \<open>simp_all add: ED25519_PUBLIC_LEN_def ED25519_SEED_LEN_def isize_small seen2_Produce
        unat_of_nat yields_Pair\<close>)

lemma yields_x25519_test_ecdh:
  assumes "t_ok s" "x25519_shared L sec pb = Produce ss" "length sec = 32" "length pb = 32" "length ss = 32"
  shows "yields (x25519_test_ecdh L sec pb) s ss (rng (t_world s))"
  unfolding x25519_test_ecdh_def
proof (rule yields_bind)
  show "yields (call1 [sec, pb] (X25519_KEY_LEN + 16) (\<lambda>ps out out_cap out_len.
      pqforge_x25519_ecdh L (ps ! 0) (of_nat (length sec)) (ps ! 1) (of_nat (length pb)) out out_cap out_len)) s
    (seen1 (X25519_KEY_LEN + 16) (x25519_shared L sec pb)) (rng (t_world s))"
    by (rule yields_call1 [OF assms(1), where bufs = "wiped_only (x25519_shared L sec pb)"])
       (use assms(3,4) in \<open>simp_all add: short_def isize_small X25519_KEY_LEN_def
          x25519_ecdh_delivers [OF inputs_at_nth inputs_at_nth]\<close>)
qed (use assms in \<open>simp add: seen1_Produce X25519_KEY_LEN_def unat_of_nat yields_Pair\<close>)

lemma yields_ed25519_test_sign:
  assumes "t_ok s" "ed25519_sign_spec L sd msg = Produce sg" "length sd = 32" "length msg \<le> 1000" "length sg = 64"
  shows "yields (ed25519_test_sign L sd msg) s sg (rng (t_world s))"
  unfolding ed25519_test_sign_def
proof (rule yields_bind)
  show "yields (call1 [sd, msg] (ED25519_SIGNATURE_LEN + 16) (\<lambda>ps out out_cap out_len.
      pqforge_ed25519_sign L (ps ! 0) (of_nat (length sd)) (ps ! 1) (of_nat (length msg)) out out_cap out_len)) s
    (seen1 (ED25519_SIGNATURE_LEN + 16) (ed25519_sign_spec L sd msg)) (rng (t_world s))"
    by (rule yields_call1 [OF assms(1), where bufs = "[]"])
       (use assms(3,4) in \<open>simp_all add: short_def isize_small ED25519_SIGNATURE_LEN_def
          ed25519_sign_delivers [OF inputs_at_nth slice_at_input [OF inputs_at_nth]]\<close>)
qed (use assms in \<open>simp add: seen1_Produce ED25519_SIGNATURE_LEN_def unat_of_nat yields_Pair\<close>)

lemma yields_ed25519_test_verify:
  assumes "t_ok s" "length pk \<le> 1000" "length msg \<le> 1000" "length sg \<le> 1000"
  shows "yields (ed25519_test_verify L pk msg sg) s (code (ed25519_verify_spec L pk msg sg)) (rng (t_world s))"
  unfolding ed25519_test_verify_def
proof (rule yields_call0 [OF assms(1)])
  fix ps and w :: world assume i: "inputs_at w ps [pk, msg, sg]" and r: "rng w = rng (t_world s)"
  have "slice_at (mem w) (ps ! 0) (of_nat (length pk)) pk" "input_at (mem w) (ps ! 1) (of_nat (length msg)) msg"
    "slice_at (mem w) (ps ! 2) (of_nat (length sg)) sg"
    using inputs_at_list [OF i] by (simp_all add: slice_at_input)
  from ed25519_verify_delivers [OF this, of L] ed25519_verify_rng r
  show "\<exists>w'. pqforge_ed25519_verify L (ps ! 0) (of_nat (length pk)) (ps ! 1) (of_nat (length msg)) (ps ! 2) (of_nat (length sg)) w =
      (Done (code (ed25519_verify_spec L pk msg sg)), w') \<and> rng w' = rng (t_world s)" by metis
qed (use assms in \<open>simp add: short_def isize_small\<close>)

section \<open>What the tests check\<close>

lemma short_seed [simp]: "short (seed_ins None)" "length sd \<le> 1000 \<Longrightarrow> short (seed_ins (Some sd))"
  by (simp_all add: short_def seed_ins_def isize_small)

lemma x25519_symmetric_passes:
  assumes "t_ok s" "draws L" "x25519_sizes L" "dh_correct L"
  shows "passes (x25519_ecdh_is_symmetric L) s"
proof -
  let ?g = "rng (t_world s)"
  obtain a b where a: "drawn L None ?g = ExtOk a" "length a = 32"
    and b: "drawn L None (drawn_rng L None ?g) = ExtOk b" "length b = 32"
    using drawn_None [OF assms(2)] by metis
  obtain pa pb where pa: "x25519_pair L a = Produce (pa, a)" "length pa = 32"
    and pb: "x25519_pair L b = Produce (pb, b)" "length pb = 32"
    using assms(3) a(2) b(2) unfolding x25519_sizes_def by metis
  obtain ss where ss: "x25519_shared L a pb = Produce ss" "length ss = 32"
    using assms(3) a(2) b(2) pb(1) unfolding x25519_sizes_def by (metis Pair_inject verdict.inject(2))
  have ss': "x25519_shared L b pa = Produce ss"
    using x25519_shared_sym [OF assms(4) pa(1) pb(1)] ss(1) by simp
  show ?thesis
    unfolding x25519_ecdh_is_symmetric_def
    apply (rule passes_step [OF yields_x25519_test_keygen [OF assms(1) a _ pa]], simp, unfold prod.case)
    apply (rule passes_step [OF yields_x25519_test_keygen [OF _ _ b(2) _ pb]], assumption, simp add: b(1), simp, unfold prod.case)
    apply (rule passes_step [OF yields_x25519_test_ecdh [OF _ ss(1) a(2) pb(2) ss(2)]], assumption)
    apply (rule passes_step [OF yields_x25519_test_ecdh [OF _ ss' b(2) pa(2) ss(2)]], assumption)
    apply (simp add: ss(2) X25519_KEY_LEN_def)
    done
qed

lemma x25519_seeded_test_iff:
  assumes "t_ok s" "x25519_sizes L"
  shows "passes (x25519_seeded_keygen_is_deterministic L) s \<longleftrightarrow>
    (\<forall>pk pk'. x25519_pair L (replicate 32 7) = Produce (pk, replicate 32 7) \<longrightarrow>
      x25519_pair L (replicate 32 9) = Produce (pk', replicate 32 9) \<longrightarrow> pk \<noteq> pk')"
proof -
  let ?a = "replicate 32 7 :: bytes" and ?b = "replicate 32 9 :: bytes"
  obtain pa pb where pa: "x25519_pair L ?a = Produce (pa, ?a)" "length pa = 32"
    and pb: "x25519_pair L ?b = Produce (pb, ?b)" "length pb = 32"
    using assms(2) unfolding x25519_sizes_def by (metis length_replicate)
  have gen: "yields (x25519_test_keygen L (Some ?a)) s' (pa, ?a) (rng (t_world s'))"
    "yields (x25519_test_keygen L (Some ?b)) s' (pb, ?b) (rng (t_world s'))" if "t_ok s'" for s'
    using yields_x25519_test_keygen [OF that _ _ _ pa, of "Some ?a"]
      yields_x25519_test_keygen [OF that _ _ _ pb, of "Some ?b"] by simp_all
  have "passes (x25519_seeded_keygen_is_deterministic L) s \<longleftrightarrow> pa \<noteq> pb"
    unfolding x25519_seeded_keygen_is_deterministic_def Let_def X25519_KEY_LEN_def
    apply (rule passes_bind [OF gen(1) [OF assms(1)]], unfold prod.case)
    apply (rule passes_bind [OF gen(1)], assumption, unfold prod.case)
    apply simp
    apply (rule passes_bind [OF gen(2)], assumption)
    apply simp
    done
  then show ?thesis using pa pb by auto
qed

lemma x25519_wrong_seed_passes:
  assumes "t_ok s"
  shows "passes (x25519_wrong_seed_length_is_invalid_key L) s"
proof -
  show ?thesis
    unfolding x25519_wrong_seed_length_is_invalid_key_def
    by (rule passes_step [OF yields_x25519_keygen [OF assms]])
       (simp_all add: isize_small drawn_def refused_draw_def seen2_Refuse)
qed

text \<open>Both signature tests generate a key pair and sign with it.\<close>

lemma ed25519_signed:
  assumes "draws L" "ed25519_sizes L"
  obtains sd pk sg where "drawn L None g = ExtOk sd" "length sd = 32" "ed25519_pair L sd = Produce (pk, sd)" "length pk = 32"
    "ed25519_sign_spec L sd msg = Produce sg" "length sg = 64"
  using assms drawn_None [OF assms(1), of g] unfolding ed25519_sizes_def by metis

lemma ed25519_round_trip_passes:
  assumes "t_ok s" "draws L" "ed25519_sizes L" "ed_correct L"
  shows "passes (ed25519_sign_verify_round_trip L) s"
proof -
  let ?m = "ascii_bytes ''pqforge Ed25519 self-test''"
  obtain sd pk sg where d: "drawn L None (rng (t_world s)) = ExtOk sd" "length sd = 32"
    and k: "ed25519_pair L sd = Produce (pk, sd)" "length pk = 32"
    and g: "ed25519_sign_spec L sd ?m = Produce sg" "length sg = 64"
    by (rule ed25519_signed [OF assms(2,3)])
  have v: "ed25519_verify_spec L pk ?m sg = Ok"
    using assms(4) k g unfolding ed25519_pair_def ed25519_sign_spec_def ed_correct_def
    by (fastforce simp: on_ext_def ed25519_verify_spec_def split: ext.splits sum.splits)
  show ?thesis
    unfolding ed25519_sign_verify_round_trip_def Let_def
    apply (rule passes_step [OF yields_ed25519_test_keygen [OF assms(1) d _ k]], simp, unfold prod.case)
    apply (rule passes_step [OF yields_ed25519_test_sign [OF _ g(1) d(2) _ g(2)]], assumption, simp)
    apply (simp add: g(2) ED25519_SIGNATURE_LEN_def)
    apply (rule passes_step [OF yields_ed25519_test_verify], assumption)
    apply (simp_all add: k(2) g(2) v)
    done
qed

lemma ed25519_tampered_test_iff:
  assumes "t_ok s" "draws L" "ed25519_sizes L"
    and "drawn L None (rng (t_world s)) = ExtOk sd" "ed25519_pair L sd = Produce (pk, sd)"
    and "ed25519_sign_spec L sd (ascii_bytes ''original'') = Produce sg"
  shows "passes (ed25519_verify_rejects_tamper L) s \<longleftrightarrow>
    ed25519_verify_spec L pk (ascii_bytes ''tampered'') sg = AuthFailed"
proof -
  have d: "length sd = 32" using drawn_None [OF assms(2)] assms(4) by (metis ext.inject(1))
  then have k: "length pk = 32" and g: "length sg = 64"
    using assms(3,5,6) unfolding ed25519_sizes_def by (metis Pair_inject verdict.inject(2))+
  have cut: "ed25519_verify_spec L (take 31 pk) m sg = AuthFailed" for m
    by (simp add: ed25519_verify_spec_def k)
  have last: "passes (bind_comp (ed25519_test_verify L (take 31 pk) (ascii_bytes ''original'') sg) (\<lambda>rc.
      assert_that (rc = 3))) s' \<longleftrightarrow> True" if "t_ok s'" for s'
    by (rule passes_bind [OF yields_ed25519_test_verify [OF that]]) (simp_all add: k g cut)
  show ?thesis
    unfolding ed25519_verify_rejects_tamper_def
    apply (rule passes_bind [OF yields_ed25519_test_keygen [OF assms(1,4) d _ assms(5) k]], simp, unfold prod.case)
    apply (rule passes_bind [OF yields_ed25519_test_sign [OF _ assms(6) d _ g]], assumption, simp)
    apply (rule passes_bind [OF yields_ed25519_test_verify], assumption)
    apply (simp_all add: k g last)
    done
qed

lemma ed25519_seeded_passes:
  assumes "t_ok s" "ed25519_sizes L"
  shows "passes (ed25519_seeded_keygen_deterministic_and_public_from_seed_matches L) s"
proof -
  let ?a = "replicate 32 3 :: bytes"
  obtain pk where k: "ed25519_pair L ?a = Produce (pk, ?a)" "length pk = 32"
    using assms(2) unfolding ed25519_sizes_def by (metis length_replicate)
  then have p: "ed25519_public_spec L ?a = Produce pk"
    by (auto simp: ed25519_pair_def ed25519_public_spec_def on_ext_def split: ext.splits)
  have gen: "yields (ed25519_test_keygen L (Some ?a)) s' (pk, ?a) (rng (t_world s'))" if "t_ok s'" for s'
    using yields_ed25519_test_keygen [OF that _ _ _ k, of "Some ?a"] by simp
  have public: "yields (call1 [?a] (ED25519_PUBLIC_LEN + 16) (\<lambda>ps out out_cap out_len.
      pqforge_ed25519_public_from_seed L (ps ! 0) (of_nat (length ?a)) out out_cap out_len)) s'
    (seen1 (ED25519_PUBLIC_LEN + 16) (Produce pk)) (rng (t_world s'))" if "t_ok s'" for s'
    by (rule yields_call1 [OF that, where bufs = "[]"])
       (simp_all add: short_def isize_small ED25519_PUBLIC_LEN_def p ed25519_public_delivers [OF inputs_at_nth])
  show ?thesis
    unfolding ed25519_seeded_keygen_deterministic_and_public_from_seed_matches_def Let_def ED25519_SEED_LEN_def
    apply (rule passes_step [OF gen [OF assms(1)]], unfold prod.case)
    apply (rule passes_step [OF gen], assumption, unfold prod.case, simp only: passes_assert simp_thms)
    apply (rule passes_step [OF public], assumption)
    apply (simp add: k(2) seen1_Produce ED25519_PUBLIC_LEN_def unat_of_nat)
    done
qed

end
