(* ===== verification/Dart_Errors.thy ===== *)
theory Dart_Errors
  imports Status
begin

text \<open>
  \<open>lib/src/model/errors.dart\<close>: the exceptions of the Dart layer with their status codes, and
  the reduction of a native status to one of them. \<open>ArgumentError\<close>, \<open>RangeError\<close> and
  \<open>FileSystemException\<close> are those of the Dart libraries, \<open>PqForgeException\<close> is the one of the
  package \<open>pqforge\<close>, and every other thrown object is \<open>OtherException\<close>.
\<close>

datatype dart_exn =
    ArgumentError | RangeError | FileSystemException | PqForgeException string | OtherException
  | InvalidKeyException string | InvalidCiphertextException string
  | VerificationFailedException string | UnsupportedBackendException string
  | NativeBindingException string
  | InternalCryptoException string PqForgeStatus \<comment> \<open>operation and status, both printed\<close>

type_synonym 'a dart = "dart_exn + 'a"

text \<open>The getter \<open>code\<close>; what is no \<open>PqForgeFfiException\<close> counts as internal.\<close>

fun exn_status :: "dart_exn \<Rightarrow> PqForgeStatus" where
  "exn_status (InvalidKeyException _) = InvalidKey"
| "exn_status (InvalidCiphertextException _) = InvalidCiphertext"
| "exn_status (VerificationFailedException _) = AuthFailed"
| "exn_status (UnsupportedBackendException _) = Unsupported"
| "exn_status (InternalCryptoException _ _) = Internal"
| "exn_status (NativeBindingException _) = Internal"
| "exn_status ArgumentError = Internal"
| "exn_status FileSystemException = Internal"
| "exn_status RangeError = Internal"
| "exn_status (PqForgeException _) = Internal"
| "exn_status OtherException = Internal"

text \<open>What \<open>on PqForgeFfiException\<close> and \<open>on ArgumentError\<close> catch; a \<open>RangeError\<close> is an \<open>ArgumentError\<close>.\<close>

fun is_ffi_exn :: "dart_exn \<Rightarrow> bool" where
  "is_ffi_exn ArgumentError = False"
| "is_ffi_exn RangeError = False"
| "is_ffi_exn FileSystemException = False"
| "is_ffi_exn (PqForgeException _) = False"
| "is_ffi_exn OtherException = False"
| "is_ffi_exn _ = True"

fun is_argument_error :: "dart_exn \<Rightarrow> bool" where
  "is_argument_error ArgumentError = True"
| "is_argument_error RangeError = True"
| "is_argument_error _ = False"

text \<open>
  \<open>_throwStatus\<close> of \<open>native_backend.dart\<close>, and its copy in \<open>file_cipher.dart\<close>, which words
  three messages in another way.
\<close>

fun throw_status :: "string \<Rightarrow> PqForgeStatus \<Rightarrow> dart_exn" where
  "throw_status op InvalidKey = InvalidKeyException (op @ '': invalid key'')"
| "throw_status op InvalidCiphertext = InvalidCiphertextException (op @ '': invalid ciphertext'')"
| "throw_status op AuthFailed = VerificationFailedException (op @ '': verification failed'')"
| "throw_status op Unsupported = UnsupportedBackendException (op @ '': unsupported'')"
| "throw_status op st = InternalCryptoException op st"

definition throw_code :: "string \<Rightarrow> c_int \<Rightarrow> dart_exn" where
  "throw_code op rc = throw_status op (from_code rc)"

fun file_throw_status :: "string \<Rightarrow> PqForgeStatus \<Rightarrow> dart_exn" where
  "file_throw_status op InvalidKey = InvalidKeyException (op @ '': invalid key'')"
| "file_throw_status op InvalidCiphertext = InvalidCiphertextException (op @ '': malformed ciphertext'')"
| "file_throw_status op AuthFailed = VerificationFailedException (op @ '': authentication failed'')"
| "file_throw_status op Unsupported = UnsupportedBackendException (op @ '': unsupported'')"
| "file_throw_status op st = InternalCryptoException op st"

definition folded :: "PqForgeStatus \<Rightarrow> PqForgeStatus" where
  "folded st = (if st \<in> {InvalidKey, InvalidCiphertext, AuthFailed, Unsupported} then st else Internal)"

lemma exn_status_throw:
  "exn_status (throw_status op st) = folded st" "exn_status (file_throw_status op st) = folded st"
  by (cases st; simp add: folded_def)+

lemma throw_code [simp]: "throw_code op (code st) = throw_status op st"
  by (simp add: throw_code_def)

text \<open>\<open>try\<close>-free sequencing: an exception skips the rest, the state keeps what happened before it.\<close>

definition dart_bind :: "('s, 'a dart) comp \<Rightarrow> ('a \<Rightarrow> ('s, 'b dart) comp) \<Rightarrow> ('s, 'b dart) comp" where
  "dart_bind m k = bind_comp m (\<lambda>r. case r of Inl e \<Rightarrow> ret (Inl e) | Inr x \<Rightarrow> k x)"

definition dart_return :: "'a \<Rightarrow> ('s, 'a dart) comp" where
  "dart_return x = ret (Inr x)"

definition dart_throw :: "dart_exn \<Rightarrow> ('s, 'a dart) comp" where
  "dart_throw e = ret (Inl e)"

lemma dart_bind_run [run_simps]:
  "m s = (Done (Inr x), s') \<Longrightarrow> dart_bind m k s = k x s'"
  "m s = (Done (Inl e), s') \<Longrightarrow> dart_bind m k s = (Done (Inl e), s')"
  by (simp_all add: dart_bind_def bind_comp_def)

lemma dart_bind_ret [simp]:
  "dart_bind (ret (Inr x)) k = k x" "dart_bind (ret (Inl e)) k = ret (Inl e)"
  by (simp_all add: dart_bind_def bind_comp_def fun_eq_iff)

lemma dart_simps [simp]:
  "dart_bind (dart_return x) k = k x" "dart_bind (dart_throw e) k = dart_throw e"
  "dart_return x s = (Done (Inr x), s)" "dart_throw e s = (Done (Inl e), s)"
  by (simp_all add: dart_bind_def dart_return_def dart_throw_def fun_eq_iff bind_comp_def)

end
