(* ===== verification/Dart_Stream.thy ===== *)
theory Dart_Stream
  imports Stream_File Dart_Errors
begin

text \<open>
  \<open>lib/src/api/stream.dart\<close>: the pure-Dart \<open>PqForgeStream\<close>, whose wire format the native file
  pipeline claims to match byte for byte. A Dart \<open>int\<close> is a 64-bit word read as signed. An
  \<open>async*\<close> function is what it yields, in order, and how it ends: by an exception or with
  a value. The source is the list of its data events, of any sizes.
\<close>

section \<open>Generators\<close>

type_synonym 'a gen = "bytes list \<times> (dart_exn + 'a)"

definition gen_ret :: "'a \<Rightarrow> 'a gen" where
  "gen_ret x = ([], Inr x)"

definition gen_throw :: "dart_exn \<Rightarrow> 'a gen" where
  "gen_throw e = ([], Inl e)"

definition gen_bind :: "'a gen \<Rightarrow> ('a \<Rightarrow> 'b gen) \<Rightarrow> 'b gen" where
  "gen_bind m k = (case m of
       (ys, Inl e) \<Rightarrow> (ys, Inl e)
     | (ys, Inr x) \<Rightarrow> (case k x of (zs, r) \<Rightarrow> (ys @ zs, r)))"

text \<open>\<open>yield f(..)\<close>, where the call may throw.\<close>

definition gen_yield :: "dart_exn + bytes \<Rightarrow> unit gen" where
  "gen_yield r = (case r of Inl e \<Rightarrow> ([], Inl e) | Inr b \<Rightarrow> ([b], Inr ()))"

lemma gen_simps [simp]:
  "gen_bind (gen_ret x) k = k x" "gen_bind (gen_throw e) k = gen_throw e"
  "gen_bind (ys, Inl e) k = (ys, Inl e)"
  "gen_yield (Inl e) = gen_throw e" "gen_yield (Inr b) = ([b], Inr ())"
  "gen_bind m gen_ret = m"
  by (auto simp: gen_bind_def gen_ret_def gen_throw_def gen_yield_def split: prod.splits sum.splits)

lemma gen_bind_Inr: "gen_bind (ys, Inr x) k = (ys @ fst (k x), snd (k x))"
  by (simp add: gen_bind_def split_beta)

lemma gen_bind_bind: "gen_bind (gen_bind m f) k = gen_bind m (\<lambda>x. gen_bind (f x) k)"
  by (auto simp: gen_bind_def split: prod.splits sum.splits)

lemma gen_cong [fundef_cong]:
  assumes "m = m'" and "\<And>ys x. m' = (ys, Inr x) \<Longrightarrow> k x = k' x"
  shows "gen_bind m k = gen_bind m' k'"
  using assms by (auto simp: gen_bind_def split: prod.splits sum.splits)

section \<open>The backend\<close>

text \<open>\<open>aeadSeal\<close> and \<open>aeadOpen\<close> of \<open>PqForgeBackend\<close>: algorithm, key, nonce, text, aad.\<close>

record dart_backend =
  aeadSeal :: "aead_algorithm \<Rightarrow> bytes \<Rightarrow> bytes \<Rightarrow> bytes \<Rightarrow> bytes \<Rightarrow> dart_exn + bytes"
  aeadOpen :: "aead_algorithm \<Rightarrow> bytes \<Rightarrow> bytes \<Rightarrow> bytes \<Rightarrow> bytes \<Rightarrow> dart_exn + bytes"

fun keyBytes :: "aead_algorithm \<Rightarrow> nat" where
  "keyBytes AES_256_GCM = 32"
| "keyBytes CHACHA20_POLY1305 = 32"

fun nonceBytes :: "aead_algorithm \<Rightarrow> nat" where
  "nonceBytes AES_256_GCM = 12"
| "nonceBytes CHACHA20_POLY1305 = 12"

fun tagBytes :: "aead_algorithm \<Rightarrow> nat" where
  "tagBytes AES_256_GCM = 16"
| "tagBytes CHACHA20_POLY1305 = 16"

fun alg_id :: "aead_algorithm \<Rightarrow> c_int" where
  "alg_id AES_256_GCM = 0"
| "alg_id CHACHA20_POLY1305 = 1"

lemma sizes [simp]: "nonceBytes alg = 12" "tagBytes alg = 16" "aead_alg (alg_id alg) = Some alg"
  by (cases alg; simp add: aead_alg_def)+

lemma stream_aead_alg_id: "stream_aead_alg (alg_id alg) = Some alg"
  by (cases alg) (simp_all add: stream_aead_alg_def)

section \<open>Nonce\<close>

text \<open>\<open>_nonce\<close>: the loop over \<open>i\<close> from \<open>nonceBytes - 2\<close> down; \<open>fill_counter (Suc i)\<close> is the turn of \<open>i\<close>.\<close>

fun fill_counter :: "nat \<Rightarrow> 64 word \<Rightarrow> bytes \<Rightarrow> bytes" where
  "fill_counter 0 c nonce = nonce"
| "fill_counter (Suc i) c nonce =
    (if sint c > 0 then fill_counter i (signed_drop_bit 8 c) (nonce[i := ucast (and c 0xFF)]) else nonce)"

definition dart_nonce :: "64 word \<Rightarrow> bool \<Rightarrow> nat \<Rightarrow> bytes" where
  "dart_nonce counter is_last nonce_bytes =
    (fill_counter (nonce_bytes - 1) counter (replicate nonce_bytes 0))
      [nonce_bytes - 1 := (if is_last then 1 else 0)]"

section \<open>Sealing\<close>

record dart_seal_state =
  ds_counter :: "64 word"
  ds_pending :: "bytes option"
  ds_carry :: bytes

definition dart_concat :: "bytes \<Rightarrow> bytes \<Rightarrow> bytes" where
  "dart_concat a b = (if a = [] then b else a @ b)"

definition dart_seal_frame ::
  "dart_backend \<Rightarrow> bytes \<Rightarrow> aead_algorithm \<Rightarrow> bytes \<Rightarrow> 64 word \<Rightarrow> bool \<Rightarrow> bytes \<Rightarrow> dart_exn + bytes" where
  "dart_seal_frame B key alg aad counter is_last chunk =
    aeadSeal B alg key (dart_nonce counter is_last (nonceBytes alg)) chunk aad"

text \<open>\<open>if (pending != null) yield _seal(.., pending, counter++, false, ..)\<close>\<close>

definition yield_pending ::
  "(64 word \<Rightarrow> bool \<Rightarrow> bytes \<Rightarrow> dart_exn + bytes) \<Rightarrow> dart_seal_state \<Rightarrow> dart_seal_state gen" where
  "yield_pending sf st = (case ds_pending st of
       None \<Rightarrow> gen_ret st
     | Some p \<Rightarrow> gen_bind (gen_yield (sf (ds_counter st) False p))
         (\<lambda>_. gen_ret (st\<lparr>ds_counter := ds_counter st + 1\<rparr>)))"

text \<open>The \<open>while\<close> loop over one data event; \<open>chunkSize\<close> is positive where it runs.\<close>

function dart_seal_loop ::
  "(64 word \<Rightarrow> bool \<Rightarrow> bytes \<Rightarrow> dart_exn + bytes) \<Rightarrow> nat \<Rightarrow> bytes \<Rightarrow> nat \<Rightarrow> dart_seal_state
    \<Rightarrow> (nat \<times> dart_seal_state) gen" where
  "dart_seal_loop sf n combined offset st =
    (if 0 < n \<and> length combined - offset \<ge> n then
       gen_bind (yield_pending sf st) (\<lambda>st'.
       dart_seal_loop sf n combined (offset + n)
         (st'\<lparr>ds_pending := Some (take n (drop offset combined))\<rparr>))
     else gen_ret (offset, st))"
  by pat_completeness auto
termination
  by (relation "measure (\<lambda>(sf, n, combined, offset, st). length combined - offset)") auto

declare dart_seal_loop.simps [simp del]

fun dart_seal_feed ::
  "(64 word \<Rightarrow> bool \<Rightarrow> bytes \<Rightarrow> dart_exn + bytes) \<Rightarrow> nat \<Rightarrow> bytes list \<Rightarrow> dart_seal_state
    \<Rightarrow> dart_seal_state gen" where
  "dart_seal_feed sf n [] st = gen_ret st"
| "dart_seal_feed sf n (data # source) st =
    (let combined = dart_concat (ds_carry st) data in
     gen_bind (dart_seal_loop sf n combined 0 st) (\<lambda>(offset, st').
     dart_seal_feed sf n source (st'\<lparr>ds_carry := drop offset combined\<rparr>)))"

definition dart_seal_end ::
  "(64 word \<Rightarrow> bool \<Rightarrow> bytes \<Rightarrow> dart_exn + bytes) \<Rightarrow> dart_seal_state \<Rightarrow> unit gen" where
  "dart_seal_end sf st =
    (if ds_carry st \<noteq> [] then
       gen_bind (yield_pending sf st) (\<lambda>st'. gen_yield (sf (ds_counter st') True (ds_carry st')))
     else case ds_pending st of
       Some p \<Rightarrow> gen_yield (sf (ds_counter st) True p)
     | None \<Rightarrow> gen_yield (sf (ds_counter st) True []))"

definition dart_stream_seal ::
  "dart_backend \<Rightarrow> bytes \<Rightarrow> aead_algorithm \<Rightarrow> bytes option \<Rightarrow> 64 word \<Rightarrow> bytes list \<Rightarrow> unit gen" where
  "dart_stream_seal B key alg aad chunkSize source =
    (if sint chunkSize \<le> 0 then gen_throw ArgumentError
     else
       let ad = (case aad of None \<Rightarrow> [] | Some a \<Rightarrow> a);
           sf = dart_seal_frame B key alg ad in
       gen_bind (dart_seal_feed sf (nat (sint chunkSize)) source
         \<lparr>ds_counter = 0, ds_pending = None, ds_carry = []\<rparr>) (dart_seal_end sf))"

section \<open>Opening\<close>

record dart_open_state =
  do_counter :: "64 word"
  do_carry :: bytes
  do_saw :: bool

definition dart_open_frame ::
  "dart_backend \<Rightarrow> bytes \<Rightarrow> aead_algorithm \<Rightarrow> bytes \<Rightarrow> 64 word \<Rightarrow> bool \<Rightarrow> bytes \<Rightarrow> dart_exn + bytes" where
  "dart_open_frame B key alg aad counter is_last frame =
    aeadOpen B alg key (dart_nonce counter is_last (nonceBytes alg)) frame aad"

text \<open>
  \<open>cipherChunk\<close> is at least 17, or negative where \<open>chunkSize + tagBytes\<close> wraps; then
  \<open>sublistView\<close> throws.
\<close>

function dart_open_loop ::
  "(64 word \<Rightarrow> bool \<Rightarrow> bytes \<Rightarrow> dart_exn + bytes) \<Rightarrow> int \<Rightarrow> bytes \<Rightarrow> nat \<Rightarrow> 64 word
    \<Rightarrow> (nat \<times> 64 word) gen" where
  "dart_open_loop opn cc combined offset c =
    (if int (length combined - offset) > cc then
       if cc \<le> 0 then gen_throw RangeError
       else
         gen_bind (gen_yield (opn c False (take (nat cc) (drop offset combined)))) (\<lambda>_.
         dart_open_loop opn cc combined (offset + nat cc) (c + 1))
     else gen_ret (offset, c))"
  by pat_completeness auto
termination
  by (relation "measure (\<lambda>(opn, cc, combined, offset, c). length combined - offset)") auto

declare dart_open_loop.simps [simp del]

fun dart_open_feed ::
  "(64 word \<Rightarrow> bool \<Rightarrow> bytes \<Rightarrow> dart_exn + bytes) \<Rightarrow> int \<Rightarrow> bytes list \<Rightarrow> dart_open_state
    \<Rightarrow> dart_open_state gen" where
  "dart_open_feed opn cc [] st = gen_ret st"
| "dart_open_feed opn cc (data # source) st =
    (let combined = dart_concat (do_carry st) data in
     gen_bind (dart_open_loop opn cc combined 0 (do_counter st)) (\<lambda>(offset, c).
     dart_open_feed opn cc source
       \<lparr>do_counter = c, do_carry = drop offset combined, do_saw = do_saw st \<or> data \<noteq> []\<rparr>))"

definition dart_open_end ::
  "(64 word \<Rightarrow> bool \<Rightarrow> bytes \<Rightarrow> dart_exn + bytes) \<Rightarrow> nat \<Rightarrow> dart_open_state \<Rightarrow> unit gen" where
  "dart_open_end opn tag_bytes st =
    (if \<not> do_saw st then gen_throw (InvalidCiphertextException ''empty ciphertext stream'')
     else if length (do_carry st) < tag_bytes
     then gen_throw (InvalidCiphertextException ''truncated final frame'')
     else gen_yield (opn (do_counter st) True (do_carry st)))"

definition dart_stream_open ::
  "dart_backend \<Rightarrow> bytes \<Rightarrow> aead_algorithm \<Rightarrow> bytes option \<Rightarrow> 64 word \<Rightarrow> bytes list \<Rightarrow> unit gen" where
  "dart_stream_open B key alg aad chunkSize source =
    (if sint chunkSize \<le> 0 then gen_throw ArgumentError
     else
       let ad = (case aad of None \<Rightarrow> [] | Some a \<Rightarrow> a);
           opn = dart_open_frame B key alg ad in
       gen_bind (dart_open_feed opn (sint (chunkSize + of_nat (tagBytes alg))) source
         \<lparr>do_counter = 0, do_carry = [], do_saw = False\<rparr>) (dart_open_end opn (tagBytes alg)))"

section \<open>The two nonces agree\<close>

lemma signed_drop_bit_nonneg:
  fixes c :: "64 word"
  assumes "0 \<le> sint c"
  shows "signed_drop_bit 8 c = drop_bit 8 c" and "0 \<le> sint (drop_bit 8 c)"
proof -
  have top: "\<not> bit c 63" using assms by (simp add: sint_uint not_le bit_last_iff [of c, simplified] flip: bit_uint_iff)
  show 1: "signed_drop_bit 8 c = drop_bit 8 c"
    by (rule bit_word_eqI) (use top in \<open>auto simp: bit_simps dest: bit_imp_le_length\<close>)
  show "0 \<le> sint (drop_bit 8 c)"
    using bit_last_iff [of "drop_bit 8 c"] bit_imp_le_length [of c 71]
    by (auto simp: bit_simps not_less [symmetric])
qed

lemma length_fill_counter [simp]: "length (fill_counter i c nonce) = length nonce"
  by (induction i arbitrary: c nonce) simp_all

lemma ucast_low_byte: "(ucast (and c 0xFF) :: u8) = ucast (c :: 64 word)"
proof -
  have m: "(0xFF :: 64 word) = mask 8" by (simp add: mask_eq_exp_minus_1)
  show ?thesis unfolding m by (rule bit_word_eqI) (auto simp: bit_simps simp del: mask_numeral)
qed

lemma sint_nonneg:
  fixes c :: "64 word"
  assumes "unat c < 2 ^ 63"
  shows "sint c = int (unat c)"
proof -
  have "uint c < 2 ^ 63" using assms by (metis nat_less_numeral_power_cancel_iff unat_eq_nat_uint)
  moreover have "0 \<le> uint c" by simp
  ultimately show ?thesis
    unfolding sint_uint by (subst signed_take_bit_int_eq_self) (simp_all add: order_trans [of _ 0])
qed

lemma fill_counter_nth:
  assumes "0 \<le> sint c" "i \<le> length nonce" "\<forall>j<i. nonce ! j = 0" "j < length nonce"
  shows "fill_counter i c nonce ! j = (if j < i then ucast (drop_bit (8 * (i - 1 - j)) c) else nonce ! j)"
  using assms
proof (induction i arbitrary: c nonce)
  case (Suc i)
  show ?case
  proof (cases "sint c > 0")
    case True
    have "fill_counter i (drop_bit 8 c) (nonce[i := ucast c]) ! j =
        (if j < i then ucast (drop_bit (8 * (i - 1 - j)) (drop_bit 8 c)) else nonce[i := ucast c] ! j)"
      by (rule Suc.IH) (use Suc.prems signed_drop_bit_nonneg in auto)
    moreover have "8 * (i - 1 - j) + 8 = 8 * (i - j)" if "j < i" using that by simp
    ultimately show ?thesis
      using True Suc.prems(2,4) by (auto simp: signed_drop_bit_nonneg [OF Suc.prems(1)] ucast_low_byte less_Suc_eq)
  next
    case False
    then have "sint c = 0" using Suc.prems(1) by simp
    then have "c = 0" by (metis signed_eq_0_iff)
    with False Suc.prems show ?thesis by simp
  qed
qed simp

lemma dart_nonce_native:
  assumes "unat c < 2 ^ 63"
  shows "dart_nonce c l 12 = stream_nonce c l"
proof (rule nth_equalityI)
  have pos: "0 \<le> sint c" using sint_nonneg [OF assms] by simp
  fix j assume "j < length (dart_nonce c l 12)"
  then have j: "j < 12" by (simp add: dart_nonce_def)
  have "fill_counter 11 c (replicate 12 0) ! j = (if j < 11 then ucast (drop_bit (8 * (10 - j)) c) else 0)"
    using fill_counter_nth [OF pos, of 11 "replicate 12 0" j] j by simp
  moreover have "drop_bit n c = 0" if "64 \<le> n" for n
    by (rule bit_word_eqI) (use that in \<open>auto simp: bit_simps dest: bit_imp_le_length\<close>)
  moreover have "j = 0 \<or> j = 1 \<or> j = 2 \<or> j = 3 \<or> j = 4 \<or> j = 5 \<or> j = 6 \<or> j = 7 \<or> j = 8 \<or> j = 9 \<or> j = 10 \<or> j = 11"
    using j by presburger
  ultimately show "dart_nonce c l 12 ! j = stream_nonce c l ! j"
    by (elim disjE) (simp_all add: dart_nonce_def stream_nonce_layout be_bytes_def upt_conv_Cons)
qed (simp add: dart_nonce_def)


text \<open>
  \<open>c > 0\<close> ends the loop at once for a counter that has become negative: from \<open>2^63\<close> on the
  counter no longer reaches the nonce.
\<close>

lemma dart_nonce_negative: "sint c \<le> 0 \<Longrightarrow> dart_nonce c l 12 = dart_nonce 0 l 12"
  by (simp add: dart_nonce_def numeral_eq_Suc)

section \<open>Sealing refines the stream\<close>

text \<open>The frames before the last one, sealed.\<close>

fun lead :: "(64 word \<Rightarrow> bool \<Rightarrow> bytes \<Rightarrow> bytes) \<Rightarrow> 64 word \<Rightarrow> bytes list \<Rightarrow> bytes list" where
  "lead enc c [] = []"
| "lead enc c (x # xs) = enc c False x # lead enc (c + 1) xs"

lemma lead_append: "lead enc c (xs @ ys) = lead enc c xs @ lead enc (c + of_nat (length xs)) ys"
  by (induction xs arbitrary: c) (simp_all add: ac_simps)

lemma seal_list_snoc: "seal_list enc c (xs @ [y]) = lead enc c xs @ [enc (c + of_nat (length xs)) True y]"
  by (induction xs arbitrary: c) (simp_all add: seal_list_Cons ac_simps)

text \<open>The state after the full frames \<open>fs\<close> and the rest \<open>r\<close>: the last full frame is held back.\<close>

definition seal_state :: "bytes list \<Rightarrow> bytes \<Rightarrow> dart_seal_state" where
  "seal_state fs r =
    \<lparr>ds_counter = of_nat (length (butlast fs)), ds_pending = (if fs = [] then None else Some (last fs)),
     ds_carry = r\<rparr>"

definition all_full :: "nat \<Rightarrow> bytes list \<Rightarrow> bool" where
  "all_full n fs \<longleftrightarrow> (\<forall>x\<in>set fs. length x = n)"

definition seals_as ::
  "(64 word \<Rightarrow> bool \<Rightarrow> bytes \<Rightarrow> dart_exn + bytes) \<Rightarrow> (64 word \<Rightarrow> bool \<Rightarrow> bytes \<Rightarrow> bytes) \<Rightarrow> nat \<Rightarrow> bool" where
  "seals_as sf enc n \<longleftrightarrow> (\<forall>c l p. length p \<le> n \<longrightarrow> sf c l p = Inr (enc c l p))"

lemma all_full_simps [simp]:
  "all_full n []" "all_full n (xs @ ys) \<longleftrightarrow> all_full n xs \<and> all_full n ys"
  "all_full n (x # xs) \<longleftrightarrow> length x = n \<and> all_full n xs"
  by (auto simp: all_full_def)

lemma all_full_last: "all_full n fs \<Longrightarrow> fs \<noteq> [] \<Longrightarrow> length (last fs) = n"
  by (simp add: all_full_def)

lemma yield_pending_run:
  assumes "seals_as sf enc n" "all_full n fs"
  shows "yield_pending sf (seal_state fs r) =
    (lead enc (of_nat (length (butlast fs))) (if fs = [] then [] else [last fs]),
     Inr ((seal_state fs r)\<lparr>ds_counter := of_nat (length fs)\<rparr>))"
proof (cases fs rule: rev_cases)
  case Nil
  then show ?thesis by (simp add: yield_pending_def seal_state_def gen_ret_def)
next
  case (snoc gs g)
  then have "sf (of_nat (length gs)) False g = Inr (enc (of_nat (length gs)) False g)"
    using assms by (simp add: seals_as_def)
  then show ?thesis
    by (simp add: snoc yield_pending_def seal_state_def gen_bind_Inr gen_ret_def add.commute)
qed

lemma lead_butlast:
  "lead enc 0 (butlast (fs @ [b])) =
     lead enc 0 (butlast fs) @ lead enc (of_nat (length (butlast fs))) (if fs = [] then [] else [last fs])"
  by (cases fs rule: rev_cases) (simp_all add: lead_append butlast_append)

lemma dart_seal_loop_run:
  assumes sf: "seals_as sf enc n" and n: "0 < n" and full: "all_full n fs"
  shows "\<exists>ys bs off'. dart_seal_loop sf n combined off (seal_state fs r) =
      (ys, Inr (off', seal_state (fs @ bs) r)) \<and>
    lead enc 0 (butlast (fs @ bs)) = lead enc 0 (butlast fs) @ ys \<and>
    drop off combined = concat bs @ drop off' combined \<and> all_full n bs \<and>
    length (drop off' combined) < n"
  using full
proof (induction "length combined - off" arbitrary: off fs rule: less_induct)
  case less
  show ?case
  proof (cases "length combined - off \<ge> n")
    case False
    then have "dart_seal_loop sf n combined off (seal_state fs r) = ([], Inr (off, seal_state fs r))"
      by (simp add: dart_seal_loop.simps [of sf n combined off] gen_ret_def)
    with False n show ?thesis by (intro exI [of _ "[]"] exI [of _ off]) simp
  next
    case True
    let ?b = "take n (drop off combined)"
    let ?y = "lead enc (of_nat (length (butlast fs))) (if fs = [] then [] else [last fs])"
    have st: "(seal_state fs r)\<lparr>ds_counter := of_nat (length fs), ds_pending := Some ?b\<rparr> = seal_state (fs @ [?b]) r"
      by (simp add: seal_state_def)
    have full': "all_full n (fs @ [?b])" using less.prems True by simp
    have "length combined - (off + n) < length combined - off" using True n by linarith
    from less.hyps [OF this full'] obtain ys bs off' where
      loop: "dart_seal_loop sf n combined (off + n) (seal_state (fs @ [?b]) r) =
          (ys, Inr (off', seal_state (fs @ [?b] @ bs) r))"
      and ys: "lead enc 0 (butlast (fs @ [?b] @ bs)) = lead enc 0 (butlast (fs @ [?b])) @ ys"
      and dr: "drop (off + n) combined = concat bs @ drop off' combined" "all_full n bs"
        "length (drop off' combined) < n" by auto
    have "dart_seal_loop sf n combined off (seal_state fs r) =
        (?y @ ys, Inr (off', seal_state (fs @ ?b # bs) r))"
      using True n loop
      by (simp add: dart_seal_loop.simps [of sf n combined off] yield_pending_run [OF sf less.prems]
          gen_bind_Inr st)
    moreover have "lead enc 0 (butlast (fs @ ?b # bs)) = lead enc 0 (butlast fs) @ ?y @ ys"
      using ys lead_butlast [of enc fs ?b] by simp
    moreover have "drop off combined = concat (?b # bs) @ drop off' combined"
    proof -
      have "drop off combined = ?b @ drop (off + n) combined" by (metis append_take_drop_id drop_drop add.commute)
      then show ?thesis by (metis append.assoc concat.simps(2) dr(1))
    qed
    ultimately show ?thesis
      using dr(2,3) True by (intro exI [of _ "?y @ ys"] exI [of _ "?b # bs"] exI [of _ off']) simp
  qed
qed


lemma dart_concat [simp]: "dart_concat a b = a @ b"
  by (simp add: dart_concat_def)

lemma dart_seal_feed_run:
  assumes sf: "seals_as sf enc n" and n: "0 < n" and "all_full n fs" "length r < n"
  shows "\<exists>ys gs r'. dart_seal_feed sf n source (seal_state fs r) = (ys, Inr (seal_state gs r')) \<and>
    lead enc 0 (butlast gs) = lead enc 0 (butlast fs) @ ys \<and>
    concat gs @ r' = concat fs @ r @ concat source \<and> all_full n gs \<and> length r' < n"
  using assms(3,4)
proof (induction source arbitrary: fs r)
  case Nil
  then show ?case by (intro exI [of _ "[]"] exI [of _ fs] exI [of _ r]) (simp add: gen_ret_def)
next
  case (Cons data source)
  obtain ys bs off where loop: "dart_seal_loop sf n (r @ data) 0 (seal_state fs r) =
      (ys, Inr (off, seal_state (fs @ bs) r))"
    and ys: "lead enc 0 (butlast (fs @ bs)) = lead enc 0 (butlast fs) @ ys"
    and dr: "r @ data = concat bs @ drop off (r @ data)" "all_full n bs" "length (drop off (r @ data)) < n"
    using dart_seal_loop_run [OF sf n Cons.prems(1), of "r @ data" 0 r] by (auto simp del: drop_append)
  have "all_full n (fs @ bs)" using Cons.prems(1) dr(2) by simp
  from Cons.IH [OF this dr(3)] obtain zs gs r' where
    feed: "dart_seal_feed sf n source (seal_state (fs @ bs) (drop off (r @ data))) = (zs, Inr (seal_state gs r'))"
    and zs: "lead enc 0 (butlast gs) = lead enc 0 (butlast (fs @ bs)) @ zs"
    and gs: "concat gs @ r' = concat (fs @ bs) @ drop off (r @ data) @ concat source" "all_full n gs" "length r' < n"
    by blast
  have carry: "(seal_state fs' r)\<lparr>ds_carry := x\<rparr> = seal_state fs' x" for fs' x by (simp add: seal_state_def)
  have "dart_seal_feed sf n (data # source) (seal_state fs r) = (ys @ zs, Inr (seal_state gs r'))"
    using loop feed by (simp add: Let_def gen_bind_Inr carry) (simp add: seal_state_def gen_bind_Inr)
  moreover have "concat gs @ r' = concat fs @ r @ concat (data # source)"
    using gs(1) dr(1) by (metis append.assoc concat.simps(2) concat_append)
  ultimately show ?case using ys zs gs(2,3) by (intro exI [of _ "ys @ zs"] exI [of _ gs] exI [of _ r']) simp
qed

lemma plain_frames_full:
  assumes "0 < n" "all_full n fs" "length r < n"
  shows "plain_frames n (concat fs @ r) =
    (if fs = [] \<and> r = [] then [[]] else fs @ (if r = [] then [] else [r]))"
proof (cases "r = []")
  case True
  have "blocks n (concat fs) = fs"
    by (rule blocks_concat) (use assms in \<open>simp_all add: all_full_def cut_ok_full\<close>)
  moreover have "concat fs = [] \<longleftrightarrow> fs = []" using assms(1,2) by (cases fs) auto
  ultimately show ?thesis using True by (simp add: plain_frames_def)
next
  case False
  have "blocks n (concat (fs @ [r])) = fs @ [r]"
    by (rule blocks_concat) (use assms False in \<open>simp_all add: all_full_def cut_ok_append\<close>)
  with False show ?thesis by (simp add: plain_frames_def)
qed

lemma dart_seal_end_run:
  assumes sf: "seals_as sf enc n" and n: "0 < n" and "all_full n fs" "length r < n"
  shows "\<exists>zs. dart_seal_end sf (seal_state fs r) = (zs, Inr ()) \<and>
    lead enc 0 (butlast fs) @ zs = seal_list enc 0 (plain_frames n (concat fs @ r))"
proof -
  have one: "sf c l p = Inr (enc c l p)" if "length p \<le> n" for c l p
    using sf that by (simp add: seals_as_def)
  show ?thesis
  proof (cases "r = []")
    case False
    have "dart_seal_end sf (seal_state fs r) =
        (lead enc (of_nat (length (butlast fs))) (if fs = [] then [] else [last fs]) @
          [enc (of_nat (length fs)) True r], Inr ())"
      using False assms(4) yield_pending_run [OF sf assms(3), of r]
      by (simp add: dart_seal_end_def gen_bind_Inr one) (simp add: seal_state_def gen_bind_Inr one)
    moreover have "plain_frames n (concat fs @ r) = fs @ [r]"
      using False plain_frames_full [OF n assms(3,4)] by simp
    moreover have "lead enc 0 fs = lead enc 0 (butlast fs) @
        lead enc (of_nat (length (butlast fs))) (if fs = [] then [] else [last fs])"
      using lead_butlast [of enc fs r] by simp
    ultimately show ?thesis by (simp add: seal_list_snoc)
  next
    case True
    show ?thesis
    proof (cases fs rule: rev_cases)
      case Nil
      then show ?thesis using True by (simp add: dart_seal_end_def seal_state_def plain_frames_def one)
    next
      case (snoc gs g)
      then have "plain_frames n (concat fs @ r) = gs @ [g]"
        using True plain_frames_full [OF n assms(3,4)] by simp
      then show ?thesis
        using True snoc assms(3) by (simp add: dart_seal_end_def seal_state_def seal_list_snoc one)
    qed
  qed
qed


section \<open>Opening refines the stream\<close>

definition gen_outcome :: "'a gen \<Rightarrow> PqForgeStatus \<times> bytes" where
  "gen_outcome g = ((case snd g of Inr _ \<Rightarrow> Ok | Inl e \<Rightarrow> exn_status e), concat (fst g))"

definition opens_as :: "(64 word \<Rightarrow> bool \<Rightarrow> bytes \<Rightarrow> dart_exn + bytes) \<Rightarrow> bool" where
  "opens_as opn \<longleftrightarrow> (\<forall>c l f e. TAG_LEN \<le> length f \<longrightarrow> opn c l f = Inl e \<longrightarrow> exn_status e = AuthFailed)"

definition opened :: "(64 word \<Rightarrow> bool \<Rightarrow> bytes \<Rightarrow> dart_exn + bytes) \<Rightarrow> 64 word \<Rightarrow> bool \<Rightarrow> bytes \<Rightarrow> bytes option" where
  "opened opn c l f = (case opn c l f of Inr p \<Rightarrow> Some p | Inl _ \<Rightarrow> None)"

lemma gen_outcome_simps [simp]:
  "gen_outcome (gen_throw e) = (exn_status e, [])"
  "gen_outcome (ys, Inl e) = (exn_status e, concat ys)"
  "gen_outcome (gen_bind (ys, Inr x) k) = (fst (gen_outcome (k x)), concat ys @ snd (gen_outcome (k x)))"
  by (simp_all add: gen_outcome_def gen_throw_def gen_bind_Inr)

lemma open_blocks_step:
  assumes "TAG_LEN \<le> cc" "cc < length T"
  shows "open_list dec cc c (blocks cc T) = (case dec c False (take cc T) of
      None \<Rightarrow> (AuthFailed, [])
    | Some p \<Rightarrow> (fst (open_list dec cc (c + 1) (blocks cc (drop cc T))),
        p @ snd (open_list dec cc (c + 1) (blocks cc (drop cc T)))))"
proof -
  have cc: "0 < cc" using assms(1) by (simp add: TAG_LEN_def)
  then have "blocks cc T = take cc T # blocks cc (drop cc T)"
    by (rule blocks_step) (use assms(2) in auto)
  moreover have "blocks cc (drop cc T) \<noteq> []" using cc assms(2) by simp
  ultimately show ?thesis using assms by (simp add: Let_def split_beta split: option.split)
qed

lemma open_blocks_last:
  assumes "TAG_LEN \<le> cc" "length T \<le> cc" "T \<noteq> []"
  shows "open_list dec cc c (blocks cc T) =
    (if length T < TAG_LEN then (InvalidCiphertext, [])
     else case dec c True T of None \<Rightarrow> (AuthFailed, []) | Some p \<Rightarrow> (Ok, p))"
proof -
  have "0 < cc" using assms(1) by (simp add: TAG_LEN_def)
  then have "blocks cc T = [T]" using assms by (simp add: blocks_step)
  then show ?thesis by (simp add: Let_def split: option.split)
qed

text \<open>The loop over one event consumes whole frames that more bytes follow.\<close>

lemma dart_open_loop_run:
  assumes opn: "opens_as opn" and cc: "TAG_LEN \<le> cc"
  shows "case dart_open_loop opn (int cc) combined off c of
      (ys, Inl e) \<Rightarrow> \<forall>tail. open_list (opened opn) cc c (blocks cc (drop off combined @ tail)) = (exn_status e, concat ys)
    | (ys, Inr (off', c')) \<Rightarrow> length (drop off' combined) \<le> cc \<and>
        (drop off combined \<noteq> [] \<longrightarrow> drop off' combined \<noteq> []) \<and>
        (\<forall>tail. open_list (opened opn) cc c (blocks cc (drop off combined @ tail)) =
          (fst (open_list (opened opn) cc c' (blocks cc (drop off' combined @ tail))),
           concat ys @ snd (open_list (opened opn) cc c' (blocks cc (drop off' combined @ tail)))))"
proof (induction "length combined - off" arbitrary: off c rule: less_induct)
  case less
  show ?case
  proof (cases "cc < length combined - off")
    case False
    then have "dart_open_loop opn (int cc) combined off c = ([], Inr (off, c))"
      by (simp add: dart_open_loop.simps [of opn "int cc" combined off] gen_ret_def)
    with False show ?thesis by simp
  next
    case True
    have cc0: "0 < cc" using cc by (simp add: TAG_LEN_def)
    let ?f = "take cc (drop off combined)"
    have len: "length ?f = cc" using True by simp
    have step: "open_list dec cc c (blocks cc (drop off combined @ tail)) = (case dec c False ?f of
        None \<Rightarrow> (AuthFailed, [])
      | Some p \<Rightarrow> (fst (open_list dec cc (c + 1) (blocks cc (drop (off + cc) combined @ tail))),
          p @ snd (open_list dec cc (c + 1) (blocks cc (drop (off + cc) combined @ tail)))))" for dec tail
    proof -
      have "take cc (drop off combined @ tail) = ?f" "drop cc (drop off combined @ tail) = drop (off + cc) combined @ tail"
        using True by (simp_all add: add.commute)
      moreover have "cc < length (drop off combined @ tail)" using True by simp
      ultimately show ?thesis by (simp only: open_blocks_step [OF cc])
    qed
    have loop: "dart_open_loop opn (int cc) combined off c =
        gen_bind (gen_yield (opn c False ?f)) (\<lambda>_. dart_open_loop opn (int cc) combined (off + cc) (c + 1))"
    proof -
      have "int cc < int (length combined - off)" "\<not> int cc \<le> 0" using True cc0 by linarith+
      then show ?thesis by (subst dart_open_loop.simps) (simp only: if_True if_False nat_int)
    qed
    show ?thesis
    proof (cases "opn c False ?f")
      case (Inl e)
      moreover have "TAG_LEN \<le> length ?f" unfolding len by (rule cc)
      ultimately have "exn_status e = AuthFailed" using opn unfolding opens_as_def by blast
      with Inl show ?thesis by (simp add: loop step opened_def gen_throw_def)
    next
      case (Inr p)
      have "length combined - (off + cc) < length combined - off" using True cc0 by linarith
      from less.hyps [OF this, of "c + 1"] show ?thesis
        using Inr True
        by (cases "dart_open_loop opn (int cc) combined (off + cc) (c + 1)")
           (auto simp: loop step opened_def gen_bind_Inr split: sum.splits)
    qed
  qed
qed


lemma dart_open_run:
  assumes opn: "opens_as opn" and cc: "TAG_LEN \<le> cc"
    and "length (do_carry st) \<le> cc" "do_saw st \<longleftrightarrow> do_carry st \<noteq> []"
  shows "gen_outcome (gen_bind (dart_open_feed opn (int cc) source st) (dart_open_end opn TAG_LEN)) =
    open_list (opened opn) cc (do_counter st) (blocks cc (do_carry st @ concat source))"
  using assms(3,4)
proof (induction source arbitrary: st)
  case Nil
  show ?case
  proof (cases "do_carry st = []")
    case True
    with Nil.prems show ?thesis by (simp add: dart_open_end_def gen_ret_def)
  next
    case False
    have "exn_status e = AuthFailed" if "opn (do_counter st) True (do_carry st) = Inl e" "TAG_LEN \<le> length (do_carry st)" for e
      using opn that unfolding opens_as_def by blast
    with False Nil.prems show ?thesis
      by (cases "opn (do_counter st) True (do_carry st)")
         (auto simp: dart_open_end_def open_blocks_last [OF cc] opened_def gen_outcome_def gen_throw_def)
  qed
next
  case (Cons data source)
  let ?comb = "do_carry st @ data"
  note run = dart_open_loop_run [OF opn cc, where combined = ?comb and off = 0 and c = "do_counter st"]
  obtain ys r where loop: "dart_open_loop opn (int cc) ?comb 0 (do_counter st) = (ys, r)" by force
  show ?case
  proof (cases r)
    case (Inl e)
    then show ?thesis using run loop by (simp add: Let_def)
  next
    case (Inr x)
    obtain off c where x: "x = (off, c)" by force
    let ?st = "\<lparr>do_counter = c, do_carry = drop off ?comb, do_saw = do_saw st \<or> data \<noteq> []\<rparr>"
    have "length (do_carry ?st) \<le> cc" "do_saw ?st \<longleftrightarrow> do_carry ?st \<noteq> []"
      using run loop Inr x Cons.prems(2) by (auto simp del: drop_append)
    from Cons.IH [OF this] show ?thesis
      using run loop Inr x by (simp add: Let_def gen_bind_bind del: drop_append)
  qed
qed


section \<open>The contract of a backend\<close>

text \<open>
  What \<open>PqForgeStream\<close> needs of the AEAD behind it: a frame that fits is sealed, under the
  native nonce as long as the counter is not negative, and an opening that fails does so
  with \<open>VerificationFailedException\<close>.
\<close>

locale frame_backend =
  fixes sf opn :: "'x \<Rightarrow> 64 word \<Rightarrow> bool \<Rightarrow> bytes \<Rightarrow> dart_exn + bytes"
    and enc :: "'x \<Rightarrow> u64 \<Rightarrow> bool \<Rightarrow> bytes \<Rightarrow> bytes"
    and dec :: "'x \<Rightarrow> u64 \<Rightarrow> bool \<Rightarrow> bytes \<Rightarrow> bytes option"
    and lawful :: "'x \<Rightarrow> nat \<Rightarrow> bool" and quiet :: "'x \<Rightarrow> bool"
  assumes sealed: "lawful x n \<Longrightarrow> length p \<le> n \<Longrightarrow>
      \<exists>f. sf x c l p = Inr f \<and> (unat c < 2 ^ 63 \<longrightarrow> f = enc x c l p)"
    and failed: "quiet x \<Longrightarrow> TAG_LEN \<le> length f \<Longrightarrow> opn x c l f = Inl e \<Longrightarrow> exn_status e = AuthFailed"
    and agrees: "quiet x \<Longrightarrow> TAG_LEN \<le> length f \<Longrightarrow> unat c < 2 ^ 63 \<Longrightarrow> opened (opn x) c l f = dec x c l f"
begin

lemma seal_run:
  assumes law: "lawful x n" and n: "0 < n" and few: "length (plain_frames n (concat source)) \<le> 2 ^ 63"
  shows "gen_bind (dart_seal_feed (sf x) n source \<lparr>ds_counter = 0, ds_pending = None, ds_carry = []\<rparr>)
      (dart_seal_end (sf x)) = (seal_list (enc x) 0 (plain_frames n (concat source)), Inr ())"
proof -
  define e where "e c l p = (case sf x c l p of Inr f \<Rightarrow> f | Inl _ \<Rightarrow> [])" for c l p
  have sealed_as: "seals_as (sf x) e n"
    unfolding seals_as_def
  proof (intro allI impI)
    fix c l p assume "length (p :: bytes) \<le> n"
    from sealed [OF law this] obtain f where "sf x c l p = Inr f" by blast
    then show "sf x c l p = Inr (e c l p)" by (simp add: e_def)
  qed
  have agree: "e c l p = enc x c l p" if "length p \<le> n" "unat c < 2 ^ 63" for c l p
    using sealed [OF law that(1), of c l] that(2) by (auto simp: e_def)
  have init: "\<lparr>ds_counter = 0, ds_pending = None, ds_carry = []\<rparr> = seal_state [] []"
    by (simp add: seal_state_def)
  obtain ys gs r where feed: "dart_seal_feed (sf x) n source (seal_state [] []) = (ys, Inr (seal_state gs r))"
    and ys: "lead e 0 (butlast gs) = ys" and gs: "concat gs @ r = concat source" "all_full n gs" "length r < n"
    using dart_seal_feed_run [OF sealed_as n, of "[]" "[]" source] n by auto
  obtain zs where "dart_seal_end (sf x) (seal_state gs r) = (zs, Inr ())"
    and zs: "ys @ zs = seal_list e 0 (plain_frames n (concat source))"
    using dart_seal_end_run [OF sealed_as n gs(2,3)] ys gs(1) by auto
  moreover have "seal_list e 0 (plain_frames n (concat source)) = seal_list (enc x) 0 (plain_frames n (concat source))"
  proof (rule nth_equalityI)
    fix i assume "i < length (seal_list e 0 (plain_frames n (concat source)))"
    then have i: "i < length (plain_frames n (concat source))" by simp
    moreover have "length (plain_frames n (concat source) ! i) \<le> n" 
      using i plain_frames_bound [of _ n "concat source"] nth_mem by blast
    moreover have "unat (of_nat i :: u64) < 2 ^ 63" using i few by (simp add: unat_of_nat take_bit_nat_eq_self)
    ultimately show "seal_list e 0 (plain_frames n (concat source)) ! i =
        seal_list (enc x) 0 (plain_frames n (concat source)) ! i"
      by (simp add: seal_list_nth agree)
  qed simp
  ultimately show ?thesis by (simp add: init feed gen_bind_Inr)
qed

lemma open_run:
  assumes q: "quiet x" and cc: "TAG_LEN \<le> cc" and few: "length (blocks cc (concat source)) \<le> 2 ^ 63"
  shows "gen_outcome (gen_bind (dart_open_feed (opn x) (int cc) source \<lparr>do_counter = 0, do_carry = [], do_saw = False\<rparr>)
      (dart_open_end (opn x) TAG_LEN)) = stream_open (dec x) cc (concat source)"
proof -
  have same: "open_list (opened (opn x)) cc c fs = open_list (dec x) cc c fs" if "unat c + length fs \<le> 2 ^ 63" for c fs
    using that
  proof (induction fs arbitrary: c)
    case (Cons f fs)
    have c: "unat c < 2 ^ 63" using Cons.prems by simp
    then have "unat (c + 1) = unat c + 1" by (simp add: unat_word_ariths)
    then have "open_list (opened (opn x)) cc (c + 1) fs = open_list (dec x) cc (c + 1) fs"
      using Cons.prems by (intro Cons.IH) simp
    with c show ?case
      by (cases "length f < TAG_LEN") (auto simp: agrees [OF q] not_less Let_def split: option.split)
  qed simp
  have "opens_as (opn x)" using failed [OF q] by (auto simp: opens_as_def)
  from dart_open_run [OF this cc, of "\<lparr>do_counter = 0, do_carry = [], do_saw = False\<rparr>" source]
  show ?thesis using few by (simp add: stream_open_def same)
qed

end

section \<open>The native backend\<close>

text \<open>\<open>_aead\<close> of \<open>native_backend.dart\<close>, over the verdict the C call delivers.\<close>

definition native_aead :: "string \<Rightarrow> nat \<Rightarrow> bytes verdict \<Rightarrow> dart_exn + bytes" where
  "native_aead op outBytes v = (case v of
       Produce b \<Rightarrow> if outBytes < length b then Inl (throw_status op BufferTooSmall) else Inr b
     | Refuse st \<Rightarrow> Inl (throw_status op st)
     | Blow p \<Rightarrow> Inl (throw_status op Internal))"

definition native_backend :: "'k aead_lib \<Rightarrow> dart_backend" where
  "native_backend L =
    \<lparr>aeadSeal = (\<lambda>alg key nonce plaintext aad.
       native_aead ''AEAD seal'' (length plaintext + tagBytes alg)
         (aead_seal_spec L (alg_id alg) key nonce aad plaintext)),
     aeadOpen = (\<lambda>alg key nonce ciphertext aad.
       native_aead ''AEAD open''
         (if length ciphertext \<ge> tagBytes alg then length ciphertext - tagBytes alg else 0)
         (aead_open_spec L (alg_id alg) key nonce aad ciphertext))\<rparr>"

definition native_lawful :: "'k aead_lib \<times> 'k \<times> aead_algorithm \<times> bytes \<times> bytes \<Rightarrow> nat \<Rightarrow> bool" where
  "native_lawful = (\<lambda>(L, kk, alg, key, ad) n. aead_correct L n \<and> unbound_key_new L alg key = ExtOk kk)"

definition native_quiet :: "'k aead_lib \<times> 'k \<times> aead_algorithm \<times> bytes \<times> bytes \<Rightarrow> bool" where
  "native_quiet = (\<lambda>(L, kk, alg, key, ad).
     aead_quiet L \<and> open_shortens L \<and> unbound_key_new L alg key = ExtOk kk)"

lemma length_dart_nonce [simp]: "length (dart_nonce c l 12) = 12"
  by (simp add: dart_nonce_def)

lemma native_seal_frame:
  assumes "native_lawful (L, kk, alg, key, ad) n" "length p \<le> n"
  shows "\<exists>f. dart_seal_frame (native_backend L) key alg ad c l p = Inr f \<and>
    (unat c < 2 ^ 63 \<longrightarrow> f = frame_enc L kk ad c l p)"
proof -
  have cor: "aead_correct L n" and key: "unbound_key_new L alg key = ExtOk kk"
    using assms(1) by (simp_all add: native_lawful_def)
  obtain f where f: "seal_append_tag L kk (dart_nonce c l 12) ad p = ExtOk f" "length f = length p + 16"
    and n: "nonce_new L (dart_nonce c l 12) = ExtOk (dart_nonce c l 12)"
    by (rule aead_correct_seal [OF cor length_dart_nonce assms(2)])
  then have "dart_seal_frame (native_backend L) key alg ad c l p = Inr f"
    by (simp add: dart_seal_frame_def native_backend_def native_aead_def aead_seal_spec_def on_ext_def key)
  moreover have "f = frame_enc L kk ad c l p" if "unat c < 2 ^ 63"
    using f n dart_nonce_native [OF that] by (simp add: frame_enc_def frame_seal_def)
  ultimately show ?thesis by blast
qed

lemma native_open_frame:
  assumes "native_quiet (L, kk, alg, key, ad)" "TAG_LEN \<le> length f"
  shows "dart_open_frame (native_backend L) key alg ad c l f =
    (case open_in_place L kk (dart_nonce c l 12) ad f of
       ExtOk p \<Rightarrow> Inr p | _ \<Rightarrow> Inl (throw_status ''AEAD open'' AuthFailed))"
proof -
  have q: "aead_quiet L" "open_shortens L" and key: "unbound_key_new L alg key = ExtOk kk"
    using assms(1) by (simp_all add: native_quiet_def)
  have "nonce_new L (dart_nonce c l 12) = ExtOk (dart_nonce c l 12)"
    using q(1) by (simp add: aead_quiet_def)
  moreover have "length p + 16 \<le> length f" if "open_in_place L kk (dart_nonce c l 12) ad f = ExtOk p" for p
    using q(2) that unfolding open_shortens_def by blast
  ultimately show ?thesis
    using q(1) assms(2)
    by (cases "open_in_place L kk (dart_nonce c l 12) ad f")
       (auto simp: dart_open_frame_def native_backend_def native_aead_def aead_open_spec_def on_ext_def key
          TAG_LEN_def aead_quiet_def open_shortens_def)
qed

interpretation native: frame_backend
  "\<lambda>(L, kk, alg, key, ad). dart_seal_frame (native_backend L) key alg ad"
  "\<lambda>(L, kk, alg, key, ad). dart_open_frame (native_backend L) key alg ad"
  "\<lambda>(L, kk, alg, key, ad). frame_enc L kk ad" "\<lambda>(L, kk, alg, key, ad). frame_dec L kk ad"
  native_lawful native_quiet
proof (unfold_locales, goal_cases)
  case (1 x n p c l)
  then show ?case by (cases x) (auto dest!: native_seal_frame)
next
  case (2 x f c l e)
  then show ?case
    by (cases x) (auto simp: native_open_frame split: ext.splits)
next
  case (3 x f c l)
  then show ?case
    by (cases x) (auto simp: native_open_frame opened_def frame_dec_def dart_nonce_native native_quiet_def
        aead_quiet_def split: ext.splits)
qed


text \<open>The two generators where the chunk size is positive and small enough.\<close>

lemma dart_stream_seal_unfold:
  assumes "chunk \<noteq> 0" "unat chunk < 2 ^ 63"
  shows "dart_stream_seal B key alg (Some ad) chunk source =
    gen_bind (dart_seal_feed (dart_seal_frame B key alg ad) (unat chunk) source
      \<lparr>ds_counter = 0, ds_pending = None, ds_carry = []\<rparr>) (dart_seal_end (dart_seal_frame B key alg ad))"
proof -
  have "0 < unat chunk" using assms(1) by (simp add: unat_gt_0)
  then have "\<not> sint chunk \<le> 0" "nat (sint chunk) = unat chunk"
    unfolding sint_nonneg [OF assms(2)] by linarith+
  then show ?thesis by (simp add: dart_stream_seal_def Let_def)
qed

lemma dart_stream_open_unfold:
  assumes "chunk \<noteq> 0" "unat chunk + TAG_LEN < 2 ^ 63"
  shows "dart_stream_open B key alg (Some ad) chunk source =
    gen_bind (dart_open_feed (dart_open_frame B key alg ad) (int (unat chunk + TAG_LEN)) source
      \<lparr>do_counter = 0, do_carry = [], do_saw = False\<rparr>) (dart_open_end (dart_open_frame B key alg ad) TAG_LEN)"
proof -
  have n: "0 < unat chunk" using assms(1) by (simp add: unat_gt_0)
  have small: "unat chunk < 2 ^ 63" "unat (chunk + 16) = unat chunk + 16"
    using assms(2) by (simp_all add: TAG_LEN_def unat_word_ariths)
  then have cc: "sint (chunk + of_nat TAG_LEN) = int (unat chunk + TAG_LEN)"
    using assms(2) sint_nonneg [of "chunk + 16"] by (simp only: TAG_LEN_def of_nat_numeral)
  have "\<not> sint chunk \<le> 0"
    unfolding sint_nonneg [OF small(1)] using n by linarith
  then show ?thesis by (simp add: dart_stream_open_def Let_def cc TAG_LEN_def [symmetric] del: of_nat_add)
qed

text \<open>The two streams on the native backend, for any way the source is cut into events.\<close>

lemma dart_stream_seal_run:
  assumes "aead_correct L (unat chunk)" "unbound_key_new L alg key = ExtOk kk"
    and chunk: "chunk \<noteq> 0" "unat chunk < 2 ^ 63"
    and few: "length (plain_frames (unat chunk) (concat source)) \<le> 2 ^ 63"
  shows "dart_stream_seal (native_backend L) key alg (Some ad) chunk source =
    (seal_list (frame_enc L kk ad) 0 (plain_frames (unat chunk) (concat source)), Inr ())"
proof -
  have "0 < unat chunk" using chunk(1) by (simp add: unat_gt_0)
  moreover have "native_lawful (L, kk, alg, key, ad) (unat chunk)" using assms(1,2) by (simp add: native_lawful_def)
  ultimately show ?thesis
    using native.seal_run [of "(L, kk, alg, key, ad)"] few by (simp add: dart_stream_seal_unfold [OF chunk])
qed

lemma dart_stream_open_run:
  assumes "aead_quiet L" "open_shortens L" "unbound_key_new L alg key = ExtOk kk"
    and chunk: "chunk \<noteq> 0" "unat chunk + TAG_LEN < 2 ^ 63"
    and few: "length (blocks (unat chunk + TAG_LEN) (concat source)) \<le> 2 ^ 63"
  shows "gen_outcome (dart_stream_open (native_backend L) key alg (Some ad) chunk source) =
    stream_open (frame_dec L kk ad) (unat chunk + TAG_LEN) (concat source)"
proof -
  have "native_quiet (L, kk, alg, key, ad)" using assms(1-3) by (simp add: native_quiet_def)
  from native.open_run [OF this _ few] show ?thesis by (simp add: dart_stream_open_unfold [OF chunk])
qed

lemma length_blocks: "0 < n \<Longrightarrow> length (blocks n xs) \<le> length xs"
proof (induction n xs rule: blocks.induct)
  case (1 n xs)
  show ?case
  proof (cases "xs = []")
    case False
    have "length (blocks n (drop n xs)) \<le> length (drop n xs)" using 1 False by blast
    then show ?thesis using "1.prems" False by (simp add: blocks_step) (cases xs; simp)
  qed simp
qed


section \<open>Progress\<close>

text \<open>
  What the two generators have handed out after a part of their source, and what they hold
  back until they know whether it is the last frame.
\<close>

definition held_back :: "dart_seal_state \<Rightarrow> bytes" where
  "held_back st = (case ds_pending st of None \<Rightarrow> [] | Some p \<Rightarrow> p) @ ds_carry st"

lemma dart_seal_feed_append:
  "dart_seal_feed sf n (xs @ ys) st = gen_bind (dart_seal_feed sf n xs st) (dart_seal_feed sf n ys)"
  by (induction sf n xs st rule: dart_seal_feed.induct)
     (simp_all add: Let_def gen_bind_bind split_beta' cong: gen_cong)

lemma dart_open_feed_append:
  "dart_open_feed opn cc (xs @ ys) st = gen_bind (dart_open_feed opn cc xs st) (dart_open_feed opn cc ys)"
  by (induction opn cc xs st rule: dart_open_feed.induct)
     (simp_all add: Let_def gen_bind_bind split_beta' cong: gen_cong)

lemma length_lead [simp]: "length (lead enc c fs) = length fs"
  by (induction fs arbitrary: c) simp_all

lemma length_full: "all_full n fs \<Longrightarrow> length (concat fs) = length fs * n"
  by (induction fs) simp_all

lemma dart_seal_progress:
  assumes sf: "seals_as sf enc n" and n: "0 < n"
  shows "\<exists>ys st. dart_seal_feed sf n source \<lparr>ds_counter = 0, ds_pending = None, ds_carry = []\<rparr> = (ys, Inr st) \<and>
    length ys = length (concat source) div n - 1 \<and> length (held_back st) < 2 * n \<and>
    length (held_back st) + n * length ys = length (concat source)"
proof -
  have init: "\<lparr>ds_counter = 0, ds_pending = None, ds_carry = []\<rparr> = seal_state [] []"
    by (simp add: seal_state_def)
  obtain ys gs r where feed: "dart_seal_feed sf n source (seal_state [] []) = (ys, Inr (seal_state gs r))"
    and ys: "lead enc 0 (butlast gs) = ys" and gs: "concat gs @ r = concat source" "all_full n gs" "length r < n"
    using dart_seal_feed_run [OF sf n, of "[]" "[]" source] n by auto
  have total: "length (concat source) = length gs * n + length r"
    using gs(1) length_full [OF gs(2)] by (metis length_append)
  then have "length (concat source) div n = length gs" using n gs(3) by simp
  moreover have "length ys = length gs - 1" by (simp flip: ys)
  moreover have "length (held_back (seal_state gs r)) = (if gs = [] then 0 else n) + length r"
    using all_full_last [OF gs(2)] by (simp add: held_back_def seal_state_def)
  moreover have "(length gs - 1) * n + n = length gs * n" if "gs \<noteq> []"
    using that by (cases gs) simp_all
  ultimately show ?thesis
    unfolding init using feed total gs(3) n by (auto simp: mult.commute)
qed

lemma dart_open_loop_count:
  assumes "0 < cc"
  shows "case dart_open_loop opn (int cc) combined off c of
      (ys, Inl e) \<Rightarrow> True
    | (ys, Inr (off', c')) \<Rightarrow> length (drop off combined) = length ys * cc + length (drop off' combined) \<and>
        length (drop off' combined) \<le> cc \<and> (drop off combined \<noteq> [] \<longrightarrow> drop off' combined \<noteq> [])"
proof (induction "length combined - off" arbitrary: off c rule: less_induct)
  case less
  show ?case
  proof (cases "cc < length combined - off")
    case False
    then show ?thesis by (simp add: dart_open_loop.simps [of opn "int cc" combined off] gen_ret_def)
  next
    case True
    let ?r = "dart_open_loop opn (int cc) combined (off + cc) (c + 1)"
    have IH: "case ?r of (ys, Inl e) \<Rightarrow> True
      | (ys, Inr (off', c')) \<Rightarrow> length (drop (off + cc) combined) = length ys * cc + length (drop off' combined) \<and>
          length (drop off' combined) \<le> cc \<and> (drop (off + cc) combined \<noteq> [] \<longrightarrow> drop off' combined \<noteq> [])"
      using True assms by (intro less.hyps) linarith
    show ?thesis
      using True assms IH
      by (cases "opn c False (take cc (drop off combined))"; cases ?r)
         (auto simp: dart_open_loop.simps [of opn "int cc" combined off] gen_bind_def gen_yield_def split: sum.splits)
  qed
qed

lemma dart_open_feed_count:
  assumes "0 < cc" "length (do_carry st) \<le> cc"
  shows "case dart_open_feed opn (int cc) source st of
      (ys, Inl e) \<Rightarrow> True
    | (ys, Inr st') \<Rightarrow> length (do_carry st) + length (concat source) = length ys * cc + length (do_carry st') \<and>
        length (do_carry st') \<le> cc \<and> (do_carry st @ concat source \<noteq> [] \<longrightarrow> do_carry st' \<noteq> [])"
  using assms(2)
proof (induction source arbitrary: st)
  case Nil
  then show ?case by (simp add: gen_ret_def)
next
  case (Cons data source)
  let ?comb = "do_carry st @ data"
  obtain ys r where loop: "dart_open_loop opn (int cc) ?comb 0 (do_counter st) = (ys, r)" by force
  show ?case
  proof (cases r)
    case (Inl e)
    then show ?thesis using loop by (simp add: Let_def gen_bind_def)
  next
    case (Inr x)
    obtain off c where x: "x = (off, c)" by force
    let ?st = "\<lparr>do_counter = c, do_carry = drop off ?comb, do_saw = do_saw st \<or> data \<noteq> []\<rparr>"
    have l: "length ?comb = length ys * cc + length (drop off ?comb)" "length (do_carry ?st) \<le> cc"
      "?comb \<noteq> [] \<longrightarrow> do_carry ?st \<noteq> []"
      using dart_open_loop_count [OF assms(1), where opn = opn and combined = ?comb and off = 0 and c = "do_counter st"] loop Inr x
      by (auto simp del: drop_append length_drop)
    obtain zs r' where feed: "dart_open_feed opn (int cc) source ?st = (zs, r')" by force
    have "dart_open_feed opn (int cc) (data # source) st = (ys @ zs, r')"
      using loop Inr x feed by (simp add: Let_def gen_bind_Inr del: drop_append)
    then show ?thesis
      using Cons.IH [OF l(2)] l feed
      by (cases r') (auto simp: add_mult_distrib simp del: drop_append length_drop)
  qed
qed

lemma dart_open_progress:
  assumes "0 < cc" "dart_open_feed opn (int cc) source \<lparr>do_counter = 0, do_carry = [], do_saw = False\<rparr> = (ys, Inr st)"
  shows "length ys = (length (concat source) - 1) div cc" "length (do_carry st) \<le> cc"
    "length (do_carry st) + cc * length ys = length (concat source)"
proof -
  have c: "length (concat source) = length ys * cc + length (do_carry st)" "length (do_carry st) \<le> cc"
    "concat source \<noteq> [] \<longrightarrow> do_carry st \<noteq> []"
    using dart_open_feed_count [OF assms(1), where st = "\<lparr>do_counter = 0, do_carry = [], do_saw = False\<rparr>" and opn = opn and source = source] assms(2) by simp_all
  show "length ys = (length (concat source) - 1) div cc"
  proof (cases "concat source = []")
    case True
    then show ?thesis using c assms(1) by (metis add_is_0 diff_0_eq_0 div_0 length_0_conv mult_is_0 nat_neq_iff)
  next
    case False
    then have "length (concat source) - 1 = (length (do_carry st) - 1) + length ys * cc"
      using c by (cases "do_carry st") auto
    then show ?thesis using c(2) False c(3) assms(1) by (cases "do_carry st") simp_all
  qed
  show "length (do_carry st) \<le> cc" "length (do_carry st) + cc * length ys = length (concat source)"
    using c by (simp_all add: mult.commute)
qed

text \<open>On the native backend sealing throws nothing.\<close>

lemma native_seals_as:
  assumes "aead_correct L n" "unbound_key_new L alg key = ExtOk kk"
  shows "\<exists>enc. seals_as (dart_seal_frame (native_backend L) key alg ad) enc n"
proof -
  have law: "native_lawful (L, kk, alg, key, ad) n" using assms by (simp add: native_lawful_def)
  have "seals_as (dart_seal_frame (native_backend L) key alg ad)
      (\<lambda>c l p. projr (dart_seal_frame (native_backend L) key alg ad c l p)) n"
    unfolding seals_as_def
  proof (intro allI impI)
    fix c l and p :: bytes assume "length p \<le> n"
    from native_seal_frame [OF law this, of c l]
    show "dart_seal_frame (native_backend L) key alg ad c l p =
        Inr (projr (dart_seal_frame (native_backend L) key alg ad c l p))" by auto
  qed
  then show ?thesis by blast
qed

end
