(* ===== verification/Dart_Native.thy ===== *)
theory Dart_Native
  imports Ffi_Caller Dart_Stream Kem Sign Classical Abi
begin

text \<open>
  \<open>lib/src/backend/native_backend.dart\<close>: the Dart side of the C-ABI. Every operation copies its
  arguments into native memory, calls one function of the core with output buffers of the
  sizes it expects, turns the status into an exception and copies the outputs back. A
  \<open>Uint8List\<close> is its bytes; the allocations of \<open>calloc\<close> succeed.
\<close>

section \<open>Parameters from the package \<open>pqforge\<close>\<close>

text \<open>The values of the enums \<open>PqKemAlgorithm\<close> and \<open>PqSignatureAlgorithm\<close>: their getters.\<close>

record pq_kem =
  kem_index :: nat
  kem_publicKeyBytes :: nat
  kem_secretKeyBytes :: nat
  kem_ciphertextBytes :: nat
  kem_sharedSecretBytes :: nat

record pq_sig =
  sig_index :: nat
  sig_publicKeyBytes :: nat
  sig_secretKeyBytes :: nat
  sig_signatureBytes :: nat

datatype backend_kind = NativeKind | FallbackKind

section \<open>Marshalling\<close>

text \<open>What \<open>_toNative\<close> places in memory: one zero byte for an empty list.\<close>

definition to_native :: "bytes \<Rightarrow> bytes" where
  "to_native data = (if data = [] then [0] else data)"

text \<open>\<open>Uint8List.fromList(p.asTypedList(n))\<close>; reading beyond the buffer is undefined.\<close>

definition as_typed_list :: "bytes \<Rightarrow> usize \<Rightarrow> bytes dart ffi" where
  "as_typed_list buf n = (if unat n \<le> length buf then dart_return (take (unat n) buf) else undefined_behaviour)"

definition check_status :: "string \<Rightarrow> c_int \<Rightarrow> unit dart ffi" where
  "check_status op rc = (if rc \<noteq> code Ok then dart_throw (throw_code op rc) else dart_return ())"

definition one_result :: "string \<Rightarrow> c_int \<times> bytes \<times> usize \<Rightarrow> bytes dart ffi" where
  "one_result op = (\<lambda>(rc, out, ol). dart_bind (check_status op rc) (\<lambda>_. as_typed_list out ol))"

definition two_results ::
  "string \<Rightarrow> c_int \<times> (bytes \<times> usize) \<times> (bytes \<times> usize) \<Rightarrow> (bytes \<times> bytes) dart ffi" where
  "two_results op = (\<lambda>(rc, (pub, pl), (sec, sl)).
     dart_bind (check_status op rc) (\<lambda>_.
     dart_bind (as_typed_list pub pl) (\<lambda>p.
     dart_bind (as_typed_list sec sl) (\<lambda>s. dart_return (p, s)))))"

type_synonym keygen_fn = "c_int \<Rightarrow> addr \<Rightarrow> usize \<Rightarrow> addr \<Rightarrow> addr \<Rightarrow> usize \<Rightarrow> addr \<Rightarrow> (world, c_int) comp"
type_synonym classical_keygen_fn =
  "addr \<Rightarrow> usize \<Rightarrow> addr \<Rightarrow> usize \<Rightarrow> addr \<Rightarrow> addr \<Rightarrow> usize \<Rightarrow> addr \<Rightarrow> (world, c_int) comp"
type_synonym two_in_fn =
  "addr \<Rightarrow> usize \<Rightarrow> addr \<Rightarrow> usize \<Rightarrow> addr \<Rightarrow> usize \<Rightarrow> addr \<Rightarrow> (world, c_int) comp"
type_synonym aead_fn = "c_int \<Rightarrow> addr \<Rightarrow> usize \<Rightarrow> addr \<Rightarrow> usize \<Rightarrow> addr \<Rightarrow> usize \<Rightarrow> addr \<Rightarrow> usize
    \<Rightarrow> addr \<Rightarrow> usize \<Rightarrow> addr \<Rightarrow> (world, c_int) comp"

text \<open>\<open>_keygen\<close>, \<open>_twoInOneOut\<close>, \<open>_classicalKeygen\<close>, \<open>_classicalTwoInOneOut\<close>, \<open>_aead\<close>.\<close>

definition keygen_via :: "keygen_fn \<Rightarrow> c_int \<Rightarrow> nat \<Rightarrow> nat \<Rightarrow> string \<Rightarrow> (bytes \<times> bytes) dart ffi" where
  "keygen_via fn algId pubBytes secBytes op =
    freeing (bind_comp (call2 [] pubBytes secBytes
      (\<lambda>_ pub pub_cap pl sec sec_cap sl. fn algId pub pub_cap pl sec sec_cap sl)) (two_results op))"

definition two_in_one_out_via ::
  "(c_int \<Rightarrow> two_in_fn) \<Rightarrow> c_int \<Rightarrow> bytes \<Rightarrow> bytes \<Rightarrow> nat \<Rightarrow> string \<Rightarrow> bytes dart ffi" where
  "two_in_one_out_via fn algId inA inB outBytes op =
    freeing (bind_comp (call1 [to_native inA, to_native inB] outBytes (\<lambda>ps out cap ol.
      fn algId (ps ! 0) (of_nat (length inA)) (ps ! 1) (of_nat (length inB)) out cap ol)) (one_result op))"

definition classical_keygen_via ::
  "classical_keygen_fn \<Rightarrow> bytes option \<Rightarrow> nat \<Rightarrow> nat \<Rightarrow> string \<Rightarrow> (bytes \<times> bytes) dart ffi" where
  "classical_keygen_via fn seed pubBytes secBytes op =
    freeing (bind_comp (call2 (case seed of None \<Rightarrow> [] | Some s \<Rightarrow> [to_native s]) pubBytes secBytes
      (\<lambda>ps pub pub_cap pl sec sec_cap sl.
        fn (case seed of None \<Rightarrow> 0 | Some _ \<Rightarrow> ps ! 0) (case seed of None \<Rightarrow> 0 | Some s \<Rightarrow> of_nat (length s))
          pub pub_cap pl sec sec_cap sl)) (two_results op))"

definition classical_two_in_one_out_via ::
  "two_in_fn \<Rightarrow> bytes \<Rightarrow> bytes \<Rightarrow> nat \<Rightarrow> string \<Rightarrow> bytes dart ffi" where
  "classical_two_in_one_out_via fn inA inB outBytes op =
    freeing (bind_comp (call1 [to_native inA, to_native inB] outBytes (\<lambda>ps out cap ol.
      fn (ps ! 0) (of_nat (length inA)) (ps ! 1) (of_nat (length inB)) out cap ol)) (one_result op))"

definition aead_via ::
  "aead_fn \<Rightarrow> c_int \<Rightarrow> bytes \<Rightarrow> bytes \<Rightarrow> bytes \<Rightarrow> bytes \<Rightarrow> nat \<Rightarrow> string \<Rightarrow> bytes dart ffi" where
  "aead_via fn algId key nonce aad input outBytes op =
    freeing (bind_comp (call1 [to_native key, to_native nonce, to_native aad, to_native input]
        (if outBytes = 0 then 1 else outBytes) (\<lambda>ps out _ ol.
      fn algId (ps ! 0) (of_nat (length key)) (ps ! 1) (of_nat (length nonce)) (ps ! 2) (of_nat (length aad))
        (ps ! 3) (of_nat (length input)) out (of_nat outBytes) ol)) (one_result op))"

section \<open>Operations\<close>

subsection \<open>ML-KEM\<close>

definition native_kemGenerate :: "('dk, 'ek) kem_lib \<Rightarrow> pq_kem \<Rightarrow> (bytes \<times> bytes) dart ffi" where
  "native_kemGenerate L a = keygen_via (pqforge_mlkem_keygen L) (of_nat (kem_index a))
     (kem_publicKeyBytes a) (kem_secretKeyBytes a) ''ML-KEM keygen''"

definition native_kemEncapsulate :: "('dk, 'ek) kem_lib \<Rightarrow> pq_kem \<Rightarrow> bytes \<Rightarrow> (bytes \<times> bytes) dart ffi" where
  "native_kemEncapsulate L a publicKey =
    freeing (bind_comp (call2 [to_native publicKey] (kem_ciphertextBytes a) (kem_sharedSecretBytes a)
      (\<lambda>ps ct ct_cap cl ss ss_cap sl.
        pqforge_mlkem_encapsulate L (of_nat (kem_index a)) (ps ! 0) (of_nat (length publicKey))
          ct ct_cap cl ss ss_cap sl)) (two_results ''ML-KEM encapsulate''))"

definition native_kemDecapsulate :: "('dk, 'ek) kem_lib \<Rightarrow> pq_kem \<Rightarrow> bytes \<Rightarrow> bytes \<Rightarrow> bytes dart ffi" where
  "native_kemDecapsulate L a secretKey ciphertext =
    two_in_one_out_via (pqforge_mlkem_decapsulate L) (of_nat (kem_index a)) secretKey ciphertext
      (kem_sharedSecretBytes a) ''ML-KEM decapsulate''"

subsection \<open>ML-DSA\<close>

definition native_signGenerate :: "'kp dsa_lib \<Rightarrow> pq_sig \<Rightarrow> (bytes \<times> bytes) dart ffi" where
  "native_signGenerate L a = keygen_via (pqforge_mldsa_keygen L) (of_nat (sig_index a))
     (sig_publicKeyBytes a) (sig_secretKeyBytes a) ''ML-DSA keygen''"

definition native_signGenerateFromSeed :: "'kp dsa_lib \<Rightarrow> pq_sig \<Rightarrow> bytes \<Rightarrow> (bytes \<times> bytes) dart ffi" where
  "native_signGenerateFromSeed L a seed =
    freeing (bind_comp (call2 [to_native seed] (sig_publicKeyBytes a) (sig_secretKeyBytes a)
      (\<lambda>ps pub pub_cap pl sec sec_cap sl.
        pqforge_mldsa_keygen_from_seed L (of_nat (sig_index a)) (ps ! 0) (of_nat (length seed))
          pub pub_cap pl sec sec_cap sl)) (two_results ''ML-DSA keygen from seed''))"

definition native_sign :: "'kp dsa_lib \<Rightarrow> pq_sig \<Rightarrow> bytes \<Rightarrow> bytes \<Rightarrow> bytes dart ffi" where
  "native_sign L a secretKey message =
    two_in_one_out_via (pqforge_mldsa_sign L) (of_nat (sig_index a)) secretKey message
      (sig_signatureBytes a) ''ML-DSA sign''"

definition native_verify :: "'kp dsa_lib \<Rightarrow> pq_sig \<Rightarrow> bytes \<Rightarrow> bytes \<Rightarrow> bytes \<Rightarrow> bool ffi" where
  "native_verify L a publicKey message signature =
    freeing (bind_comp (call0 [to_native publicKey, to_native message, to_native signature] (\<lambda>ps.
        pqforge_mldsa_verify L (of_nat (sig_index a)) (ps ! 0) (of_nat (length publicKey))
          (ps ! 1) (of_nat (length message)) (ps ! 2) (of_nat (length signature))))
      (\<lambda>rc. ret (rc = code Ok)))"

subsection \<open>AEAD\<close>

definition native_aeadSeal ::
  "'k aead_lib \<Rightarrow> aead_algorithm \<Rightarrow> bytes \<Rightarrow> bytes \<Rightarrow> bytes \<Rightarrow> bytes \<Rightarrow> bytes dart ffi" where
  "native_aeadSeal L alg key nonce plaintext aad =
    aead_via (pqforge_aead_seal L) (alg_id alg) key nonce aad plaintext
      (length plaintext + tagBytes alg) ''AEAD seal''"

definition native_aeadOpen ::
  "'k aead_lib \<Rightarrow> aead_algorithm \<Rightarrow> bytes \<Rightarrow> bytes \<Rightarrow> bytes \<Rightarrow> bytes \<Rightarrow> bytes dart ffi" where
  "native_aeadOpen L alg key nonce ciphertext aad =
    aead_via (pqforge_aead_open L) (alg_id alg) key nonce aad ciphertext
      (if length ciphertext \<ge> tagBytes alg then length ciphertext - tagBytes alg else 0) ''AEAD open''"

subsection \<open>X25519 and Ed25519\<close>

definition native_x25519Generate :: "('xk, 'ek) classical_lib \<Rightarrow> bytes option \<Rightarrow> (bytes \<times> bytes) dart ffi" where
  "native_x25519Generate L seed = classical_keygen_via (pqforge_x25519_keygen L) seed 32 32 ''X25519 keygen''"

definition native_x25519SharedSecret :: "('xk, 'ek) classical_lib \<Rightarrow> bytes \<Rightarrow> bytes \<Rightarrow> bytes dart ffi" where
  "native_x25519SharedSecret L secretKey remotePublicKey =
    classical_two_in_one_out_via (pqforge_x25519_ecdh L) secretKey remotePublicKey 32 ''X25519 ECDH''"

definition native_ed25519Generate :: "('xk, 'ek) classical_lib \<Rightarrow> bytes option \<Rightarrow> (bytes \<times> bytes) dart ffi" where
  "native_ed25519Generate L seed = classical_keygen_via (pqforge_ed25519_keygen L) seed 32 32 ''Ed25519 keygen''"

definition native_ed25519PublicFromSeed :: "('xk, 'ek) classical_lib \<Rightarrow> bytes \<Rightarrow> bytes dart ffi" where
  "native_ed25519PublicFromSeed L seed =
    freeing (bind_comp (call1 [to_native seed] 32 (\<lambda>ps pub cap pl.
      pqforge_ed25519_public_from_seed L (ps ! 0) (of_nat (length seed)) pub cap pl))
      (one_result ''Ed25519 public from seed''))"

definition native_ed25519Sign :: "('xk, 'ek) classical_lib \<Rightarrow> bytes \<Rightarrow> bytes \<Rightarrow> bytes dart ffi" where
  "native_ed25519Sign L seed message =
    classical_two_in_one_out_via (pqforge_ed25519_sign L) seed message 64 ''Ed25519 sign''"

definition native_ed25519Verify :: "('xk, 'ek) classical_lib \<Rightarrow> bytes \<Rightarrow> bytes \<Rightarrow> bytes \<Rightarrow> bool ffi" where
  "native_ed25519Verify L publicKey message signature =
    freeing (bind_comp (call0 [to_native publicKey, to_native message, to_native signature] (\<lambda>ps.
        pqforge_ed25519_verify L (ps ! 0) (of_nat (length publicKey))
          (ps ! 1) (of_nat (length message)) (ps ! 2) (of_nat (length signature))))
      (\<lambda>rc. ret (rc = code Ok)))"

section \<open>What a call returns to Dart\<close>

text \<open>The exception or the value a verdict becomes; \<open>native_aead\<close> is the one for a single output.\<close>

definition native_pair :: "string \<Rightarrow> nat \<Rightarrow> nat \<Rightarrow> (bytes \<times> bytes) verdict \<Rightarrow> (bytes \<times> bytes) dart" where
  "native_pair op n m v = (case v of
       Produce (x, y) \<Rightarrow> if length x \<le> n \<and> length y \<le> m then Inr (x, y) else Inl (throw_status op BufferTooSmall)
     | Refuse st \<Rightarrow> Inl (throw_status op st)
     | Blow p \<Rightarrow> Inl (throw_status op Internal))"

lemma check_status_code:
  "check_status op (code Ok) = ret (Inr ())" "st \<noteq> Ok \<Longrightarrow> check_status op (code st) = ret (Inl (throw_status op st))"
  by (simp_all only: check_status_def throw_code code_inj simp_thms if_True if_False dart_return_def dart_throw_def)

lemma as_typed_list_prefix:
  assumes "take cap buf = bs @ zs" "length bs \<le> cap" "cap \<le> length buf" "cap \<le> isize_max"
  shows "as_typed_list buf (of_nat (length bs)) = ret (Inr bs)"
proof -
  have "take (length bs) (take cap buf) = bs" using assms(1) by simp
  then have "take (length bs) buf = bs" using assms(2) by (simp add: min_def)
  moreover have "unat (of_nat (length bs) :: usize) = length bs" using assms(2,4) by (intro unat_isize) simp
  ultimately show ?thesis using assms(2,3) by (simp add: as_typed_list_def dart_return_def)
qed

lemma one_result_seen:
  assumes "v \<noteq> Refuse Ok" "take cap buf = fst (snd (seen1 cap v))" "cap \<le> length buf" "cap \<le> isize_max"
  shows "one_result op (fst (seen1 cap v), buf, snd (snd (seen1 cap v))) = ret (native_aead op cap v)"
proof (cases v)
  case (Produce bs)
  have "as_typed_list buf (of_nat (length bs)) = ret (Inr bs)" if "length bs \<le> cap"
    using assms(2-4) that Produce by (intro as_typed_list_prefix) (simp_all add: seen1_def)
  then show ?thesis
    by (intro HOL.ext) (simp add: Produce one_result_def seen1_def check_status_code native_aead_def del: code.simps)
qed (use assms(1) in \<open>auto simp: one_result_def seen1_def check_status_code native_aead_def simp del: code.simps\<close>)

lemma two_results_seen:
  assumes "v \<noteq> Refuse Ok" "n \<le> isize_max" "m \<le> isize_max"
  shows "two_results op (seen2 n m v) = ret (native_pair op n m v)"
proof (cases v)
  case (Produce x)
  obtain a b where x: "x = (a, b)" by force
  have "as_typed_list (bs @ replicate (c - length bs) 0) (of_nat (length bs)) = ret (Inr bs)"
    if "length bs \<le> c" "c \<le> isize_max" for bs c
    by (rule as_typed_list_prefix [where cap = c and zs = "replicate (c - length bs) 0"]) (use that in simp_all)
  then show ?thesis
    using assms(2,3)
    by (intro HOL.ext) (auto simp: Produce x two_results_def seen2_def seen1_def check_status_code native_pair_def
        simp del: code.simps)
qed (use assms(1) in \<open>auto simp: two_results_def seen2_def check_status_code native_pair_def simp del: code.simps\<close>)

lemma yields_one:
  assumes "t_ok s" "short ins" "cap \<le> room" "room \<le> isize_max" "v \<noteq> Refuse Ok"
    and f: "\<And>ps out len w. inputs_at w ps ins \<Longrightarrow> rng w = rng (t_world s) \<Longrightarrow>
      out_ok (mem w) out (of_nat cap) \<Longrightarrow> len_ok (mem w) len \<Longrightarrow>
      f ps out (of_nat room) len w = then_wipe bufs (deliver v out (of_nat cap) len (w\<lparr>rng := g\<rparr>))"
  shows "yields (freeing (bind_comp (call1 ins room f) (one_result op))) s (native_aead op cap v) g"
proof (rule yields_freeing [OF _ assms(1)])
  have "\<exists>buf s'. call1 ins room f s = (Done (fst (seen1 cap v), buf, snd (snd (seen1 cap v))), s') \<and>
    length buf = room \<and> take cap buf = fst (snd (seen1 cap v)) \<and> t_ok s' \<and> rng (t_world s') = g"
    by (rule call1_wide [OF assms(1-4)], intro exI conjI, rule f) simp_all
  then obtain buf s' where c: "call1 ins room f s = (Done (fst (seen1 cap v), buf, snd (snd (seen1 cap v))), s')"
    and b: "length buf = room" "take cap buf = fst (snd (seen1 cap v))" and s': "t_ok s'" "rng (t_world s') = g" by blast
  have "one_result op (fst (seen1 cap v), buf, snd (snd (seen1 cap v))) = ret (native_aead op cap v)"
    by (rule one_result_seen) (use assms b in auto)
  then show "yields (bind_comp (call1 ins room f) (one_result op)) s (native_aead op cap v) g"
    using c s' by (simp add: yields_def run_simps)
qed

lemma yields_two:
  assumes "t_ok s" "short ins" "cap \<le> isize_max" "cap' \<le> isize_max" "v \<noteq> Refuse Ok"
    and f: "\<And>ps o1 l1 o2 l2 w. inputs_at w ps ins \<Longrightarrow> rng w = rng (t_world s) \<Longrightarrow>
      out_ok (mem w) o1 (of_nat cap) \<Longrightarrow> len_ok (mem w) l1 \<Longrightarrow>
      out_ok (mem w) o2 (of_nat cap') \<Longrightarrow> len_ok (mem w) l2 \<Longrightarrow>
      f ps o1 (of_nat cap) l1 o2 (of_nat cap') l2 w =
        then_wipe bufs (deliver_two v o1 (of_nat cap) l1 o2 (of_nat cap') l2 (w\<lparr>rng := g\<rparr>))"
  shows "yields (freeing (bind_comp (call2 ins cap cap' f) (two_results op))) s (native_pair op cap cap' v) g"
proof (rule yields_freeing [OF _ assms(1)], rule yields_bind)
  show "yields (call2 ins cap cap' f) s (seen2 cap cap' v) g"
    by (rule yields_call2 [OF assms(1-4)]) (rule f)
  show "yields (two_results op (seen2 cap cap' v)) s' (native_pair op cap cap' v) g"
    if "t_ok s'" "rng (t_world s') = g" for s'
    using that by (simp add: two_results_seen [OF assms(5,3,4)] yields_ret)
qed

text \<open>The slices the C function receives are the arguments, the empty ones included.\<close>

lemma native_slice:
  assumes "inputs_at w ps (map to_native xs)" "i < length xs"
  shows "slice_at (mem w) (ps ! i) (of_nat (length (xs ! i))) (xs ! i)"
proof -
  have "slice_at (mem w) (ps ! i) (of_nat (length (to_native (xs ! i)))) (to_native (xs ! i))"
    using assms by (simp add: inputs_at_def)
  then show ?thesis by (cases "xs ! i = []") (auto simp: to_native_def slice_at_zero)
qed

lemmas native_slices =
  native_slice [where xs = "[a]" and i = 0 for a, simplified]
  native_slice [where xs = "[a, b]" and i = 0 for a b, simplified]
  native_slice [where xs = "[a, b]" and i = 1 for a b, simplified]
  native_slice [where xs = "[a, b, c]" and i = 0 for a b c, simplified]
  native_slice [where xs = "[a, b, c]" and i = 1 for a b c, simplified]
  native_slice [where xs = "[a, b, c]" and i = 2 for a b c, simplified]
  native_slice [where xs = "[a, b, c, d]" and i = 0 for a b c d, simplified]
  native_slice [where xs = "[a, b, c, d]" and i = 1 for a b c d, simplified]
  native_slice [where xs = "[a, b, c, d]" and i = 2 for a b c d, simplified]
  native_slice [where xs = "[a, b, c, d]" and i = 3 for a b c d, simplified]

lemma short_native [simp]: "length x \<le> isize_max \<Longrightarrow> length (to_native x) \<le> isize_max"
  by (simp add: to_native_def isize_max_def)

text \<open>No verdict refuses with \<open>Ok\<close>.\<close>

lemma on_ext_refuses: "on_ext r st k = Refuse Ok \<Longrightarrow> st \<noteq> Ok \<Longrightarrow> \<exists>x. r = ExtOk x \<and> k x = Refuse Ok"
  by (cases r) (auto simp: on_ext_def)

lemma verdicts_not_ok [simp]:
  "aead_seal_spec A i k n a p \<noteq> Refuse Ok" "aead_open_spec A i k n a p \<noteq> Refuse Ok"
  "mlkem_keygen_spec K ka g \<noteq> Refuse Ok" "mlkem_encapsulate_spec K ka k g \<noteq> Refuse Ok"
  "mlkem_decapsulate_spec K ka k p \<noteq> Refuse Ok"
  "mldsa_keygen_spec S sa g \<noteq> Refuse Ok" "mldsa_from_seed_spec S i k \<noteq> Refuse Ok"
  "mldsa_sign_spec S sa k p g \<noteq> Refuse Ok"
  "x25519_pair C k \<noteq> Refuse Ok" "x25519_shared C k p \<noteq> Refuse Ok" "ed25519_pair C k \<noteq> Refuse Ok"
  "ed25519_public_spec C k \<noteq> Refuse Ok" "ed25519_sign_spec C k p \<noteq> Refuse Ok"
  by (auto simp: aead_seal_spec_def aead_open_spec_def mlkem_keygen_spec_def mlkem_encapsulate_spec_def
      mlkem_decapsulate_spec_def mldsa_keygen_spec_def mldsa_from_seed_spec_def mldsa_sign_spec_def
      exported_pair_def x25519_pair_def x25519_shared_def ed25519_pair_def ed25519_public_spec_def
      ed25519_sign_spec_def dest!: on_ext_refuses split: option.splits sum.splits if_splits)

section \<open>The operations on the native core\<close>

lemma isize_mono: "n + k \<le> isize_max \<Longrightarrow> n \<le> isize_max" "Suc 0 \<le> isize_max" "n \<le> isize_max \<Longrightarrow> n - k \<le> isize_max"
  by (simp_all add: isize_max_def)

subsection \<open>AEAD\<close>

lemma native_aeadSeal_yields:
  assumes "t_ok s" "short [key, nonce, aad]" "length plaintext + 16 \<le> isize_max"
  shows "yields (native_aeadSeal L alg key nonce plaintext aad) s
    (aeadSeal (native_backend L) alg key nonce plaintext aad) (rng (t_world s))"
  unfolding native_aeadSeal_def aead_via_def native_backend_def dart_backend.simps
  by (rule yields_one [OF assms(1), where bufs = "[]"])
     (use assms(2,3) isize_mono(1) [OF assms(3)] in
       \<open>simp_all add: isize_mono(2) aead_seal_delivers native_slices slice_at_input\<close>)

lemma native_aeadOpen_yields:
  assumes "t_ok s" "short [key, nonce, aad, ciphertext]"
  shows "yields (native_aeadOpen L alg key nonce ciphertext aad) s
    (aeadOpen (native_backend L) alg key nonce ciphertext aad) (rng (t_world s))"
  unfolding native_aeadOpen_def aead_via_def native_backend_def dart_backend.simps
  by (rule yields_one [OF assms(1), where bufs = "aead_open_wiped L (alg_id alg) key nonce ciphertext"])
     (use assms(2) in \<open>simp_all add: isize_mono(2,3) aead_open_delivers native_slices slice_at_input\<close>)

subsection \<open>ML-KEM\<close>

definition kem_known :: "pq_kem \<Rightarrow> kem_algorithm \<Rightarrow> bool" where
  "kem_known a alg \<longleftrightarrow> kem_alg (of_nat (kem_index a)) = Some alg \<and>
     list_all (\<lambda>n. n \<le> isize_max)
       [kem_publicKeyBytes a, kem_secretKeyBytes a, kem_ciphertextBytes a, kem_sharedSecretBytes a]"

lemma native_kemGenerate_yields:
  assumes "t_ok s" "kem_known a alg"
  shows "yields (native_kemGenerate L a) s
    (native_pair ''ML-KEM keygen'' (kem_publicKeyBytes a) (kem_secretKeyBytes a) (mlkem_keygen_spec L alg (rng (t_world s))))
    (snd (dk_generate L alg (rng (t_world s))))"
  unfolding native_kemGenerate_def keygen_via_def
  by (rule yields_two [OF assms(1)]) (use assms(2) in \<open>simp_all add: kem_known_def mlkem_keygen_delivers\<close>)

lemma native_kemEncapsulate_yields:
  assumes "t_ok s" "kem_known a alg" "length pk \<le> isize_max"
  shows "yields (native_kemEncapsulate L a pk) s
    (native_pair ''ML-KEM encapsulate'' (kem_ciphertextBytes a) (kem_sharedSecretBytes a)
      (mlkem_encapsulate_spec L alg pk (rng (t_world s))))
    (mlkem_encapsulate_rng L alg pk (rng (t_world s)))"
  unfolding native_kemEncapsulate_def
  by (rule yields_two [OF assms(1)])
     (use assms(2,3) in \<open>simp_all add: kem_known_def mlkem_encapsulate_delivers [OF _ native_slices(1)]\<close>)

lemma native_kemDecapsulate_yields:
  assumes "t_ok s" "kem_known a alg" "short [sk, ct]"
  shows "yields (native_kemDecapsulate L a sk ct) s
    (native_aead ''ML-KEM decapsulate'' (kem_sharedSecretBytes a) (mlkem_decapsulate_spec L alg sk ct)) (rng (t_world s))"
  unfolding native_kemDecapsulate_def two_in_one_out_via_def
  by (rule yields_one [OF assms(1)])
     (use assms(2,3) in \<open>simp_all add: kem_known_def mlkem_decapsulate_delivers [OF _ native_slices(2,3)]\<close>)

subsection \<open>ML-DSA\<close>

definition sig_known :: "pq_sig \<Rightarrow> dsa_algorithm \<Rightarrow> bool" where
  "sig_known a alg \<longleftrightarrow> dsa_alg (of_nat (sig_index a)) = Some alg \<and>
     list_all (\<lambda>n. n \<le> isize_max) [sig_publicKeyBytes a, sig_secretKeyBytes a, sig_signatureBytes a]"

lemma native_signGenerate_yields:
  assumes "t_ok s" "sig_known a alg"
  shows "yields (native_signGenerate L a) s
    (native_pair ''ML-DSA keygen'' (sig_publicKeyBytes a) (sig_secretKeyBytes a) (mldsa_keygen_spec L alg (rng (t_world s))))
    (snd (dsa_generate L alg (rng (t_world s))))"
  unfolding native_signGenerate_def keygen_via_def
  by (rule yields_two [OF assms(1)]) (use assms(2) in \<open>simp_all add: sig_known_def mldsa_keygen_delivers\<close>)

lemma native_signGenerateFromSeed_yields:
  assumes "t_ok s" "sig_known a alg" "length seed \<le> isize_max"
  shows "yields (native_signGenerateFromSeed L a seed) s
    (native_pair ''ML-DSA keygen from seed'' (sig_publicKeyBytes a) (sig_secretKeyBytes a)
      (mldsa_from_seed_spec L (of_nat (sig_index a)) seed)) (rng (t_world s))"
  unfolding native_signGenerateFromSeed_def
  by (rule yields_two [OF assms(1)])
     (use assms(2,3) in \<open>simp_all add: sig_known_def mldsa_from_seed_delivers [OF native_slices(1)]\<close>)

lemma native_sign_yields:
  assumes "t_ok s" "sig_known a alg" "short [sk, msg]"
  shows "yields (native_sign L a sk msg) s
    (native_aead ''ML-DSA sign'' (sig_signatureBytes a) (mldsa_sign_spec L alg sk msg (rng (t_world s))))
    (mldsa_sign_rng L alg sk msg (rng (t_world s)))"
  unfolding native_sign_def two_in_one_out_via_def
  by (rule yields_one [OF assms(1), where bufs = "[]"])
     (use assms(2,3) in \<open>simp_all add: sig_known_def mldsa_sign_delivers [OF _ native_slices(2) slice_at_input [OF native_slices(3)]]\<close>)

text \<open>A verifier is its verdict, and throws in no case.\<close>

lemma yields_verifier:
  assumes "t_ok s" "short [pk, msg, sg]"
    and f: "\<And>ps w. slice_at (mem w) (ps ! 0) (of_nat (length pk)) pk \<Longrightarrow> slice_at (mem w) (ps ! 1) (of_nat (length msg)) msg \<Longrightarrow>
      slice_at (mem w) (ps ! 2) (of_nat (length sg)) sg \<Longrightarrow> \<exists>w'. f ps w = (Done (code st), w') \<and> rng w' = rng w"
  shows "yields (freeing (bind_comp (call0 [to_native pk, to_native msg, to_native sg] f) (\<lambda>rc. ret (rc = code Ok)))) s
    (st = Ok) (rng (t_world s))"
proof (rule yields_freeing [OF _ assms(1)], rule yields_bind)
  show "yields (call0 [to_native pk, to_native msg, to_native sg] f) s (code st) (rng (t_world s))"
  proof (rule yields_call0 [OF assms(1)])
    fix ps and w :: world
    assume i: "inputs_at w ps [to_native pk, to_native msg, to_native sg]" and "rng w = rng (t_world s)"
    then show "\<exists>w'. f ps w = (Done (code st), w') \<and> rng w' = rng (t_world s)"
      using f [of w ps] native_slices(4-6) [OF i] by simp
  qed (use assms(2) in simp)
qed (simp add: yields_def)

lemma native_verify_yields:
  assumes "t_ok s" "short [pk, msg, sg]"
  shows "yields (native_verify L a pk msg sg) s
    (mldsa_verify_spec L (of_nat (sig_index a)) pk msg sg = Ok) (rng (t_world s))"
  unfolding native_verify_def
proof (rule yields_verifier [OF assms])
  fix ps and w :: world
  assume "slice_at (mem w) (ps ! 0) (of_nat (length pk)) pk" "slice_at (mem w) (ps ! 1) (of_nat (length msg)) msg"
    "slice_at (mem w) (ps ! 2) (of_nat (length sg)) sg"
  then show "\<exists>w'. pqforge_mldsa_verify L (of_nat (sig_index a)) (ps ! 0) (of_nat (length pk)) (ps ! 1) (of_nat (length msg))
      (ps ! 2) (of_nat (length sg)) w = (Done (code (mldsa_verify_spec L (of_nat (sig_index a)) pk msg sg)), w') \<and> rng w' = rng w"
    using mldsa_verify_delivers [OF _ slice_at_input] mldsa_verify_rng by metis
qed

subsection \<open>X25519 and Ed25519\<close>

lemma native_x25519Generate_yields:
  assumes "t_ok s" "case seed of None \<Rightarrow> True | Some sd \<Rightarrow> length sd \<le> isize_max"
  shows "yields (native_x25519Generate L seed) s
    (native_pair ''X25519 keygen'' 32 32 (on_ext (drawn L seed (rng (t_world s))) (refused_draw seed) (x25519_pair L)))
    (drawn_rng L seed (rng (t_world s)))"
  unfolding native_x25519Generate_def classical_keygen_via_def
proof (rule yields_two [OF assms(1), where bufs = "[case seed of None \<Rightarrow> after_fill 32 (fst (rand_fill L 32 (rng (t_world s))))
    | Some sd \<Rightarrow> if length sd = 32 then sd else replicate 32 0]"], goal_cases)
  case (5 ps o1 l1 o2 l2 w)
  then show ?case
    by (cases seed)
       (simp_all add: drawn_def drawn_rng_def refused_draw_def is_null_def x25519_keygen_fresh x25519_keygen_seeded [OF native_slices(1)])
qed (use assms(2) in \<open>auto simp: isize_small refused_draw_def dest!: on_ext_refuses split: option.splits\<close>)

lemma native_ed25519Generate_yields:
  assumes "t_ok s" "case seed of None \<Rightarrow> True | Some sd \<Rightarrow> length sd \<le> isize_max"
  shows "yields (native_ed25519Generate L seed) s
    (native_pair ''Ed25519 keygen'' 32 32 (on_ext (drawn L seed (rng (t_world s))) (refused_draw seed) (ed25519_pair L)))
    (drawn_rng L seed (rng (t_world s)))"
  unfolding native_ed25519Generate_def classical_keygen_via_def
proof (rule yields_two [OF assms(1), where bufs = "[case seed of None \<Rightarrow> after_fill 32 (fst (rand_fill L 32 (rng (t_world s))))
    | Some sd \<Rightarrow> if length sd = 32 then sd else replicate 32 0]"], goal_cases)
  case (5 ps o1 l1 o2 l2 w)
  then show ?case
    by (cases seed)
       (simp_all add: drawn_def drawn_rng_def refused_draw_def is_null_def ed25519_keygen_fresh ed25519_keygen_seeded [OF native_slices(1)])
qed (use assms(2) in \<open>auto simp: isize_small refused_draw_def dest!: on_ext_refuses split: option.splits\<close>)

text \<open>The exchange on arguments of any lengths.\<close>

definition x25519_exchange :: "('xk, 'ek) classical_lib \<Rightarrow> bytes \<Rightarrow> bytes \<Rightarrow> bytes verdict" where
  "x25519_exchange L sec peer =
    (if length sec = 32 \<and> length peer = 32 then x25519_shared L sec peer else Refuse InvalidKey)"

lemma native_x25519SharedSecret_yields:
  assumes "t_ok s" "short [sec, peer]"
  shows "yields (native_x25519SharedSecret L sec peer) s
    (native_aead ''X25519 ECDH'' 32 (x25519_exchange L sec peer)) (rng (t_world s))"
  unfolding native_x25519SharedSecret_def classical_two_in_one_out_via_def
proof (rule yields_one [OF assms(1), where bufs = "if length sec = 32 \<and> length peer = 32 then wiped_only (x25519_shared L sec peer) else []"],
    goal_cases)
  case (5 ps out len w)
  note sl = native_slices(2,3) [OF 5(1)]
  show ?case
    by (cases "length sec = 32 \<and> length peer = 32")
       (use x25519_ecdh_delivers [OF sl 5(3,4)] x25519_ecdh_refuses [OF sl, of L] 5(2) in \<open>auto simp: x25519_exchange_def\<close>)
qed (use assms(2) in \<open>simp_all add: isize_small x25519_exchange_def\<close>)

lemma native_ed25519PublicFromSeed_yields:
  assumes "t_ok s" "length seed \<le> isize_max"
  shows "yields (native_ed25519PublicFromSeed L seed) s
    (native_aead ''Ed25519 public from seed'' 32
      (if length seed = 32 then ed25519_public_spec L seed else Refuse InvalidKey)) (rng (t_world s))"
  unfolding native_ed25519PublicFromSeed_def
  by (rule yields_one [OF assms(1), where bufs = "[]"])
     (use assms(2) in \<open>simp_all add: isize_small ed25519_public_delivers [OF native_slices(1)]\<close>)

lemma native_ed25519Sign_yields:
  assumes "t_ok s" "short [seed, msg]"
  shows "yields (native_ed25519Sign L seed msg) s
    (native_aead ''Ed25519 sign'' 64
      (if length seed = 32 then ed25519_sign_spec L seed msg else Refuse InvalidKey)) (rng (t_world s))"
  unfolding native_ed25519Sign_def classical_two_in_one_out_via_def
  by (rule yields_one [OF assms(1), where bufs = "[]"])
     (use assms(2) in \<open>simp_all add: isize_small ed25519_sign_delivers [OF native_slices(2) slice_at_input [OF native_slices(3)]]\<close>)

lemma native_ed25519Verify_yields:
  assumes "t_ok s" "short [pk, msg, sg]"
  shows "yields (native_ed25519Verify L pk msg sg) s (ed25519_verify_spec L pk msg sg = Ok) (rng (t_world s))"
  unfolding native_ed25519Verify_def
proof (rule yields_verifier [OF assms])
  fix ps and w :: world
  assume "slice_at (mem w) (ps ! 0) (of_nat (length pk)) pk" "slice_at (mem w) (ps ! 1) (of_nat (length msg)) msg"
    "slice_at (mem w) (ps ! 2) (of_nat (length sg)) sg"
  then show "\<exists>w'. pqforge_ed25519_verify L (ps ! 0) (of_nat (length pk)) (ps ! 1) (of_nat (length msg))
      (ps ! 2) (of_nat (length sg)) w = (Done (code (ed25519_verify_spec L pk msg sg)), w') \<and> rng w' = rng w"
    using ed25519_verify_delivers [OF _ slice_at_input] ed25519_verify_rng by metis
qed

section \<open>Opening the backend\<close>

text \<open>
  \<open>NativeBackend.open\<close>: the loader of \<open>dart:ffi\<close> answers with an exception or a library (the
  functions it exports), the symbols resolve or not, and the library has to speak ABI 1 and
  pass its self-test. The messages of the exceptions are shortened to their fixed part.
\<close>

record core_library =
  lib_symbols :: "unit dart"                \<comment> \<open>all 17 look-ups of \<open>_Bindings\<close>\<close>
  lib_abi_version :: "32 word"
  lib_selftest :: "(world, c_int) comp"

definition kPqForgeAbiVersion :: "32 word" where
  "kPqForgeAbiVersion = 1"

definition native_open :: "core_library dart \<Rightarrow> core_library dart ffi" where
  "native_open lib = (case lib of
       Inl _ \<Rightarrow> dart_throw (NativeBindingException ''cannot open'')
     | Inr b \<Rightarrow> (case lib_symbols b of
         Inl _ \<Rightarrow> dart_throw (NativeBindingException ''symbol lookup failed'')
       | Inr _ \<Rightarrow>
         if lib_abi_version b \<noteq> kPqForgeAbiVersion then dart_throw (NativeBindingException ''ABI mismatch'')
         else bind_comp (ffi_call (lib_selftest b)) (\<lambda>rc.
           if rc \<noteq> code Ok then dart_throw (NativeBindingException ''AWS-LC crypto self-test failed'')
           else dart_return b)))"

lemma native_open_keeps: "native_open lib s = (r, s') \<Longrightarrow> t_ok s' = t_ok s"
  by (auto simp: native_open_def ffi_call_def bind_comp_def dart_throw_def dart_return_def ret_def t_ok_def
      split: sum.splits prod.splits outcome.splits if_splits)

end
