(* ===== verification/Dart_Selector.thy ===== *)
theory Dart_Selector
  imports Dart_Native
begin

text \<open>
  \<open>lib/src/backend/selector.dart\<close>: the process singleton \<open>PqForge\<close> and how it picks its backend.
  A library path is opaque; \<open>load\<close> is what the loader of \<open>dart:ffi\<close> answers for it.
\<close>

datatype resolved_backend = Native core_library | Fallback

fun kind_of :: "resolved_backend \<Rightarrow> backend_kind" where
  "kind_of (Native b) = NativeKind"
| "kind_of Fallback = FallbackKind"

text \<open>The static field \<open>_instance\<close> beside the state of the process.\<close>

record pqforge_process =
  singleton :: "resolved_backend option"
  caller_state :: ffi_caller

definition resolve_backend ::
  "('p \<Rightarrow> core_library dart) \<Rightarrow> bool \<Rightarrow> 'p option \<Rightarrow> resolved_backend ffi" where
  "resolve_backend load preferNative nativeLibraryPath =
    (if preferNative \<and> nativeLibraryPath \<noteq> None then
       bind_comp (native_open (load (the nativeLibraryPath))) (\<lambda>r. case r of
           Inr b \<Rightarrow> ret (Native b)
         | Inl _ \<Rightarrow> ret Fallback)
     else ret Fallback)"

definition pqforge_instance ::
  "('p \<Rightarrow> core_library dart) \<Rightarrow> bool \<Rightarrow> 'p option \<Rightarrow> (pqforge_process, resolved_backend) comp" where
  "pqforge_instance load preferNative nativeLibraryPath = (\<lambda>s. case singleton s of
       Some b \<Rightarrow> (Done b, s)
     | None \<Rightarrow> (case resolve_backend load preferNative nativeLibraryPath (caller_state s) of
         (Done b, c) \<Rightarrow> (Done b, s\<lparr>singleton := Some b, caller_state := c\<rparr>)
       | (Panic p, c) \<Rightarrow> (Panic p, s\<lparr>caller_state := c\<rparr>)
       | (Abort, c) \<Rightarrow> (Abort, s\<lparr>caller_state := c\<rparr>)
       | (Undefined, c) \<Rightarrow> (Undefined, s\<lparr>caller_state := c\<rparr>)))"

definition pqforge_withBackend :: "resolved_backend \<Rightarrow> pqforge_process \<Rightarrow> pqforge_process" where
  "pqforge_withBackend b s = s\<lparr>singleton := Some b\<rparr>"

definition pqforge_reset :: "pqforge_process \<Rightarrow> pqforge_process" where
  "pqforge_reset s = s\<lparr>singleton := None\<rparr>"

definition isAccelerated :: "resolved_backend \<Rightarrow> bool" where
  "isAccelerated b \<longleftrightarrow> kind_of b = NativeKind"

section \<open>The library of this repository\<close>

definition this_core :: "(bytes \<Rightarrow> panic_payload + bytes) \<Rightarrow> core_library" where
  "this_core digest = \<lparr>lib_symbols = Inr (), lib_abi_version = pqforge_abi_version,
     lib_selftest = pqforge_crypto_selftest digest\<rparr>"

text \<open>What has to hold of a library that is accepted.\<close>

definition acceptable :: "core_library dart \<Rightarrow> ffi_caller \<Rightarrow> bool" where
  "acceptable lib s \<longleftrightarrow> (case lib of Inl _ \<Rightarrow> False | Inr b \<Rightarrow>
     lib_symbols b = Inr () \<and> lib_abi_version b = 1 \<and> fst (lib_selftest b (t_world s)) = Done (code Ok))"

text \<open>A self-test that returns a status code leaves the decision to that code.\<close>

definition selftest_returns :: "core_library dart \<Rightarrow> ffi_caller \<Rightarrow> bool" where
  "selftest_returns lib s \<longleftrightarrow> (case lib of Inl _ \<Rightarrow> True | Inr b \<Rightarrow> (\<exists>c w. lib_selftest b (t_world s) = (Done c, w)))"

lemma native_open_decides:
  assumes "selftest_returns lib s"
  shows "\<exists>r s'. native_open lib s = (Done r, s') \<and>
    (if acceptable lib s then lib = Inr (projr lib) \<and> r = Inr (projr lib) else \<exists>m. r = Inl (NativeBindingException m))"
proof (cases lib)
  case (Inl e)
  then show ?thesis by (simp add: native_open_def acceptable_def)
next
  case (Inr b)
  then obtain c w where c: "lib_selftest b (t_world s) = (Done c, w)" using assms by (auto simp: selftest_returns_def)
  have call: "ffi_call (lib_selftest b) s = (Done c, s\<lparr>t_world := w\<rparr>)" using c by (simp add: ffi_call_def)
  show ?thesis
  proof (cases "lib_symbols b")
    case (Inl e)
    then show ?thesis using Inr by (simp add: native_open_def acceptable_def)
  next
    case sym: (Inr u)
    show ?thesis
    proof (cases "lib_abi_version b = 1 \<and> c = code Ok")
      case True
      then show ?thesis
        using Inr sym c call by (simp add: native_open_def acceptable_def kPqForgeAbiVersion_def run_simps del: code.simps)
    next
      case False
      then show ?thesis
        using Inr sym c call by (auto simp: native_open_def acceptable_def kPqForgeAbiVersion_def run_simps simp del: code.simps)
    qed
  qed
qed

end
