(* ===== verification/Dart_Envelope.thy ===== *)
theory Dart_Envelope
  imports Dart_Native
begin

text \<open>
  \<open>lib/src/api/envelope.dart\<close>: the single-shot KEM-DEM envelope. Its codec first: the header as
  it is written into a buffer and as it is parsed, and what the two have to do with each other.
  Then \<open>seal\<close> and \<open>open\<close> over any backend, what they need of it (the locale \<open>kem_dem\<close>, interpreted
  in \<open>Dart_Interop\<close>), and what the native backend has to offer.
\<close>

section \<open>The codec\<close>

text \<open>
  Parameters from the package \<open>pqforge\<close>: \<open>PqKemAlgorithm.values\<close>, \<open>PqBytes.randomBytes\<close> and
  \<open>PqSymmetricPrimitives.hkdfSha256\<close> (input key material, salt, info, output length).
\<close>

record 's pqforge_package =
  kem_values :: "pq_kem list"
  randomBytes :: "nat \<Rightarrow> ('s, bytes) comp"
  hkdfSha256 :: "bytes \<Rightarrow> bytes \<Rightarrow> bytes \<Rightarrow> nat \<Rightarrow> bytes"

definition env_magic :: bytes where
  "env_magic = [0x50, 0x46, 0x45, 0x31]"

definition env_version :: u8 where
  "env_version = 1"

definition env_aeadAes256Gcm :: u8 where
  "env_aeadAes256Gcm = 0"

definition env_saltLen :: nat where
  "env_saltLen = 16"

definition env_nonceLen :: nat where
  "env_nonceLen = 12"

definition env_headerFixedLen :: nat where
  "env_headerFixedLen = 4 + 1 + 1 + 1 + env_saltLen + env_nonceLen + 4"

definition env_info :: bytes where
  "env_info = ascii_bytes ''pqforge_ffi/v1/aes-256-gcm''"

lemmas env_consts = env_version_def env_aeadAes256Gcm_def env_saltLen_def env_nonceLen_def env_headerFixedLen_def

text \<open>\<open>b.setAll(o, xs)\<close>, which throws when it runs over the end.\<close>

definition set_all :: "nat \<Rightarrow> bytes \<Rightarrow> bytes \<Rightarrow> bytes dart" where
  "set_all o' xs b = (if o' + length xs \<le> length b then Inr (take o' b @ xs @ drop (o' + length xs) b) else Inl RangeError)"

definition exn_bind :: "'a dart \<Rightarrow> ('a \<Rightarrow> 'b dart) \<Rightarrow> 'b dart" where
  "exn_bind r k = (case r of Inl e \<Rightarrow> Inl e | Inr x \<Rightarrow> k x)"

definition write_u32 :: "bytes \<Rightarrow> nat \<Rightarrow> 64 word \<Rightarrow> bytes" where
  "write_u32 b o' v =
    b[o' := ucast (and (signed_drop_bit 24 v) 0xFF), o' + 1 := ucast (and (signed_drop_bit 16 v) 0xFF),
      o' + 2 := ucast (and (signed_drop_bit 8 v) 0xFF), o' + 3 := ucast (and v 0xFF)]"

definition read_u32 :: "bytes \<Rightarrow> nat \<Rightarrow> 64 word" where
  "read_u32 b o' =
    or (or (or (push_bit 24 (ucast (b ! o'))) (push_bit 16 (ucast (b ! (o' + 1)))))
      (push_bit 8 (ucast (b ! (o' + 2))))) (ucast (b ! (o' + 3)))"

definition encode_header :: "pq_kem \<Rightarrow> bytes \<Rightarrow> bytes \<Rightarrow> bytes \<Rightarrow> bytes dart" where
  "encode_header kemAlg salt nonce kemCt =
    (let header = replicate (env_headerFixedLen + length kemCt) 0 in
     exn_bind (set_all 0 env_magic header) (\<lambda>header.
     let header = header[4 := env_version, 5 := of_nat (kem_index kemAlg), 6 := env_aeadAes256Gcm] in
     exn_bind (set_all 7 salt header) (\<lambda>header.
     exn_bind (set_all (7 + env_saltLen) nonce header) (\<lambda>header.
     let o' = 7 + env_saltLen + env_nonceLen;
         header = write_u32 header o' (of_nat (length kemCt)) in
     set_all (o' + 4) kemCt header))))"

record parsed_envelope =
  pe_kemAlgorithm :: pq_kem
  pe_salt :: bytes
  pe_nonce :: bytes
  pe_kemCiphertext :: bytes
  pe_header :: bytes
  pe_sealed :: bytes

text \<open>\<open>Uint8List.sublistView(e, from, to)\<close> inside the list. Numbers in messages are left out.\<close>

definition sublist_view :: "bytes \<Rightarrow> nat \<Rightarrow> nat \<Rightarrow> bytes" where
  "sublist_view e from' to' = take (to' - from') (drop from' e)"

definition decode_envelope :: "'s pqforge_package \<Rightarrow> bytes \<Rightarrow> parsed_envelope dart" where
  "decode_envelope P e =
    (if length e < env_headerFixedLen then Inl (InvalidCiphertextException ''envelope too short for header'')
     else if list_ex (\<lambda>i. e ! i \<noteq> env_magic ! i) [0..<4] then Inl (InvalidCiphertextException ''bad envelope magic'')
     else if e ! 4 \<noteq> env_version then Inl (InvalidCiphertextException ''unsupported envelope version'')
     else let kemAlgId = unat (e ! 5) in
     if kemAlgId \<ge> length (kem_values P) then Inl (InvalidCiphertextException ''bad KEM algorithm id'')
     else let kemAlg = kem_values P ! kemAlgId in
     if e ! 6 \<noteq> env_aeadAes256Gcm then Inl (InvalidCiphertextException ''unsupported AEAD id'')
     else
     let o' = 7; salt = sublist_view e o' (o' + env_saltLen);
         o' = o' + env_saltLen; nonce = sublist_view e o' (o' + env_nonceLen);
         o' = o' + env_nonceLen; kemCtLen = unat (read_u32 e o');
         o' = o' + 4 in
     if kemCtLen \<noteq> kem_ciphertextBytes kemAlg then Inl (InvalidCiphertextException ''KEM ciphertext length'')
     else if o' + kemCtLen > length e then Inl (InvalidCiphertextException ''truncated KEM ciphertext'')
     else Inr \<lparr>pe_kemAlgorithm = kemAlg, pe_salt = salt, pe_nonce = nonce,
       pe_kemCiphertext = sublist_view e o' (o' + kemCtLen),
       pe_header = sublist_view e 0 (o' + kemCtLen), pe_sealed = drop (o' + kemCtLen) e\<rparr>)"

definition auth_data :: "bytes \<Rightarrow> bytes option \<Rightarrow> bytes" where
  "auth_data header aad = (case aad of None \<Rightarrow> header | Some a \<Rightarrow> if a = [] then header else header @ a)"

section \<open>Codec lemmas\<close>

text \<open>The header as one list: the byte order is big-endian.\<close>

definition u32_bytes :: "64 word \<Rightarrow> bytes" where
  "u32_bytes v = [ucast (drop_bit 24 v), ucast (drop_bit 16 v), ucast (drop_bit 8 v), ucast v]"

definition header_bytes :: "pq_kem \<Rightarrow> bytes \<Rightarrow> bytes \<Rightarrow> bytes \<Rightarrow> bytes" where
  "header_bytes a salt nonce ct =
    [0x50, 0x46, 0x45, 0x31, 1, of_nat (kem_index a), 0] @ salt @ nonce @ u32_bytes (of_nat (length ct)) @ ct"

lemma exn_bind_simps [simp]: "exn_bind (Inl e) k = Inl e" "exn_bind (Inr x) k = k x"
  by (simp_all add: exn_bind_def)

lemma low_byte_signed:
  "n \<le> 24 \<Longrightarrow> (ucast (signed_drop_bit n v) :: u8) = ucast (drop_bit n (v :: 64 word))"
  by (rule bit_word_eqI) (auto simp: bit_simps)

lemma length_four: "length xs = 4 \<Longrightarrow> \<exists>w x y z. xs = [w, x, y, z]"
  by (auto simp: numeral_eq_Suc length_Suc_conv)

lemma four_at:
  assumes "o' + 4 \<le> length b"
  obtains w x y z where "b = take o' b @ [w, x, y, z] @ drop (o' + 4) b"
proof -
  have "length (take 4 (drop o' b)) = 4" using assms by simp
  from length_four [OF this] obtain w x y z where "take 4 (drop o' b) = [w, x, y, z]" by blast
  moreover have "b = take o' b @ take 4 (drop o' b) @ drop (o' + 4) b"
    by (metis append_take_drop_id drop_drop add.commute)
  ultimately show ?thesis using that by metis
qed

lemma write_u32_at: "write_u32 (xs @ [w, x, y, z] @ ys) (length xs) v = xs @ u32_bytes v @ ys"
  by (simp add: write_u32_def u32_bytes_def low_byte_signed ucast_low_byte list_update_append)

lemma write_u32_bytes:
  assumes "o' + 4 \<le> length b"
  shows "write_u32 b o' v = take o' b @ u32_bytes v @ drop (o' + 4) b"
proof (rule four_at [OF assms])
  fix w x y z assume b: "b = take o' b @ [w, x, y, z] @ drop (o' + 4) b"
  have "length (take o' b) = o'" using assms by simp
  with write_u32_at [of "take o' b" w x y z "drop (o' + 4) b" v] b show ?thesis by metis
qed

lemma read_u32_at: "read_u32 (xs @ [w, x, y, z] @ ys) (length xs) =
    or (or (or (push_bit 24 (ucast w)) (push_bit 16 (ucast x))) (push_bit 8 (ucast y))) (ucast z)"
  by (simp add: read_u32_def nth_append)

lemma read_u32_bytes: "unat v < 2 ^ 32 \<Longrightarrow> read_u32 (xs @ u32_bytes v @ ys) (length xs) = v"
proof -
  assume v: "unat v < 2 ^ 32"
  have high: "\<not> bit v n" if "32 \<le> n" for n
  proof -
    have "unat (take_bit 32 v) = unat v" using v by (simp add: unsigned_take_bit_eq take_bit_nat_eq_self)
    then have "take_bit 32 v = v" by (simp only: unat_arith_simps)
    then have "bit v n = bit (take_bit 32 v) n" by simp
    then show ?thesis using that by (simp add: bit_take_bit_iff)
  qed
  show ?thesis
    unfolding u32_bytes_def read_u32_at
  proof (rule bit_word_eqI)
    fix n assume "n < LENGTH(64)"
    have "bit v (k + (n - k)) \<longleftrightarrow> (if k \<le> n then bit v n else bit v k)" for k by simp
    then show "bit (or (or (or (push_bit 24 (ucast (ucast (drop_bit 24 v) :: u8)))
        (push_bit 16 (ucast (ucast (drop_bit 16 v) :: u8)))) (push_bit 8 (ucast (ucast (drop_bit 8 v) :: u8))))
        (ucast (ucast v :: u8)) :: 64 word) n = bit v n"
      using \<open>n < LENGTH(64)\<close> high [of n] by (cases "n < 32") (auto simp: bit_simps)
  qed
qed

lemma u32_bytes_read: "u32_bytes (or (or (or (push_bit 24 (ucast w)) (push_bit 16 (ucast x))) (push_bit 8 (ucast y))) (ucast z))
    = [w, x, y, z :: u8]"
  unfolding u32_bytes_def by (intro list.inject [THEN iffD2] conjI refl; rule bit_word_eqI;
      auto simp: bit_simps dest: bit_imp_le_length)

lemma length_u32_bytes [simp]: "length (u32_bytes v) = 4"
  by (simp add: u32_bytes_def)

text \<open>What \<open>_encodeHeader\<close> writes, for a salt and a nonce of their sizes.\<close>

lemma encode_header_bytes:
  assumes "length salt = 16" "length nonce = 12"
  shows "encode_header a salt nonce ct = Inr (header_bytes a salt nonce ct)"
proof -
  have r: "replicate (39 + length ct) (0 :: u8) = [0, 0, 0, 0, 0, 0, 0] @ replicate (32 + length ct) 0"
    by (simp add: numeral_eq_Suc)
  show ?thesis
    using assms
    by (simp add: encode_header_def set_all_def env_consts env_magic_def r header_bytes_def write_u32_bytes Let_def)
qed

lemma length_header_bytes [simp]:
  "length salt = 16 \<Longrightarrow> length nonce = 12 \<Longrightarrow> length (header_bytes a salt nonce ct) = 39 + length ct"
  by (simp add: header_bytes_def)

text \<open>
  Documented behaviour of an enum: \<open>index\<close> is the position in \<open>values\<close>; there are at most 256
  of them and their ciphertexts have a length of 32 bits.
\<close>

definition enum_ok :: "'s pqforge_package \<Rightarrow> bool" where
  "enum_ok P \<longleftrightarrow> length (kem_values P) \<le> 256 \<and>
     (\<forall>i<length (kem_values P). kem_index (kem_values P ! i) = i \<and> kem_ciphertextBytes (kem_values P ! i) < 2 ^ 32)"

definition well_formed :: "'s pqforge_package \<Rightarrow> parsed_envelope \<Rightarrow> bool" where
  "well_formed P q \<longleftrightarrow> pe_kemAlgorithm q \<in> set (kem_values P) \<and> length (pe_salt q) = 16 \<and> length (pe_nonce q) = 12 \<and>
     length (pe_kemCiphertext q) = kem_ciphertextBytes (pe_kemAlgorithm q) \<and>
     pe_header q = header_bytes (pe_kemAlgorithm q) (pe_salt q) (pe_nonce q) (pe_kemCiphertext q)"

lemma first_four: "[0..<4] = [0, 1, 2, 3 :: nat]"
  by (simp add: upt_rec)

lemma decode_encoded:
  assumes "enum_ok P" "well_formed P q"
  shows "decode_envelope P (pe_header q @ pe_sealed q) = Inr q"
proof -
  let ?a = "pe_kemAlgorithm q"
  obtain i where i: "i < length (kem_values P)" "kem_values P ! i = ?a" 
    using assms(2) by (auto simp: well_formed_def in_set_conv_nth)
  then have ix: "kem_index ?a = i" "i < 256" "kem_ciphertextBytes ?a < 2 ^ 32" using assms(1) by (auto simp: enum_ok_def)
  then have un: "unat (of_nat (kem_index ?a) :: u8) = i" by (simp add: unat_of_nat take_bit_nat_eq_self)
  define salt nonce ct where "salt = pe_salt q" and "nonce = pe_nonce q" and "ct = pe_kemCiphertext q"
  have len: "length salt = 16" "length nonce = 12" "length ct = kem_ciphertextBytes ?a"
    and h: "pe_header q = header_bytes ?a salt nonce ct"
    using assms(2) by (simp_all add: well_formed_def salt_def nonce_def ct_def)
  let ?e = "pe_header q @ pe_sealed q"
  let ?pre = "[0x50, 0x46, 0x45, 0x31, 1, of_nat (kem_index ?a), 0] @ salt @ nonce"
  have e: "?e = ?pre @ u32_bytes (of_nat (length ct)) @ ct @ pe_sealed q" by (simp add: h header_bytes_def)
  have "unat (of_nat (length ct) :: 64 word) = length ct"
    using ix(3) len(3) by (simp add: unat_of_nat take_bit_nat_eq_self)
  then have rd: "unat (read_u32 ?e 35) = length ct"
    using read_u32_bytes [of "of_nat (length ct)" ?pre "ct @ pe_sealed q"] ix(3) len e by simp
  have parts: "take 16 (drop 7 ?e) = salt" "take 12 (drop 23 ?e) = nonce" "take (length ct) (drop 39 ?e) = ct"
    using len by (simp_all add: e u32_bytes_def)
  have "length (pe_header q) = 39 + length ct" using len h by simp
  then have hd: "take (39 + length ct) ?e = pe_header q" "drop (39 + length ct) ?e = pe_sealed q" by simp_all
  have bytes: "?e ! 0 = 0x50" "?e ! 1 = 0x46" "?e ! 2 = 0x45" "?e ! 3 = 0x31" "?e ! 4 = 1" "?e ! 5 = of_nat (kem_index ?a)" "?e ! 6 = 0"
    by (simp_all add: e)
  have "list_ex (\<lambda>i. ?e ! i \<noteq> env_magic ! i) [0..<4] = False"
    using bytes(1-4) by (simp add: first_four env_magic_def del: nth_append)
  moreover have "length ?e \<ge> 39 + length ct" using len h by simp
  ultimately show ?thesis
    using bytes(5-7) un i rd parts hd len(3)
    by (simp add: decode_envelope_def env_consts sublist_view_def Let_def salt_def nonce_def ct_def del: nth_append)
qed

text \<open>Whatever is parsed was the encoding of what it is parsed to: the format has no two readings.\<close>

lemma env_magic_nth: "env_magic ! 0 = 0x50" "env_magic ! Suc 0 = 0x46" "env_magic ! 2 = 0x45" "env_magic ! 3 = 0x31"
  by (simp_all add: env_magic_def)

lemma decode_parsed:
  assumes "enum_ok P" "decode_envelope P e = Inr q"
  shows "well_formed P q \<and> e = pe_header q @ pe_sealed q"
proof -
  let ?i = "unat (e ! 5)" and ?n = "unat (read_u32 e 35)"
  have len: "39 \<le> length e" and magic: "\<not> list_ex (\<lambda>i. e ! i \<noteq> env_magic ! i) [0..<4]" and ver: "e ! 4 = 1"
    and ix: "?i < length (kem_values P)" and aead: "e ! 6 = 0"
    and n: "?n = kem_ciphertextBytes (kem_values P ! ?i)" "39 + ?n \<le> length e"
    and q: "q = \<lparr>pe_kemAlgorithm = kem_values P ! ?i, pe_salt = take 16 (drop 7 e), pe_nonce = take 12 (drop 23 e),
      pe_kemCiphertext = take ?n (drop 39 e), pe_header = take (39 + ?n) e, pe_sealed = drop (39 + ?n) e\<rparr>"
    using assms(2) by (auto simp: decode_envelope_def env_consts sublist_view_def Let_def split: if_splits)
  let ?ct = "take ?n (drop 39 e)"
  have ct: "length ?ct = ?n" using n(2) by simp
  have "of_nat (length ?ct) = read_u32 e 35" by (simp only: ct of_nat_unat ucast_id)
  moreover obtain w x y z where four: "e = take 35 e @ [w, x, y, z] @ drop 39 e"
    by (rule four_at [of 35 e]) (use len in auto)
  moreover have l35: "length (take 35 e) = 35" using len by simp
  ultimately have u32: "u32_bytes (of_nat (length ?ct)) = [w, x, y, z]"
    using read_u32_at [of "take 35 e" w x y z "drop 39 e"] u32_bytes_read by metis
  have idx: "of_nat (kem_index (kem_values P ! ?i)) = e ! 5" using assms(1) ix by (simp add: enum_ok_def)
  have m: "e ! 0 = 0x50" "e ! Suc 0 = 0x46" "e ! 2 = 0x45" "e ! 3 = 0x31"
    using magic by (simp_all add: first_four env_magic_nth)
  have seven: "take 7 e = [0x50, 0x46, 0x45, 0x31, 1, e ! 5, 0]"
    by (rule nth_equalityI) (use len m ver aead in \<open>auto simp: nth_Cons' numeral_eq_Suc less_Suc_eq\<close>)
  have split: "take 35 e = take 7 e @ take 16 (drop 7 e) @ take 12 (drop 23 e)"
    using take_add [of 7 28 e] take_add [of 16 12 "drop 7 e"] by (simp add: add.commute)
  have l: "length (take 16 (drop 7 e)) = 16" "length (take 12 (drop 23 e)) = 12" using len by simp_all
  have "take (39 + ?n) e = take 39 e @ ?ct" by (rule take_add)
  also have "take 39 e = take 35 e @ [w, x, y, z]"
    by (subst four) (use l35 in simp)
  finally have "take (39 + ?n) e = header_bytes (kem_values P ! ?i) (take 16 (drop 7 e)) (take 12 (drop 23 e)) ?ct"
    by (simp only: header_bytes_def idx u32 split seven append_assoc)
  then have "well_formed P q" using ix l ct n(1) unfolding well_formed_def q by simp
  then show ?thesis unfolding q by simp
qed

lemma decode_error: "decode_envelope P e = Inl x \<Longrightarrow> \<exists>m. x = InvalidCiphertextException m"
  by (auto simp: decode_envelope_def Let_def split: if_splits)

text \<open>What is authenticated determines the header and the additional data.\<close>

definition aad_bytes :: "bytes option \<Rightarrow> bytes" where
  "aad_bytes aad = (case aad of None \<Rightarrow> [] | Some a \<Rightarrow> a)"

lemma auth_data_append: "auth_data h aad = h @ aad_bytes aad"
  by (simp add: auth_data_def aad_bytes_def split: option.split)

lemma auth_data_inj:
  assumes "enum_ok P" "well_formed P q" "well_formed P q'"
    and "auth_data (pe_header q) aad = auth_data (pe_header q') aad'"
  shows "q\<lparr>pe_sealed := []\<rparr> = q'\<lparr>pe_sealed := []\<rparr>" "aad_bytes aad = aad_bytes aad'"
proof -
  have e: "pe_header q @ aad_bytes aad = pe_header q' @ aad_bytes aad'" using assms(4) by (simp add: auth_data_append)
  have "decode_envelope P (pe_header q @ aad_bytes aad) = Inr (q\<lparr>pe_sealed := aad_bytes aad\<rparr>)"
    using decode_encoded [OF assms(1), of "q\<lparr>pe_sealed := aad_bytes aad\<rparr>"] assms(2) by (simp add: well_formed_def)
  moreover have "decode_envelope P (pe_header q' @ aad_bytes aad') = Inr (q'\<lparr>pe_sealed := aad_bytes aad'\<rparr>)"
    using decode_encoded [OF assms(1), of "q'\<lparr>pe_sealed := aad_bytes aad'\<rparr>"] assms(3) by (simp add: well_formed_def)
  ultimately have "q\<lparr>pe_sealed := aad_bytes aad\<rparr> = q'\<lparr>pe_sealed := aad_bytes aad'\<rparr>" using e by simp
  then show "q\<lparr>pe_sealed := []\<rparr> = q'\<lparr>pe_sealed := []\<rparr>" "aad_bytes aad = aad_bytes aad'"
    by (cases q; cases q'; simp)+
qed

section \<open>Sealing and opening\<close>

text \<open>The operations of \<open>PqForgeBackend\<close> the envelope uses, on the state of the program.\<close>

record 's envelope_backend =
  eb_kemEncapsulate :: "pq_kem \<Rightarrow> bytes \<Rightarrow> ('s, (bytes \<times> bytes) dart) comp" \<comment> \<open>ciphertext, shared secret\<close>
  eb_kemDecapsulate :: "pq_kem \<Rightarrow> bytes \<Rightarrow> bytes \<Rightarrow> ('s, bytes dart) comp"
  eb_aeadSeal :: "aead_algorithm \<Rightarrow> bytes \<Rightarrow> bytes \<Rightarrow> bytes \<Rightarrow> bytes \<Rightarrow> ('s, bytes dart) comp"
  eb_aeadOpen :: "aead_algorithm \<Rightarrow> bytes \<Rightarrow> bytes \<Rightarrow> bytes \<Rightarrow> bytes \<Rightarrow> ('s, bytes dart) comp"

definition envelope_seal ::
  "'s pqforge_package \<Rightarrow> 's envelope_backend \<Rightarrow> pq_kem \<Rightarrow> bytes \<Rightarrow> bytes \<Rightarrow> bytes option \<Rightarrow> ('s, bytes dart) comp" where
  "envelope_seal P B kemAlgorithm recipientPublicKey plaintext aad =
    dart_bind (eb_kemEncapsulate B kemAlgorithm recipientPublicKey) (\<lambda>(ciphertext, sharedSecret).
    bind_comp (randomBytes P env_saltLen) (\<lambda>salt.
    bind_comp (randomBytes P env_nonceLen) (\<lambda>nonce.
    let key = hkdfSha256 P sharedSecret salt env_info (keyBytes AES_256_GCM) in
    dart_bind (ret (encode_header kemAlgorithm salt nonce ciphertext)) (\<lambda>header.
    dart_bind (eb_aeadSeal B AES_256_GCM key nonce plaintext (auth_data header aad)) (\<lambda>sealed.
    dart_return (header @ sealed))))))"

definition envelope_open ::
  "'s pqforge_package \<Rightarrow> 's envelope_backend \<Rightarrow> bytes \<Rightarrow> bytes \<Rightarrow> bytes option \<Rightarrow> ('s, bytes dart) comp" where
  "envelope_open P B recipientSecretKey envelope aad =
    dart_bind (ret (decode_envelope P envelope)) (\<lambda>parsed.
    dart_bind (eb_kemDecapsulate B (pe_kemAlgorithm parsed) recipientSecretKey (pe_kemCiphertext parsed)) (\<lambda>sharedSecret.
    let key = hkdfSha256 P sharedSecret (pe_salt parsed) env_info (keyBytes AES_256_GCM) in
    eb_aeadOpen B AES_256_GCM key (pe_nonce parsed) (pe_sealed parsed) (auth_data (pe_header parsed) aad)))"

text \<open>
  Documented behaviour of the package, on the states \<open>ready\<close> describes: \<open>randomBytes\<close> and
  \<open>hkdfSha256\<close> return as many bytes as they are asked for.
\<close>

definition package_ok :: "'s pqforge_package \<Rightarrow> ('s \<Rightarrow> bool) \<Rightarrow> bool" where
  "package_ok P ready \<longleftrightarrow> enum_ok P \<and>
     (\<forall>n s. ready s \<longrightarrow> (\<exists>bs s'. randomBytes P n s = (Done bs, s') \<and> length bs = n \<and> ready s')) \<and>
     (\<forall>i s f n. length (hkdfSha256 P i s f n) = n)"

lemma package_random:
  assumes "package_ok P ready" "ready s"
  obtains bs s' where "randomBytes P n s = (Done bs, s')" "length bs = n" "ready s'"
  using assms unfolding package_ok_def by blast

section \<open>What an envelope needs of its backend\<close>

text \<open>
  \<open>recipient x a pk sk s\<close>: encapsulating to \<open>pk\<close> in the state \<open>s\<close> gives what \<open>sk\<close> decapsulates.
  \<open>sealing x n\<close>: texts of up to \<open>n\<close> bytes can be sealed. \<open>accepts\<close>: what the AEAD opens to what.
  \<open>peer x y\<close>: the backend \<open>y\<close> opens what \<open>x\<close> seals.
\<close>

locale kem_dem =
  fixes B :: "'x \<Rightarrow> 's envelope_backend" and ready :: "'s \<Rightarrow> bool"
    and peer :: "'x \<Rightarrow> 'x \<Rightarrow> bool" and known :: "'x \<Rightarrow> pq_kem \<Rightarrow> bool"
    and recipient :: "'x \<Rightarrow> pq_kem \<Rightarrow> bytes \<Rightarrow> bytes \<Rightarrow> 's \<Rightarrow> bool"
    and sealing :: "'x \<Rightarrow> nat \<Rightarrow> bool"
    and accepts :: "'x \<Rightarrow> aead_algorithm \<Rightarrow> bytes \<Rightarrow> bytes \<Rightarrow> bytes \<Rightarrow> bytes \<Rightarrow> bytes \<Rightarrow> bool"
  assumes encapsulates: "ready s \<Longrightarrow> peer x y \<Longrightarrow> recipient x a pk sk s \<Longrightarrow>
      \<exists>ct ss s'. eb_kemEncapsulate (B x) a pk s = (Done (Inr (ct, ss)), s') \<and> ready s' \<and>
        length ct = kem_ciphertextBytes a \<and>
        (\<forall>t. ready t \<longrightarrow> (\<exists>t'. eb_kemDecapsulate (B y) a sk ct t = (Done (Inr ss), t') \<and> ready t'))"
    and decapsulates: "ready t \<Longrightarrow> peer x x \<Longrightarrow> known x a \<Longrightarrow> short [sk, ct] \<Longrightarrow>
      \<exists>r t'. eb_kemDecapsulate (B x) a sk ct t = (Done r, t') \<and> ready t'"
    and seals: "ready s \<Longrightarrow> peer x y \<Longrightarrow> sealing x n \<Longrightarrow> length key = keyBytes alg \<Longrightarrow> length nonce = nonceBytes alg \<Longrightarrow>
      length p \<le> n \<Longrightarrow> length ad \<le> isize_max \<Longrightarrow>
      \<exists>c s'. eb_aeadSeal (B x) alg key nonce p ad s = (Done (Inr c), s') \<and> ready s' \<and>
        (\<forall>t. ready t \<longrightarrow> (\<exists>t'. eb_aeadOpen (B y) alg key nonce c ad t = (Done (Inr p), t') \<and> ready t'))"
    and opens: "ready s \<Longrightarrow> peer x x \<Longrightarrow> short [ad, c] \<Longrightarrow> length key = keyBytes alg \<Longrightarrow> length nonce = nonceBytes alg \<Longrightarrow>
      \<exists>r s'. eb_aeadOpen (B x) alg key nonce c ad s = (Done r, s') \<and> ready s' \<and>
        (\<forall>p. r = Inr p \<longrightarrow> accepts x alg key nonce ad c p)"
begin

lemma seal_open:
  assumes pkg: "package_ok P ready" and s: "ready s" "peer x y" and a: "recipient x a pk sk s" "a \<in> set (kem_values P)"
    and p: "sealing x n" "length p \<le> n" and small: "39 + kem_ciphertextBytes a + length (aad_bytes aad) \<le> isize_max"
  shows "\<exists>q s'. envelope_seal P (B x) a pk p aad s = (Done (Inr (pe_header q @ pe_sealed q)), s') \<and> ready s' \<and>
    well_formed P q \<and> pe_kemAlgorithm q = a \<and>
    (\<forall>t. ready t \<longrightarrow>
      (\<exists>t'. envelope_open P (B y) sk (pe_header q @ pe_sealed q) aad t = (Done (Inr p), t') \<and> ready t'))"
proof -
  obtain ct ss s1 where 1: "eb_kemEncapsulate (B x) a pk s = (Done (Inr (ct, ss)), s1)" "ready s1"
      "length ct = kem_ciphertextBytes a"
    and dec: "\<And>t. ready t \<Longrightarrow> \<exists>t'. eb_kemDecapsulate (B y) a sk ct t = (Done (Inr ss), t') \<and> ready t'"
    using encapsulates [OF s a(1)] by metis
  obtain salt s2 where 2: "randomBytes P env_saltLen s1 = (Done salt, s2)" "length salt = 16" "ready s2"
    by (rule package_random [OF pkg 1(2), of env_saltLen]) (simp add: env_consts)
  obtain nonce s3 where 3: "randomBytes P env_nonceLen s2 = (Done nonce, s3)" "length nonce = 12" "ready s3"
    by (rule package_random [OF pkg 2(3), of env_nonceLen]) (simp add: env_consts)
  let ?key = "hkdfSha256 P ss salt env_info (keyBytes AES_256_GCM)" and ?h = "header_bytes a salt nonce ct"
  have key: "length ?key = keyBytes AES_256_GCM" using pkg by (simp add: package_ok_def)
  have ad: "length (auth_data ?h aad) \<le> isize_max"
    using small 1(3) 2(2) 3(2) by (simp add: auth_data_append)
  obtain c s4 where 4: "eb_aeadSeal (B x) AES_256_GCM ?key nonce p (auth_data ?h aad) s3 = (Done (Inr c), s4)" "ready s4"
    and opn: "\<And>t. ready t \<Longrightarrow>
      \<exists>t'. eb_aeadOpen (B y) AES_256_GCM ?key nonce c (auth_data ?h aad) t = (Done (Inr p), t') \<and> ready t'"
    using seals [OF 3(3) s(2) p(1) key _ p(2) ad] 3(2) by (metis nonceBytes.simps(1))
  let ?q = "\<lparr>pe_kemAlgorithm = a, pe_salt = salt, pe_nonce = nonce, pe_kemCiphertext = ct, pe_header = ?h, pe_sealed = c\<rparr>"
  have wf: "well_formed P ?q" using a(2) 1(3) 2(2) 3(2) by (simp add: well_formed_def)
  have enum: "enum_ok P" using pkg by (simp add: package_ok_def)
  have "envelope_seal P (B x) a pk p aad s = (Done (Inr (?h @ c)), s4)"
    using 1(1) 2(1) 3(1) 4(1)
    by (simp add: envelope_seal_def run_simps encode_header_bytes [OF 2(2) 3(2)] Let_def)
  moreover have "\<exists>t'. envelope_open P (B y) sk (?h @ c) aad t = (Done (Inr p), t') \<and> ready t'" if t: "ready t" for t
  proof -
    obtain t1 where t1: "eb_kemDecapsulate (B y) a sk ct t = (Done (Inr ss), t1)" "ready t1" using dec [OF t] by blast
    obtain t2 where t2: "eb_aeadOpen (B y) AES_256_GCM ?key nonce c (auth_data ?h aad) t1 = (Done (Inr p), t2)" "ready t2"
      using opn [OF t1(2)] by blast
    have "decode_envelope P (?h @ c) = Inr ?q" using decode_encoded [OF enum wf] by simp
    then show ?thesis using t1(1) t2 by (simp add: envelope_open_def run_simps Let_def)
  qed
  ultimately show ?thesis using wf 4(2) by (intro exI [of _ ?q]) auto
qed

text \<open>An envelope that opens is well-formed, and its sealed part was accepted with its header.\<close>

lemma open_accepts:
  assumes pkg: "package_ok P ready" "\<forall>a\<in>set (kem_values P). known x a" and t: "ready t" and x: "peer x x"
    and small: "length sk \<le> isize_max" "length e + length (aad_bytes aad) \<le> isize_max"
  shows "\<exists>r t'. envelope_open P (B x) sk e aad t = (Done r, t') \<and> ready t' \<and>
    (\<forall>p. r = Inr p \<longrightarrow> (\<exists>q key. decode_envelope P e = Inr q \<and>
      length key = 32 \<and> accepts x AES_256_GCM key (pe_nonce q) (auth_data (pe_header q) aad) (pe_sealed q) p))"
proof (cases "decode_envelope P e")
  case (Inl x)
  then show ?thesis using t by (simp add: envelope_open_def)
next
  case (Inr q)
  have enum: "enum_ok P" using pkg(1) by (simp add: package_ok_def)
  have wf: "well_formed P q" and e: "e = pe_header q @ pe_sealed q" using decode_parsed [OF enum Inr] by simp_all
  have k: "known x (pe_kemAlgorithm q)" using pkg(2) wf by (simp add: well_formed_def)
  have ct: "short [sk, pe_kemCiphertext q]" using small e wf by (auto simp: well_formed_def)
  obtain r t1 where 1: "eb_kemDecapsulate (B x) (pe_kemAlgorithm q) sk (pe_kemCiphertext q) t = (Done r, t1)" "ready t1"
    using decapsulates [OF t x k ct] by blast
  show ?thesis
  proof (cases r)
    case (Inl y)
    then show ?thesis using 1 Inr by (simp add: envelope_open_def run_simps)
  next
    case (Inr ss)
    let ?key = "hkdfSha256 P ss (pe_salt q) env_info (keyBytes AES_256_GCM)"
    have len: "length ?key = 32" "length ?key = keyBytes AES_256_GCM" "length (pe_nonce q) = nonceBytes AES_256_GCM"
      using pkg(1) wf by (simp_all add: package_ok_def well_formed_def)
    have sh: "short [auth_data (pe_header q) aad, pe_sealed q]"
      using small(2) e by (auto simp: auth_data_append)
    obtain r' t2 where "eb_aeadOpen (B x) AES_256_GCM ?key (pe_nonce q) (pe_sealed q) (auth_data (pe_header q) aad) t1 =
        (Done r', t2)" "ready t2" "\<forall>p. r' = Inr p \<longrightarrow>
        accepts x AES_256_GCM ?key (pe_nonce q) (auth_data (pe_header q) aad) (pe_sealed q) p"
      using opens [OF 1(2) x sh len(2,3)] by metis
    then show ?thesis
      using 1(1) Inr len(1) \<open>decode_envelope P e = Inr q\<close> by (auto simp: envelope_open_def run_simps Let_def)
  qed
qed

end

section \<open>Envelopes on the native backend\<close>

definition native_envelope_backend :: "('dk, 'ek) kem_lib \<times> 'k aead_lib \<Rightarrow> ffi_caller envelope_backend" where
  "native_envelope_backend = (\<lambda>(K, A).
    \<lparr>eb_kemEncapsulate = native_kemEncapsulate K, eb_kemDecapsulate = native_kemDecapsulate K,
     eb_aeadSeal = native_aeadSeal A, eb_aeadOpen = native_aeadOpen A\<rparr>)"

definition native_known :: "('dk, 'ek) kem_lib \<times> 'k aead_lib \<Rightarrow> pq_kem \<Rightarrow> bool" where
  "native_known x a \<longleftrightarrow> (\<exists>alg. kem_known a alg)"

text \<open>
  The key pair was generated with the library, whose keys and ciphertexts have the sizes the
  enum names, and the next draw does not make decapsulation fail.
\<close>

definition native_recipient ::
  "('dk, 'ek) kem_lib \<times> 'k aead_lib \<Rightarrow> pq_kem \<Rightarrow> bytes \<Rightarrow> bytes \<Rightarrow> ffi_caller \<Rightarrow> bool" where
  "native_recipient = (\<lambda>(K, A) a pk sk s. \<exists>alg good g. kem_known a alg \<and> kem_correct K alg good \<and>
     kem_sizes K alg (kem_publicKeyBytes a) (kem_secretKeyBytes a) (kem_ciphertextBytes a) (kem_sharedSecretBytes a) \<and>
     mlkem_keygen_spec K alg g = Produce (pk, sk) \<and> good g (rng (t_world s)))"

definition native_sealing :: "('dk, 'ek) kem_lib \<times> 'k aead_lib \<Rightarrow> nat \<Rightarrow> bool" where
  "native_sealing = (\<lambda>(K, A) n. aead_correct A n \<and> aead_keys A \<and> n + 16 \<le> isize_max)"

definition native_accepts ::
  "('dk, 'ek) kem_lib \<times> 'k aead_lib \<Rightarrow> aead_algorithm \<Rightarrow> bytes \<Rightarrow> bytes \<Rightarrow> bytes \<Rightarrow> bytes \<Rightarrow> bytes \<Rightarrow> bool" where
  "native_accepts = (\<lambda>(K, A) alg key nonce ad c p. \<exists>kk nn. unbound_key_new A alg key = ExtOk kk \<and>
     nonce_new A nonce = ExtOk nn \<and> open_in_place A kk nn ad c = ExtOk p)"

lemma native_aead_Produce [simp]: "length b \<le> n \<Longrightarrow> native_aead op n (Produce b) = Inr b"
  by (simp add: native_aead_def)

lemma native_aead_Inr: "native_aead op n v = Inr b \<Longrightarrow> v = Produce b"
  by (auto simp: native_aead_def split: verdict.splits if_splits)

lemma aead_open_spec_Produce:
  "aead_open_spec L aid k n a c = Produce p \<Longrightarrow> \<exists>alg kk nn. aead_alg aid = Some alg \<and>
     unbound_key_new L alg k = ExtOk kk \<and> nonce_new L n = ExtOk nn \<and> open_in_place L kk nn a c = ExtOk p"
  by (auto simp: aead_open_spec_def on_ext_def split: option.splits ext.splits if_splits)

lemma native_opens:
  assumes "t_ok s" "short [key, nonce, ad, c]"
  shows "\<exists>r s'. native_aeadOpen A alg key nonce c ad s = (Done r, s') \<and> t_ok s' \<and>
    (\<forall>p. r = Inr p \<longrightarrow> native_accepts (K, A) alg key nonce ad c p)"
proof -
  have "native_accepts (K, A) alg key nonce ad c p" if "aeadOpen (native_backend A) alg key nonce c ad = Inr p" for p
    using that aead_open_spec_Produce [of A "alg_id alg" key nonce ad c p]
    by (auto simp: native_backend_def native_accepts_def dest!: native_aead_Inr)
  with native_aeadOpen_yields [OF assms, of A alg] show ?thesis by (auto simp: yields_def)
qed

lemma native_decapsulates:
  assumes "t_ok t" "kem_known a alg" "short [sk, ct]"
  shows "\<exists>r t'. native_kemDecapsulate K a sk ct t = (Done r, t') \<and> t_ok t'"
  using native_kemDecapsulate_yields [OF assms, of K] by (auto simp: yields_def)

end
