(* ===== verification/Dart_Fallback.thy ===== *)
theory Dart_Fallback
  imports Dart_Envelope
begin

text \<open>
  \<open>lib/src/backend/fallback_backend.dart\<close>: the pure-Dart backend over the packages \<open>pqforge\<close> and
  \<open>pointycastle\<close>, how it maps what they throw, and when its primitives are those of the native
  backend.
\<close>

section \<open>Parameters from the packages\<close>

text \<open>
  The cipher object of \<open>pointycastle\<close>: \<open>init\<close> of a direction, a key, a nonce and additional data;
  \<open>processBytes\<close> and \<open>doFinal\<close> write into a buffer, which keeps what they wrote when they throw.
\<close>

record 'c chacha_poly =
  cc_init :: "bool \<Rightarrow> bytes \<Rightarrow> bytes \<Rightarrow> bytes \<Rightarrow> 'c dart"
  cc_getOutputSize :: "'c \<Rightarrow> nat \<Rightarrow> nat"
  cc_processBytes :: "'c \<Rightarrow> bytes \<Rightarrow> bytes \<Rightarrow> (nat \<times> 'c) dart \<times> bytes"
  cc_doFinal :: "'c \<Rightarrow> bytes \<Rightarrow> nat \<Rightarrow> nat dart \<times> bytes"

text \<open>\<open>PqKemPrimitives\<close>, \<open>PqSignaturePrimitives\<close>, \<open>PqSymmetricPrimitives\<close> and \<open>toString\<close> of a thrown object.\<close>

record ('s, 'c) fallback_packages =
  fp_toString :: "dart_exn \<Rightarrow> string"
  fp_kemGenerate :: "pq_kem \<Rightarrow> ('s, (bytes \<times> bytes) dart) comp"
  fp_kemEncapsulate :: "pq_kem \<Rightarrow> bytes \<Rightarrow> ('s, (bytes \<times> bytes) dart) comp"
  fp_kemDecapsulate :: "pq_kem \<Rightarrow> bytes \<Rightarrow> bytes \<Rightarrow> ('s, bytes dart) comp"
  fp_signGenerate :: "pq_sig \<Rightarrow> ('s, (bytes \<times> bytes) dart) comp"
  fp_sign :: "pq_sig \<Rightarrow> bytes \<Rightarrow> bytes \<Rightarrow> ('s, bytes dart) comp"
  fp_verify :: "pq_sig \<Rightarrow> bytes \<Rightarrow> bytes \<Rightarrow> bytes \<Rightarrow> ('s, bool dart) comp"
  fp_aesGcmEncrypt :: "bytes \<Rightarrow> bytes \<Rightarrow> bytes \<Rightarrow> bytes \<Rightarrow> bytes dart" \<comment> \<open>key, nonce, plaintext, aad\<close>
  fp_aesGcmDecrypt :: "bytes \<Rightarrow> bytes \<Rightarrow> bytes \<Rightarrow> bytes \<Rightarrow> bytes dart"
  fp_chacha :: "'c chacha_poly"

section \<open>Errors\<close>

definition fallback_exn :: "(dart_exn \<Rightarrow> string) \<Rightarrow> dart_exn \<Rightarrow> dart_exn" where
  "fallback_exn to_string e =
    (if is_ffi_exn e then e
     else case e of
       PqForgeException m \<Rightarrow> InvalidCiphertextException m
     | _ \<Rightarrow> if is_argument_error e then InvalidKeyException (to_string e)
            else InternalCryptoException (to_string e) Internal)"

definition fallback_guard :: "('s, 'c) fallback_packages \<Rightarrow> ('s, 'a dart) comp \<Rightarrow> ('s, 'a dart) comp" where
  "fallback_guard P body = bind_comp body (\<lambda>r. case r of
       Inr x \<Rightarrow> dart_return x
     | Inl e \<Rightarrow> dart_throw (fallback_exn (fp_toString P) e))"

section \<open>Operations\<close>

definition fallback_kemGenerate :: "('s, 'c) fallback_packages \<Rightarrow> pq_kem \<Rightarrow> ('s, (bytes \<times> bytes) dart) comp" where
  "fallback_kemGenerate P a = fallback_guard P (fp_kemGenerate P a)"

definition fallback_kemEncapsulate ::
  "('s, 'c) fallback_packages \<Rightarrow> pq_kem \<Rightarrow> bytes \<Rightarrow> ('s, (bytes \<times> bytes) dart) comp" where
  "fallback_kemEncapsulate P a publicKey = fallback_guard P (fp_kemEncapsulate P a publicKey)"

definition fallback_kemDecapsulate ::
  "('s, 'c) fallback_packages \<Rightarrow> pq_kem \<Rightarrow> bytes \<Rightarrow> bytes \<Rightarrow> ('s, bytes dart) comp" where
  "fallback_kemDecapsulate P a secretKey ciphertext = fallback_guard P (fp_kemDecapsulate P a secretKey ciphertext)"

definition fallback_signGenerate :: "('s, 'c) fallback_packages \<Rightarrow> pq_sig \<Rightarrow> ('s, (bytes \<times> bytes) dart) comp" where
  "fallback_signGenerate P a = fallback_guard P (fp_signGenerate P a)"

definition fallback_sign :: "('s, 'c) fallback_packages \<Rightarrow> pq_sig \<Rightarrow> bytes \<Rightarrow> bytes \<Rightarrow> ('s, bytes dart) comp" where
  "fallback_sign P a secretKey message = fallback_guard P (fp_sign P a secretKey message)"

definition fallback_verify ::
  "('s, 'c) fallback_packages \<Rightarrow> pq_sig \<Rightarrow> bytes \<Rightarrow> bytes \<Rightarrow> bytes \<Rightarrow> ('s, bool dart) comp" where
  "fallback_verify P a publicKey message signature = fallback_guard P (fp_verify P a publicKey message signature)"

fun alg_name :: "aead_algorithm \<Rightarrow> string" where
  "alg_name AES_256_GCM = ''aes256Gcm''"
| "alg_name CHACHA20_POLY1305 = ''chaCha20Poly1305''"

text \<open>\<open>_requireSizes\<close>; both algorithms have the sizes its messages name.\<close>

definition require_sizes :: "aead_algorithm \<Rightarrow> bytes \<Rightarrow> bytes \<Rightarrow> unit dart" where
  "require_sizes alg key nonce =
    (if length key \<noteq> keyBytes alg then Inl (InvalidKeyException (alg_name alg @ '' key must be 32 bytes''))
     else if length nonce \<noteq> nonceBytes alg then Inl (InvalidKeyException (alg_name alg @ '' nonce must be 12 bytes''))
     else Inr ())"

text \<open>
  \<open>_runAead\<close>, with the contents of its buffer when it is left. \<open>sublistView\<close> beyond the end of
  the buffer throws inside the \<open>try\<close>.
\<close>

definition run_aead :: "'c chacha_poly \<Rightarrow> 'c \<Rightarrow> bytes \<Rightarrow> bytes dart \<times> bytes" where
  "run_aead C cipher data =
    (let out = replicate (cc_getOutputSize C cipher (length data)) 0 in
     case cc_processBytes C cipher data out of
       (Inl e, out) \<Rightarrow> (Inl e, replicate (length out) 0)
     | (Inr (n, cipher), out) \<Rightarrow>
       (case cc_doFinal C cipher out n of
         (Inl e, out) \<Rightarrow> (Inl e, replicate (length out) 0)
       | (Inr m, out) \<Rightarrow>
         let written = n + m in
         if written = length out then (Inr out, out)
         else if written > length out then (Inl RangeError, replicate (length out) 0)
         else (Inr (take written out), out)))"

definition chacha_run :: "'c chacha_poly \<Rightarrow> bool \<Rightarrow> bytes \<Rightarrow> bytes \<Rightarrow> bytes \<Rightarrow> bytes \<Rightarrow> bytes dart" where
  "chacha_run C forEncryption key nonce aad data =
    exn_bind (cc_init C forEncryption key nonce aad) (\<lambda>cipher. fst (run_aead C cipher data))"

definition fallback_aeadSeal ::
  "('s, 'c) fallback_packages \<Rightarrow> aead_algorithm \<Rightarrow> bytes \<Rightarrow> bytes \<Rightarrow> bytes \<Rightarrow> bytes \<Rightarrow> bytes dart" where
  "fallback_aeadSeal P alg key nonce plaintext aad = (case alg of
       AES_256_GCM \<Rightarrow> (case fp_aesGcmEncrypt P key nonce plaintext aad of
           Inr c \<Rightarrow> Inr c
         | Inl e \<Rightarrow> Inl (if is_argument_error e then InvalidKeyException (fp_toString P e) else e))
     | CHACHA20_POLY1305 \<Rightarrow> exn_bind (require_sizes alg key nonce) (\<lambda>_.
         chacha_run (fp_chacha P) True key nonce aad plaintext))"

definition tag_failure :: dart_exn where
  "tag_failure = VerificationFailedException ''AEAD tag verification failed''"

definition fallback_aeadOpen ::
  "('s, 'c) fallback_packages \<Rightarrow> aead_algorithm \<Rightarrow> bytes \<Rightarrow> bytes \<Rightarrow> bytes \<Rightarrow> bytes \<Rightarrow> bytes dart" where
  "fallback_aeadOpen P alg key nonce ciphertext aad = (case alg of
       AES_256_GCM \<Rightarrow> (case fp_aesGcmDecrypt P key nonce ciphertext aad of
           Inr p \<Rightarrow> Inr p
         | Inl e \<Rightarrow> Inl (if is_argument_error e then InvalidKeyException (fp_toString P e) else tag_failure))
     | CHACHA20_POLY1305 \<Rightarrow> exn_bind (require_sizes alg key nonce) (\<lambda>_.
         if length ciphertext < tagBytes alg
         then Inl (InvalidCiphertextException ''ciphertext shorter than the AEAD tag'')
         else case chacha_run (fp_chacha P) False key nonce aad ciphertext of
             Inr p \<Rightarrow> Inr p
           | Inl e \<Rightarrow> Inl tag_failure))"

text \<open>The backend as a stream and as an envelope sees it.\<close>

definition fallback_backend :: "('s, 'c) fallback_packages \<Rightarrow> dart_backend" where
  "fallback_backend P = \<lparr>aeadSeal = fallback_aeadSeal P, aeadOpen = fallback_aeadOpen P\<rparr>"

definition fallback_envelope_backend :: "('s, 'c) fallback_packages \<Rightarrow> 's envelope_backend" where
  "fallback_envelope_backend P =
    \<lparr>eb_kemEncapsulate = fallback_kemEncapsulate P, eb_kemDecapsulate = fallback_kemDecapsulate P,
     eb_aeadSeal = (\<lambda>alg key nonce p aad. ret (fallback_aeadSeal P alg key nonce p aad)),
     eb_aeadOpen = (\<lambda>alg key nonce c aad. ret (fallback_aeadOpen P alg key nonce c aad))\<rparr>"

section \<open>The taxonomy\<close>

text \<open>Whatever the packages throw, guarded operations and \<open>aeadOpen\<close> throw the exceptions of this package.\<close>

lemma fallback_exn_own: "is_ffi_exn (fallback_exn f e)"
  by (cases e) (simp_all add: fallback_exn_def)

lemma fallback_guard_own: "fallback_guard P body s = (Done (Inl e), s') \<Longrightarrow> is_ffi_exn e"
  by (cases "body s"; cases "fst (body s)")
     (auto simp: fallback_guard_def bind_comp_def dart_return_def dart_throw_def ret_def fallback_exn_own split: sum.splits)

lemma fallback_guard_run:
  "body s = (Done (Inr x), s') \<Longrightarrow> fallback_guard P body s = (Done (Inr x), s')"
  "body s = (Done (Inl e), s') \<Longrightarrow> fallback_guard P body s = (Done (Inl (fallback_exn (fp_toString P) e)), s')"
  by (simp_all add: fallback_guard_def run_simps)

lemma fallback_open_own:
  "fallback_aeadOpen P alg key nonce c aad = Inl e \<Longrightarrow> is_ffi_exn e"
  by (cases alg) (auto simp: fallback_aeadOpen_def tag_failure_def exn_bind_def require_sizes_def split: sum.splits if_splits)

text \<open>Sealing hands on what the packages throw, but for the \<open>ArgumentError\<close>s of AES-GCM.\<close>

lemma fallback_seal_passes:
  "fp_aesGcmEncrypt P key nonce p aad = Inl e \<Longrightarrow> \<not> is_argument_error e \<Longrightarrow>
     fallback_aeadSeal P AES_256_GCM key nonce p aad = Inl e"
  "length key = 32 \<Longrightarrow> length nonce = 12 \<Longrightarrow> chacha_run (fp_chacha P) True key nonce aad p = Inl e \<Longrightarrow>
     fallback_aeadSeal P CHACHA20_POLY1305 key nonce p aad = Inl e"
  by (simp_all add: fallback_aeadSeal_def require_sizes_def)

text \<open>A buffer that may hold plaintext of a failed tag is zero when \<open>_runAead\<close> throws.\<close>

lemma run_aead_zeroes: "run_aead C cipher data = (Inl e, buf) \<Longrightarrow> set buf \<subseteq> {0}"
  by (auto simp: run_aead_def Let_def split: prod.splits sum.splits if_splits)

section \<open>Interchangeable primitives\<close>

text \<open>
  Both backends implement the same standards: on keys and nonces of their sizes the packages
  compute what the native library \<open>A\<close> computes, and on data that does not authenticate they
  throw. \<open>processBytes\<close> and \<open>doFinal\<close> together leave the result in the buffer.
\<close>

definition gcm_conforms :: "('s, 'c) fallback_packages \<Rightarrow> 'k aead_lib \<Rightarrow> bool" where
  "gcm_conforms P A \<longleftrightarrow> (\<forall>key nonce aad data. length key = 32 \<longrightarrow> length nonce = 12 \<longrightarrow>
     (\<forall>c. aead_seal_spec A 0 key nonce aad data = Produce c \<longrightarrow> fp_aesGcmEncrypt P key nonce data aad = Inr c) \<and>
     (case aead_open_spec A 0 key nonce aad data of
        Produce p \<Rightarrow> fp_aesGcmDecrypt P key nonce data aad = Inr p
      | _ \<Rightarrow> \<exists>e. fp_aesGcmDecrypt P key nonce data aad = Inl e \<and> (TAG_LEN \<le> length data \<longrightarrow> \<not> is_argument_error e)))"

definition cipher_ends :: "'c chacha_poly \<Rightarrow> bool \<Rightarrow> bytes \<Rightarrow> bytes \<Rightarrow> bytes \<Rightarrow> bytes \<Rightarrow> (bytes \<Rightarrow> bool) \<Rightarrow> bool \<Rightarrow> bool" where
  "cipher_ends C enc key nonce aad data result throws \<longleftrightarrow> (\<exists>c n c' out.
     cc_init C enc key nonce aad = Inr c \<and>
     cc_processBytes C c data (replicate (cc_getOutputSize C c (length data)) 0) = (Inr (n, c'), out) \<and>
     (case cc_doFinal C c' out n of
        (Inr m, out') \<Rightarrow> n + m \<le> length out' \<and> result (take (n + m) out')
      | (Inl e, _) \<Rightarrow> throws))"

definition chacha_conforms :: "('s, 'c) fallback_packages \<Rightarrow> 'k aead_lib \<Rightarrow> bool" where
  "chacha_conforms P A \<longleftrightarrow> (\<forall>key nonce aad data. length key = 32 \<longrightarrow> length nonce = 12 \<longrightarrow>
     (\<forall>c. aead_seal_spec A 1 key nonce aad data = Produce c \<longrightarrow>
       cipher_ends (fp_chacha P) True key nonce aad data (\<lambda>bs. bs = c) False) \<and>
     (TAG_LEN \<le> length data \<longrightarrow> (case aead_open_spec A 1 key nonce aad data of
        Produce p \<Rightarrow> cipher_ends (fp_chacha P) False key nonce aad data (\<lambda>bs. bs = p) False
      | _ \<Rightarrow> cipher_ends (fp_chacha P) False key nonce aad data (\<lambda>bs. False) True)))"

lemma cipher_ends_run:
  assumes "cipher_ends C enc key nonce aad data result throws"
  shows "case chacha_run C enc key nonce aad data of Inr bs \<Rightarrow> result bs | Inl e \<Rightarrow> throws"
proof -
  obtain c n c' out where c: "cc_init C enc key nonce aad = Inr c"
      "cc_processBytes C c data (replicate (cc_getOutputSize C c (length data)) 0) = (Inr (n, c'), out)"
    and f: "case cc_doFinal C c' out n of
        (Inr m, out') \<Rightarrow> n + m \<le> length out' \<and> result (take (n + m) out')
      | (Inl e, _) \<Rightarrow> throws"
    using assms unfolding cipher_ends_def by (elim exE conjE) (rule that)
  obtain r out' where "cc_doFinal C c' out n = (r, out')" by force
  then show ?thesis using c f by (cases r) (auto simp: chacha_run_def run_aead_def Let_def)
qed

lemma cipher_ends_result:
  "cipher_ends C enc key nonce aad data (\<lambda>bs. bs = x) False \<Longrightarrow> chacha_run C enc key nonce aad data = Inr x"
  "cipher_ends C enc key nonce aad data (\<lambda>bs. False) True \<Longrightarrow> \<exists>e. chacha_run C enc key nonce aad data = Inl e"
  by (drule cipher_ends_run; cases "chacha_run C enc key nonce aad data"; simp)+

lemma require_sizes_ok [simp]: "length key = 32 \<Longrightarrow> length nonce = 12 \<Longrightarrow> require_sizes alg key nonce = Inr ()"
  by (cases alg) (simp_all add: require_sizes_def)

lemma fallback_seals:
  assumes "gcm_conforms P A" "chacha_conforms P A" "length key = 32" "length nonce = 12"
    and "aead_seal_spec A (alg_id alg) key nonce aad p = Produce c"
  shows "fallback_aeadSeal P alg key nonce p aad = Inr c"
proof (cases alg)
  case AES_256_GCM
  then have "fp_aesGcmEncrypt P key nonce p aad = Inr c" using assms unfolding gcm_conforms_def by simp
  then show ?thesis by (simp add: AES_256_GCM fallback_aeadSeal_def)
next
  case CHACHA20_POLY1305
  then have "cipher_ends (fp_chacha P) True key nonce aad p (\<lambda>bs. bs = c) False"
    using assms unfolding chacha_conforms_def by simp
  then have "chacha_run (fp_chacha P) True key nonce aad p = Inr c" by (rule cipher_ends_result)
  then show ?thesis using assms(3,4) by (simp add: CHACHA20_POLY1305 fallback_aeadSeal_def)
qed

lemma fallback_opens:
  assumes "gcm_conforms P A" "chacha_conforms P A" "length key = 32" "length nonce = 12" "TAG_LEN \<le> length c"
  shows "fallback_aeadOpen P alg key nonce c aad =
    (case aead_open_spec A (alg_id alg) key nonce aad c of Produce p \<Rightarrow> Inr p | _ \<Rightarrow> Inl tag_failure)"
proof (cases alg)
  case AES_256_GCM
  have "case aead_open_spec A 0 key nonce aad c of
        Produce p \<Rightarrow> fp_aesGcmDecrypt P key nonce c aad = Inr p
      | _ \<Rightarrow> \<exists>e. fp_aesGcmDecrypt P key nonce c aad = Inl e \<and> (TAG_LEN \<le> length c \<longrightarrow> \<not> is_argument_error e)"
    using assms unfolding gcm_conforms_def by blast
  then show ?thesis
    using assms(5) by (auto simp: AES_256_GCM fallback_aeadOpen_def split: verdict.splits)
next
  case CHACHA20_POLY1305
  have ends: "case aead_open_spec A 1 key nonce aad c of
        Produce p \<Rightarrow> cipher_ends (fp_chacha P) False key nonce aad c (\<lambda>bs. bs = p) False
      | _ \<Rightarrow> cipher_ends (fp_chacha P) False key nonce aad c (\<lambda>bs. False) True"
    using assms unfolding chacha_conforms_def by blast
  have "\<not> length c < 16" using assms(5) by (simp add: TAG_LEN_def)
  then show ?thesis
    using assms(3,4) ends
    by (cases "aead_open_spec A 1 key nonce aad c")
       (auto simp: CHACHA20_POLY1305 fallback_aeadOpen_def dest!: cipher_ends_result)
qed

text \<open>\<open>interchangeable\<close>: what the properties that span both backends assume of them.\<close>

definition interchangeable :: "(ffi_caller, 'c) fallback_packages \<Rightarrow> ('dk, 'ek) kem_lib \<Rightarrow> 'k aead_lib \<Rightarrow> bool" where
  "interchangeable P K A \<longleftrightarrow> gcm_conforms P A \<and> chacha_conforms P A \<and>
     (\<forall>a alg sk ct t. kem_known a alg \<longrightarrow> t_ok t \<longrightarrow>
       (\<exists>r t'. fp_kemDecapsulate P a sk ct t = (Done r, t') \<and> t_ok t' \<and>
          (\<forall>ss. mlkem_decapsulate_spec K alg sk ct = Produce ss \<longrightarrow> r = Inr ss)))"

end
