(* ===== verification/Dart_Interop.thy ===== *)
theory Dart_Interop
  imports Dart_Fallback
begin

text \<open>
  The two backends of \<open>lib/src/backend\<close> side by side: \<open>PqForgeStream\<close> and \<open>PqForgeEnvelope\<close> on
  either of them, and what one of them seals opened on the other.
\<close>

section \<open>One call on both backends\<close>

text \<open>\<open>same_result\<close>: the same value, or exceptions with one status code.\<close>

fun same_result :: "'a dart \<Rightarrow> 'a dart \<Rightarrow> bool" where
  "same_result (Inr x) (Inr y) \<longleftrightarrow> x = y"
| "same_result (Inl e) (Inl e') \<longleftrightarrow> exn_status e = exn_status e'"
| "same_result _ _ \<longleftrightarrow> False"

lemma aead_open_spec_sized:
  assumes "aead_keys A" "aead_quiet A" "length key = 32" "length nonce = 12" "TAG_LEN \<le> length c"
  shows "aead_open_spec A (alg_id alg) key nonce ad c = Refuse AuthFailed \<or>
    (\<exists>p. aead_open_spec A (alg_id alg) key nonce ad c = Produce p)"
proof -
  obtain kk where "unbound_key_new A alg key = ExtOk kk" using assms(1,3) unfolding aead_keys_def by metis
  moreover have "nonce_new A nonce = ExtOk nonce" using assms(2,4) by (simp add: aead_quiet_def)
  ultimately show ?thesis
    using assms(2,5) by (cases "open_in_place A kk nonce ad c") (auto simp: aead_open_spec_def on_ext_def aead_quiet_def)
qed

lemma backends_open:
  assumes "gcm_conforms P A" "chacha_conforms P A" "aead_keys A" "aead_quiet A" "open_shortens A"
    and "length key = 32" "length nonce = 12" "TAG_LEN \<le> length c"
  shows "same_result (fallback_aeadOpen P alg key nonce c ad) (aeadOpen (native_backend A) alg key nonce c ad)"
proof -
  have short: "length p \<le> length c - 16" if "aead_open_spec A (alg_id alg) key nonce ad c = Produce p" for p
    using that assms(5) unfolding open_shortens_def
    by (fastforce simp: aead_open_spec_def on_ext_def split: ext.splits if_splits)
  note both = fallback_opens [OF assms(1,2,6-8), of alg ad] native_backend_def native_aead_def
  from aead_open_spec_sized [OF assms(3,4,6-8), of alg ad] show ?thesis
  proof
    assume "aead_open_spec A (alg_id alg) key nonce ad c = Refuse AuthFailed"
    then show ?thesis by (simp add: both tag_failure_def)
  next
    assume "\<exists>p. aead_open_spec A (alg_id alg) key nonce ad c = Produce p"
    then obtain p where p: "aead_open_spec A (alg_id alg) key nonce ad c = Produce p" by blast
    then show ?thesis using short [OF p] assms(8) by (simp add: both TAG_LEN_def)
  qed
qed

lemma backends_seal:
  assumes "gcm_conforms P A" "chacha_conforms P A" "aead_keys A" "aead_correct A n"
    and "length key = 32" "length nonce = 12" "length p \<le> n"
  shows "\<exists>c. fallback_aeadSeal P alg key nonce p ad = Inr c \<and> aeadSeal (native_backend A) alg key nonce p ad = Inr c"
proof -
  obtain c where c: "aead_seal_spec A (alg_id alg) key nonce ad p = Produce c" "length c = length p + 16"
    by (rule aead_keys_round [OF assms(3,4) sizes(3) assms(5-7)])
  then show ?thesis
    using fallback_seals [OF assms(1,2,5,6) c(1)] by (simp add: native_backend_def native_aead_def)
qed

text \<open>What does not have the sizes: each backend checks in its own order.\<close>

lemma native_refusals:
  assumes "aead_keys A" "aead_quiet A"
  shows "length c < TAG_LEN \<Longrightarrow> aeadOpen (native_backend A) alg key nonce c ad =
      Inl (InvalidCiphertextException ''AEAD open: invalid ciphertext'')"
    and "TAG_LEN \<le> length c \<Longrightarrow> length key \<noteq> 32 \<or> length nonce \<noteq> 12 \<Longrightarrow> aeadOpen (native_backend A) alg key nonce c ad =
      Inl (InvalidKeyException ''AEAD open: invalid key'')"
proof -
  show "length c < TAG_LEN \<Longrightarrow> aeadOpen (native_backend A) alg key nonce c ad =
      Inl (InvalidCiphertextException ''AEAD open: invalid ciphertext'')"
    by (simp add: native_backend_def aead_open_spec_def native_aead_def)
  assume "TAG_LEN \<le> length c" "length key \<noteq> 32 \<or> length nonce \<noteq> 12"
  moreover have "unbound_key_new A alg key = ExtErr \<or> (\<exists>kk. unbound_key_new A alg key = ExtOk kk \<and> length key = 32)"
    using assms(1) unfolding aead_keys_def by metis
  ultimately have "aead_open_spec A (alg_id alg) key nonce ad c = Refuse InvalidKey"
    using assms(2) by (auto simp: aead_open_spec_def on_ext_def aead_quiet_def)
  then show "aeadOpen (native_backend A) alg key nonce c ad = Inl (InvalidKeyException ''AEAD open: invalid key'')"
    by (simp add: native_backend_def native_aead_def)
qed

lemma fallback_refusals:
  shows "length key \<noteq> 32 \<or> length nonce \<noteq> 12 \<Longrightarrow>
      \<exists>m. fallback_aeadOpen P CHACHA20_POLY1305 key nonce c ad = Inl (InvalidKeyException m)"
    and "length key = 32 \<Longrightarrow> length nonce = 12 \<Longrightarrow> length c < TAG_LEN \<Longrightarrow>
      \<exists>m. fallback_aeadOpen P CHACHA20_POLY1305 key nonce c ad = Inl (InvalidCiphertextException m)"
    and "fallback_aeadOpen P AES_256_GCM key nonce c ad = Inl e \<Longrightarrow> exn_status e \<in> {InvalidKey, AuthFailed}"
  by (auto simp: fallback_aeadOpen_def require_sizes_def TAG_LEN_def tag_failure_def split: sum.splits if_splits)

lemma gcm_short:
  assumes "gcm_conforms P A" "length key = 32" "length nonce = 12" "length c < TAG_LEN"
  shows "\<exists>e. fallback_aeadOpen P AES_256_GCM key nonce c ad = Inl e"
proof -
  have "case aead_open_spec A 0 key nonce ad c of
      Produce p \<Rightarrow> fp_aesGcmDecrypt P key nonce c ad = Inr p
    | _ \<Rightarrow> \<exists>e. fp_aesGcmDecrypt P key nonce c ad = Inl e \<and> (TAG_LEN \<le> length c \<longrightarrow> \<not> is_argument_error e)"
    using assms(1-3) unfolding gcm_conforms_def by blast
  then show ?thesis using assms(4) by (auto simp: fallback_aeadOpen_def aead_open_spec_def aead_alg_def)
qed

section \<open>Streams on either backend\<close>

definition stream_backend_of :: "backend_kind \<Rightarrow> ('s, 'c) fallback_packages \<Rightarrow> 'k aead_lib \<Rightarrow> dart_backend" where
  "stream_backend_of kind P L = (case kind of NativeKind \<Rightarrow> native_backend L | FallbackKind \<Rightarrow> fallback_backend P)"

definition fallback_ready :: "('s, 'c) fallback_packages \<times> 'k aead_lib \<times> 'k \<times> aead_algorithm \<times> bytes \<times> bytes \<Rightarrow> bool" where
  "fallback_ready = (\<lambda>(P, L, kk, alg, key, ad). gcm_conforms P L \<and> chacha_conforms P L \<and> length key = 32)"

lemma fallback_seal_frame:
  assumes "fallback_ready (P, L, kk, alg, key, ad)" "native_lawful (L, kk, alg, key, ad) n" "length p \<le> n"
  shows "dart_seal_frame (fallback_backend P) key alg ad c l p = dart_seal_frame (native_backend L) key alg ad c l p"
proof -
  have cor: "aead_correct L n" "unbound_key_new L alg key = ExtOk kk"
    and conf: "gcm_conforms P L" "chacha_conforms P L" "length key = 32"
    using assms(1,2) by (simp_all add: native_lawful_def fallback_ready_def)
  obtain f where f: "seal_append_tag L kk (dart_nonce c l 12) ad p = ExtOk f" "length f = length p + 16"
    and n: "nonce_new L (dart_nonce c l 12) = ExtOk (dart_nonce c l 12)"
    by (rule aead_correct_seal [OF cor(1) length_dart_nonce assms(3)])
  then have spec: "aead_seal_spec L (alg_id alg) key (dart_nonce c l 12) ad p = Produce f"
    using cor(2) by (simp add: aead_seal_spec_def on_ext_def)
  show ?thesis
    using fallback_seals [OF conf length_dart_nonce spec] spec f(2)
    by (simp add: dart_seal_frame_def fallback_backend_def native_backend_def native_aead_def)
qed

lemma fallback_open_frame:
  assumes "fallback_ready (P, L, kk, alg, key, ad)" "native_quiet (L, kk, alg, key, ad)" "TAG_LEN \<le> length f"
  shows "dart_open_frame (fallback_backend P) key alg ad c l f =
    (case open_in_place L kk (dart_nonce c l 12) ad f of ExtOk p \<Rightarrow> Inr p | _ \<Rightarrow> Inl tag_failure)"
proof -
  have conf: "gcm_conforms P L" "chacha_conforms P L" "length key = 32"
    and q: "aead_quiet L" "unbound_key_new L alg key = ExtOk kk"
    using assms(1,2) by (simp_all add: native_quiet_def fallback_ready_def)
  have "nonce_new L (dart_nonce c l 12) = ExtOk (dart_nonce c l 12)" using q(1) by (simp add: aead_quiet_def)
  then show ?thesis
    using fallback_opens [OF conf length_dart_nonce assms(3), of alg c l ad] q(2) assms(3)
    by (cases "open_in_place L kk (dart_nonce c l 12) ad f")
       (simp_all add: dart_open_frame_def fallback_backend_def aead_open_spec_def on_ext_def)
qed

definition any_lawful where
  "any_lawful = (\<lambda>(kind, P, x) n. native_lawful x n \<and> (kind = FallbackKind \<longrightarrow> fallback_ready (P, x)))"

definition any_quiet where
  "any_quiet = (\<lambda>(kind, P, x). native_quiet x \<and> (kind = FallbackKind \<longrightarrow> fallback_ready (P, x)))"

interpretation any_backend: frame_backend
  "\<lambda>(kind, P, L, kk, alg, key, ad). dart_seal_frame (stream_backend_of kind P L) key alg ad"
  "\<lambda>(kind, P, L, kk, alg, key, ad). dart_open_frame (stream_backend_of kind P L) key alg ad"
  "\<lambda>(kind, P, L, kk, alg, key, ad). frame_enc L kk ad" "\<lambda>(kind, P, L, kk, alg, key, ad). frame_dec L kk ad"
  any_lawful any_quiet
proof (unfold_locales, goal_cases)
  case (1 x n p c l)
  obtain kind P L kk alg key ad where x: "x = (kind, P, L, kk, alg, key, ad)" by (rule prod_cases7)
  show ?case
    using 1 native_seal_frame [of L kk alg key ad n p c l] fallback_seal_frame [of P L kk alg key ad n p c l]
    by (cases kind) (simp_all add: x any_lawful_def stream_backend_of_def)
next
  case (2 x f c l e)
  obtain kind P L kk alg key ad where x: "x = (kind, P, L, kk, alg, key, ad)" by (rule prod_cases7)
  show ?case
    using 2 native_open_frame [of L kk alg key ad f c l] fallback_open_frame [of P L kk alg key ad f c l]
    by (cases kind) (auto simp: x any_quiet_def stream_backend_of_def tag_failure_def split: ext.splits)
next
  case (3 x f c l)
  obtain kind P L kk alg key ad where x: "x = (kind, P, L, kk, alg, key, ad)" by (rule prod_cases7)
  have q: "aead_quiet L" using 3(1) by (simp add: x any_quiet_def native_quiet_def)
  show ?case
    using 3 native_open_frame [of L kk alg key ad f c l] fallback_open_frame [of P L kk alg key ad f c l] q
    by (cases kind) (auto simp: x any_quiet_def stream_backend_of_def opened_def frame_dec_def dart_nonce_native
        aead_quiet_def split: ext.splits)
qed

text \<open>The streams do not depend on the backend.\<close>

lemma any_stream_seal_run:
  assumes "aead_correct L (unat chunk)" "unbound_key_new L alg key = ExtOk kk"
    and "kind = FallbackKind \<longrightarrow> fallback_ready (P, L, kk, alg, key, ad)"
    and chunk: "chunk \<noteq> 0" "unat chunk < 2 ^ 63"
    and few: "length (plain_frames (unat chunk) (concat source)) \<le> 2 ^ 63"
  shows "dart_stream_seal (stream_backend_of kind P L) key alg (Some ad) chunk source =
    (seal_list (frame_enc L kk ad) 0 (plain_frames (unat chunk) (concat source)), Inr ())"
proof -
  have "0 < unat chunk" using chunk(1) by (simp add: unat_gt_0)
  moreover have "any_lawful (kind, P, L, kk, alg, key, ad) (unat chunk)"
    using assms(1-3) by (simp add: any_lawful_def native_lawful_def)
  ultimately show ?thesis
    using any_backend.seal_run [of "(kind, P, L, kk, alg, key, ad)"] few by (simp add: dart_stream_seal_unfold [OF chunk])
qed

lemma any_stream_open_run:
  assumes "aead_quiet L" "open_shortens L" "unbound_key_new L alg key = ExtOk kk"
    and "kind = FallbackKind \<longrightarrow> fallback_ready (P, L, kk, alg, key, ad)"
    and chunk: "chunk \<noteq> 0" "unat chunk + TAG_LEN < 2 ^ 63"
    and few: "length (blocks (unat chunk + TAG_LEN) (concat source)) \<le> 2 ^ 63"
  shows "gen_outcome (dart_stream_open (stream_backend_of kind P L) key alg (Some ad) chunk source) =
    stream_open (frame_dec L kk ad) (unat chunk + TAG_LEN) (concat source)"
proof -
  have "any_quiet (kind, P, L, kk, alg, key, ad)" using assms(1-4) by (simp add: any_quiet_def native_quiet_def)
  from any_backend.open_run [OF this _ few] show ?thesis by (simp add: dart_stream_open_unfold [OF chunk])
qed

section \<open>Envelopes between the backends\<close>

text \<open>
  A world of one native library \<open>(K, A)\<close> and one set of packages \<open>P\<close>, seen from one backend. To
  be a recipient means that encapsulation with the next randomness, on the native side that of
  the caller's state, on the other side that of the package, is one of FIPS 203.
\<close>

definition envelope_backend_of where
  "envelope_backend_of = (\<lambda>(kind, K, A, P). case kind of
     NativeKind \<Rightarrow> native_envelope_backend (K, A) | FallbackKind \<Rightarrow> fallback_envelope_backend P)"

definition same_world where
  "same_world = (\<lambda>(kind, K, A, P) (kind', K', A', P'). K = K' \<and> A = A' \<and> P = P' \<and>
     (kind = FallbackKind \<or> kind' = FallbackKind \<longrightarrow> interchangeable P K A))"

definition fallback_recipient where
  "fallback_recipient = (\<lambda>(K, P) a pk sk s. \<exists>alg good g g' ct ss s'. kem_known a alg \<and> kem_correct K alg good \<and>
     kem_sizes K alg (kem_publicKeyBytes a) (kem_secretKeyBytes a) (kem_ciphertextBytes a) (kem_sharedSecretBytes a) \<and>
     mlkem_keygen_spec K alg g = Produce (pk, sk) \<and> good g g' \<and>
     mlkem_encapsulate_spec K alg pk g' = Produce (ct, ss) \<and>
     fp_kemEncapsulate P a pk s = (Done (Inr (ct, ss)), s') \<and> t_ok s')"

definition any_recipient where
  "any_recipient = (\<lambda>(kind, K, A, P) a pk sk s. case kind of
     NativeKind \<Rightarrow> native_recipient (K, A) a pk sk s | FallbackKind \<Rightarrow> fallback_recipient (K, P) a pk sk s)"

lemma fallback_decapsulates:
  assumes "interchangeable P K A" "kem_known a alg" "t_ok t"
  shows "\<exists>r t'. fallback_kemDecapsulate P a sk ct t = (Done r, t') \<and> t_ok t' \<and>
    (\<forall>ss. mlkem_decapsulate_spec K alg sk ct = Produce ss \<longrightarrow> r = Inr ss)"
proof -
  obtain r t' where "fp_kemDecapsulate P a sk ct t = (Done r, t')" "t_ok t'"
    "\<forall>ss. mlkem_decapsulate_spec K alg sk ct = Produce ss \<longrightarrow> r = Inr ss"
    using assms unfolding interchangeable_def by blast
  then show ?thesis by (cases r) (auto simp: fallback_kemDecapsulate_def fallback_guard_run)
qed

text \<open>Either side decapsulates what FIPS 203 encapsulates.\<close>

lemma decapsulates_on:
  assumes "kem_known a alg" "kem_correct K alg good" "good g g'"
    and "kem_sizes K alg (kem_publicKeyBytes a) (kem_secretKeyBytes a) (kem_ciphertextBytes a) (kem_sharedSecretBytes a)"
    and "mlkem_keygen_spec K alg g = Produce (pk, sk)" "mlkem_encapsulate_spec K alg pk g' = Produce (ct, ss)"
    and "kind = FallbackKind \<longrightarrow> interchangeable P K A" "t_ok t"
  shows "\<exists>t'. eb_kemDecapsulate (envelope_backend_of (kind, K, A, P)) a sk ct t = (Done (Inr ss), t') \<and> t_ok t'"
proof -
  have d: "mlkem_decapsulate_spec K alg sk ct = Produce ss" by (rule kem_agrees [OF assms(2,5,6,3)])
  have len: "length ct = kem_ciphertextBytes a" "length ss = kem_sharedSecretBytes a" "length sk = kem_secretKeyBytes a"
    using assms(4-6) unfolding kem_sizes_def by (metis verdict.inject(2) prod.inject)+
  then have small: "short [sk, ct]" using assms(1) by (simp add: kem_known_def)
  show ?thesis
  proof (cases kind)
    case NativeKind
    then show ?thesis
      using native_kemDecapsulate_yields [OF assms(8,1) small, of K] d len(2)
      by (auto simp: envelope_backend_of_def native_envelope_backend_def yields_def)
  next
    case FallbackKind
    then show ?thesis
      using fallback_decapsulates [OF _ assms(1,8), of P K A sk ct] assms(7) d
      by (auto simp: envelope_backend_of_def fallback_envelope_backend_def)
  qed
qed

lemma encapsulates_on:
  assumes "t_ok s" "any_recipient (kind, K, A, P) a pk sk s" "same_world (kind, K, A, P) (kind', K, A, P)"
  shows "\<exists>ct ss s'. eb_kemEncapsulate (envelope_backend_of (kind, K, A, P)) a pk s = (Done (Inr (ct, ss)), s') \<and> t_ok s' \<and>
    length ct = kem_ciphertextBytes a \<and>
    (\<forall>t. t_ok t \<longrightarrow> (\<exists>t'. eb_kemDecapsulate (envelope_backend_of (kind', K, A, P)) a sk ct t = (Done (Inr ss), t') \<and> t_ok t'))"
proof -
  have w: "kind' = FallbackKind \<longrightarrow> interchangeable P K A" using assms(3) by (simp add: same_world_def)
  obtain alg good g g' ct ss s' where k: "kem_known a alg" "kem_correct K alg good" "good g g'"
    and sz: "kem_sizes K alg (kem_publicKeyBytes a) (kem_secretKeyBytes a) (kem_ciphertextBytes a) (kem_sharedSecretBytes a)"
    and g: "mlkem_keygen_spec K alg g = Produce (pk, sk)" "mlkem_encapsulate_spec K alg pk g' = Produce (ct, ss)"
    and run: "eb_kemEncapsulate (envelope_backend_of (kind, K, A, P)) a pk s = (Done (Inr (ct, ss)), s')" "t_ok s'"
  proof (cases kind)
    case NativeKind
    then obtain alg good g where k: "kem_known a alg" "kem_correct K alg good" "good g (rng (t_world s))"
      and sz: "kem_sizes K alg (kem_publicKeyBytes a) (kem_secretKeyBytes a) (kem_ciphertextBytes a) (kem_sharedSecretBytes a)"
      and g: "mlkem_keygen_spec K alg g = Produce (pk, sk)"
      using assms(2) by (auto simp: any_recipient_def native_recipient_def)
    obtain ct ss where e: "mlkem_encapsulate_spec K alg pk (rng (t_world s)) = Produce (ct, ss)"
      and len: "length ct = kem_ciphertextBytes a" "length ss = kem_sharedSecretBytes a" "length pk = kem_publicKeyBytes a"
      using sz g unfolding kem_sizes_def by (metis verdict.inject(2) prod.inject)
    have "length pk \<le> isize_max" using k(1) len(3) by (simp add: kem_known_def)
    then obtain s' where "native_kemEncapsulate K a pk s = (Done (Inr (ct, ss)), s')" "t_ok s'"
      using native_kemEncapsulate_yields [OF assms(1) k(1), of pk K] len(1,2) by (auto simp: yields_def e native_pair_def)
    then show ?thesis
      by (intro that [OF k sz g e]) (simp_all add: NativeKind envelope_backend_of_def native_envelope_backend_def)
  next
    case FallbackKind
    then obtain alg good g g' ct ss s' where k: "kem_known a alg" "kem_correct K alg good" "good g g'"
      and sz: "kem_sizes K alg (kem_publicKeyBytes a) (kem_secretKeyBytes a) (kem_ciphertextBytes a) (kem_sharedSecretBytes a)"
      and g: "mlkem_keygen_spec K alg g = Produce (pk, sk)" "mlkem_encapsulate_spec K alg pk g' = Produce (ct, ss)"
      and run: "fp_kemEncapsulate P a pk s = (Done (Inr (ct, ss)), s')" "t_ok s'"
      using assms(2) unfolding any_recipient_def fallback_recipient_def by auto
    show ?thesis
      by (rule that [OF k sz g])
         (use run in \<open>simp_all add: FallbackKind envelope_backend_of_def fallback_envelope_backend_def
            fallback_kemEncapsulate_def fallback_guard_run\<close>)
  qed
  have "length ct = kem_ciphertextBytes a"
    using sz g unfolding kem_sizes_def by (metis verdict.inject(2) prod.inject)
  then show ?thesis using run decapsulates_on [OF k sz g w] by blast
qed

text \<open>Texts that fit are sealed by either side and opened by the other.\<close>

lemma seals_on:
  assumes "t_ok s" "same_world (kind, K, A, P) (kind', K, A, P)" "native_sealing (K, A) n"
    and "length key = 32" "length nonce = 12" "length p \<le> n" "length ad \<le> isize_max"
  shows "\<exists>c s'. eb_aeadSeal (envelope_backend_of (kind, K, A, P)) alg key nonce p ad s = (Done (Inr c), s') \<and> t_ok s' \<and>
    (\<forall>t. t_ok t \<longrightarrow> (\<exists>t'. eb_aeadOpen (envelope_backend_of (kind', K, A, P)) alg key nonce c ad t = (Done (Inr p), t') \<and> t_ok t'))"
proof -
  have law: "aead_correct A n" "aead_keys A" "n + 16 \<le> isize_max" using assms(3) by (simp_all add: native_sealing_def)
  obtain c where c: "aead_seal_spec A (alg_id alg) key nonce ad p = Produce c" "length c = length p + 16"
    "aead_open_spec A (alg_id alg) key nonce ad c = Produce p"
    by (rule aead_keys_round [OF law(2,1) sizes(3) assms(4-6)])
  have small: "short [key, nonce, ad]" "length p + 16 \<le> isize_max" "short [key, nonce, ad, c]"
    using assms(4-7) law(3) c(2) by (simp_all add: isize_small)
  have conf: "gcm_conforms P A" "chacha_conforms P A" if "kind = FallbackKind \<or> kind' = FallbackKind"
    using assms(2) that by (auto simp: same_world_def interchangeable_def)
  have tag: "TAG_LEN \<le> length c" using c(2) by (simp add: TAG_LEN_def)
  have opens: "\<exists>t'. eb_aeadOpen (envelope_backend_of (kind', K, A, P)) alg key nonce c ad t = (Done (Inr p), t') \<and> t_ok t'"
    if "t_ok t" for t
  proof (cases kind')
    case NativeKind
    then show ?thesis
      using native_aeadOpen_yields [OF that small(3), of A alg] c(2,3)
      by (auto simp: yields_def native_backend_def envelope_backend_of_def native_envelope_backend_def)
  next
    case FallbackKind
    then show ?thesis
      using fallback_opens [OF conf assms(4,5) tag, of alg ad] c(3) that
      by (simp add: envelope_backend_of_def fallback_envelope_backend_def ret_def)
  qed
  show ?thesis
  proof (cases kind)
    case NativeKind
    then show ?thesis
      using native_aeadSeal_yields [OF assms(1) small(1,2), of A alg] c(1,2) opens
      by (auto simp: yields_def native_backend_def envelope_backend_of_def native_envelope_backend_def)
  next
    case FallbackKind
    then show ?thesis
      using fallback_seals [OF conf assms(4,5) c(1)] opens assms(1)
      by (simp add: envelope_backend_of_def fallback_envelope_backend_def ret_def)
  qed
qed

text \<open>What the packages open, the native library opens too.\<close>

lemma fallback_accepts:
  assumes "interchangeable P K A" "length key = 32" "length nonce = 12"
    and "fallback_aeadOpen P alg key nonce c ad = Inr p"
  shows "native_accepts (K, A) alg key nonce ad c p"
proof -
  have conf: "gcm_conforms P A" "chacha_conforms P A" using assms(1) by (simp_all add: interchangeable_def)
  have "TAG_LEN \<le> length c"
  proof (rule ccontr)
    assume short: "\<not> TAG_LEN \<le> length c"
    show False
    proof (cases alg)
      case AES_256_GCM
      then show False using gcm_short [OF conf(1) assms(2,3), of c ad] assms(4) short by auto
    next
      case CHACHA20_POLY1305
      then show False using assms(2-4) short by (simp add: fallback_aeadOpen_def TAG_LEN_def)
    qed
  qed
  from fallback_opens [OF conf assms(2,3) this, of alg ad] assms(4)
  have "aead_open_spec A (alg_id alg) key nonce ad c = Produce p" by (simp split: verdict.splits)
  from aead_open_spec_Produce [OF this] show ?thesis by (auto simp: native_accepts_def)
qed

interpretation dem: kem_dem envelope_backend_of t_ok same_world
  "\<lambda>(kind, K, A, P). native_known (K, A)" any_recipient "\<lambda>(kind, K, A, P). native_sealing (K, A)"
  "\<lambda>(kind, K, A, P). native_accepts (K, A)"
proof (unfold_locales, goal_cases)
  case (1 s x y a pk sk)
  obtain kind K A P kind' where x: "x = (kind, K, A, P)" "y = (kind', K, A, P)"
    using 1(2) by (auto simp: same_world_def)
  show ?case using encapsulates_on [OF 1(1) 1(3) [unfolded x] 1(2) [unfolded x]] by (simp only: x)
next
  case (2 t x a sk ct)
  obtain kind K A P where x: "x = (kind, K, A, P)" by (rule prod_cases4)
  obtain alg where k: "kem_known a alg" using 2(3) by (auto simp: x native_known_def)
  show ?case
    using native_decapsulates [OF 2(1) k 2(4), of K] fallback_decapsulates [OF _ k 2(1), of P K A sk ct] 2(2)
    by (cases kind) (auto simp: x envelope_backend_of_def native_envelope_backend_def fallback_envelope_backend_def same_world_def)
next
  case (3 s x y n key alg nonce p ad)
  obtain kind K A P kind' where x: "x = (kind, K, A, P)" "y = (kind', K, A, P)"
    using 3(2) by (auto simp: same_world_def)
  have "native_sealing (K, A) n" "length key = 32" "length nonce = 12" using 3(3-5) by (cases alg; simp add: x)+
  from seals_on [OF 3(1) 3(2) [unfolded x] this 3(6,7)] show ?case by (simp only: x)
next
  case (4 s x ad c key alg nonce)
  obtain kind K A P where x: "x = (kind, K, A, P)" by (rule prod_cases4)
  have len: "length key = 32" "length nonce = 12" using 4(4,5) by (cases alg; simp)+
  then have "short [key, nonce, ad, c]" using 4(3) by (simp add: isize_small)
  then show ?case
    using native_opens [OF 4(1), of key nonce ad c A alg K] fallback_accepts [OF _ len, of P K A alg c ad] 4(1,2)
    by (cases kind) (auto simp: x envelope_backend_of_def native_envelope_backend_def fallback_envelope_backend_def same_world_def ret_def)
qed

end
