(* ===== verification/Dart_Api.thy ===== *)
theory Dart_Api
  imports Dart_Selector Dart_Interop
begin

text \<open>
  \<open>PqForgeBackend\<close> (\<open>backend/backend.dart\<close>) with its two implementations, the pass-throughs of
  \<open>PqForge\<close> (\<open>backend/selector.dart\<close>) over the backend it resolved, and what a key pair made
  behind one of them is worth behind the other.
\<close>

section \<open>The interface and its implementations\<close>

record 's pq_backend =
  pb_kind :: backend_kind
  pb_abiVersion :: c_int
  pb_kemGenerate :: "pq_kem \<Rightarrow> ('s, (bytes \<times> bytes) dart) comp"
  pb_signGenerate :: "pq_sig \<Rightarrow> ('s, (bytes \<times> bytes) dart) comp"
  pb_sign :: "pq_sig \<Rightarrow> bytes \<Rightarrow> bytes \<Rightarrow> ('s, bytes dart) comp"
  pb_verify :: "pq_sig \<Rightarrow> bytes \<Rightarrow> bytes \<Rightarrow> bytes \<Rightarrow> ('s, bool dart) comp"
  pb_envelope :: "'s envelope_backend"
  pb_stream :: dart_backend

text \<open>
  The four operations an envelope uses are the record \<open>envelope_backend\<close>; what a stream sees of \<open>aeadSeal\<close>
  and \<open>aeadOpen\<close>, their results, is \<open>dart_backend\<close>. \<open>backend_behind\<close>: the backend an instance
  resolved to, in a process with the library \<open>(K, A, D)\<close> and the packages \<open>F\<close>.
\<close>

definition answers :: "bool ffi \<Rightarrow> bool dart ffi" where
  "answers m = bind_comp m dart_return"

definition native_pq_backend ::
  "('dk, 'ek) kem_lib \<times> 'k aead_lib \<times> 'kp dsa_lib \<Rightarrow> ffi_caller pq_backend" where
  "native_pq_backend = (\<lambda>(K, A, D).
    \<lparr>pb_kind = NativeKind, pb_abiVersion = pqforge_abi_version,
     pb_kemGenerate = native_kemGenerate K, pb_signGenerate = native_signGenerate D,
     pb_sign = native_sign D, pb_verify = (\<lambda>a pk msg sg. answers (native_verify D a pk msg sg)),
     pb_envelope = native_envelope_backend (K, A), pb_stream = native_backend A\<rparr>)"

definition fallback_pq_backend :: "('s, 'c) fallback_packages \<Rightarrow> 's pq_backend" where
  "fallback_pq_backend F =
    \<lparr>pb_kind = FallbackKind, pb_abiVersion = kPqForgeAbiVersion,
     pb_kemGenerate = fallback_kemGenerate F, pb_signGenerate = fallback_signGenerate F,
     pb_sign = fallback_sign F, pb_verify = fallback_verify F,
     pb_envelope = fallback_envelope_backend F, pb_stream = fallback_backend F\<rparr>"

definition backend_behind where
  "backend_behind = (\<lambda>(K, A, D, F) b. case b of
     Native _ \<Rightarrow> native_pq_backend (K, A, D) | Fallback \<Rightarrow> fallback_pq_backend F)"

section \<open>\<open>PqForge\<close> over its backend\<close>

definition api_generateKemKeyPair :: "'s pq_backend \<Rightarrow> pq_kem \<Rightarrow> ('s, (bytes \<times> bytes) dart) comp" where
  "api_generateKemKeyPair backend a = pb_kemGenerate backend a"

definition api_encapsulate :: "'s pq_backend \<Rightarrow> pq_kem \<Rightarrow> bytes \<Rightarrow> ('s, (bytes \<times> bytes) dart) comp" where
  "api_encapsulate backend a publicKey = eb_kemEncapsulate (pb_envelope backend) a publicKey"

definition api_decapsulate :: "'s pq_backend \<Rightarrow> pq_kem \<Rightarrow> bytes \<Rightarrow> bytes \<Rightarrow> ('s, bytes dart) comp" where
  "api_decapsulate backend a secretKey ciphertext = eb_kemDecapsulate (pb_envelope backend) a secretKey ciphertext"

definition api_generateSignatureKeyPair :: "'s pq_backend \<Rightarrow> pq_sig \<Rightarrow> ('s, (bytes \<times> bytes) dart) comp" where
  "api_generateSignatureKeyPair backend a = pb_signGenerate backend a"

definition api_sign :: "'s pq_backend \<Rightarrow> pq_sig \<Rightarrow> bytes \<Rightarrow> bytes \<Rightarrow> ('s, bytes dart) comp" where
  "api_sign backend a secretKey message = pb_sign backend a secretKey message"

definition api_verify :: "'s pq_backend \<Rightarrow> pq_sig \<Rightarrow> bytes \<Rightarrow> bytes \<Rightarrow> bytes \<Rightarrow> ('s, bool dart) comp" where
  "api_verify backend a publicKey message signature = pb_verify backend a publicKey message signature"

definition api_aeadSeal ::
  "'s pq_backend \<Rightarrow> aead_algorithm \<Rightarrow> bytes \<Rightarrow> bytes \<Rightarrow> bytes \<Rightarrow> bytes \<Rightarrow> ('s, bytes dart) comp" where
  "api_aeadSeal backend alg key nonce plaintext aad = eb_aeadSeal (pb_envelope backend) alg key nonce plaintext aad"

definition api_aeadOpen ::
  "'s pq_backend \<Rightarrow> aead_algorithm \<Rightarrow> bytes \<Rightarrow> bytes \<Rightarrow> bytes \<Rightarrow> bytes \<Rightarrow> ('s, bytes dart) comp" where
  "api_aeadOpen backend alg key nonce ciphertext aad = eb_aeadOpen (pb_envelope backend) alg key nonce ciphertext aad"

definition api_sealEnvelope ::
  "'s pqforge_package \<Rightarrow> 's pq_backend \<Rightarrow> pq_kem \<Rightarrow> bytes \<Rightarrow> bytes \<Rightarrow> bytes option \<Rightarrow> ('s, bytes dart) comp" where
  "api_sealEnvelope P backend a recipientPublicKey plaintext aad =
    envelope_seal P (pb_envelope backend) a recipientPublicKey plaintext aad"

definition api_openEnvelope ::
  "'s pqforge_package \<Rightarrow> 's pq_backend \<Rightarrow> bytes \<Rightarrow> bytes \<Rightarrow> bytes option \<Rightarrow> ('s, bytes dart) comp" where
  "api_openEnvelope P backend recipientSecretKey envelope aad =
    envelope_open P (pb_envelope backend) recipientSecretKey envelope aad"

definition api_stream :: "'s pq_backend \<Rightarrow> dart_backend" where
  "api_stream backend = pb_stream backend"

lemmas api_defs = api_generateKemKeyPair_def api_encapsulate_def api_decapsulate_def api_generateSignatureKeyPair_def
  api_sign_def api_verify_def api_aeadSeal_def api_aeadOpen_def api_sealEnvelope_def api_openEnvelope_def api_stream_def

lemma backend_behind_envelope: "pb_envelope (backend_behind (K, A, D, F) b) = envelope_backend_of (kind_of b, K, A, F)"
  by (cases b) (simp_all add: backend_behind_def native_pq_backend_def fallback_pq_backend_def envelope_backend_of_def)

section \<open>Operations that keep FIPS 203 and FIPS 204\<close>

text \<open>
  \<open>kem_ops\<close>: key generation and encapsulation return what the standard (here: the library \<open>K\<close>)
  gives for some randomness, and decapsulation recovers the secret of any such encapsulation.
  \<open>dsa_ops\<close>: the same of signatures, for messages that fit into memory.
\<close>

definition kem_ops ::
  "('dk, 'ek) kem_lib \<Rightarrow> kem_algorithm \<Rightarrow> (bytes \<times> bytes) dart ffi \<Rightarrow> (bytes \<Rightarrow> (bytes \<times> bytes) dart ffi) \<Rightarrow>
    (bytes \<Rightarrow> bytes \<Rightarrow> bytes dart ffi) \<Rightarrow> bool" where
  "kem_ops K alg gen enc dec \<longleftrightarrow> (\<forall>t. t_ok t \<longrightarrow>
     (\<exists>g pk sk t'. gen t = (Done (Inr (pk, sk)), t') \<and> t_ok t' \<and> mlkem_keygen_spec K alg g = Produce (pk, sk)) \<and>
     (\<forall>g pk sk. mlkem_keygen_spec K alg g = Produce (pk, sk) \<longrightarrow>
       (\<exists>g' ct ss t'. enc pk t = (Done (Inr (ct, ss)), t') \<and> t_ok t' \<and>
          mlkem_encapsulate_spec K alg pk g' = Produce (ct, ss)) \<and>
       (\<forall>g' ct ss. mlkem_encapsulate_spec K alg pk g' = Produce (ct, ss) \<longrightarrow>
          (\<exists>t'. dec sk ct t = (Done (Inr ss), t') \<and> t_ok t'))))"

definition dsa_ops ::
  "'kp dsa_lib \<Rightarrow> c_int \<Rightarrow> dsa_algorithm \<Rightarrow> (bytes \<times> bytes) dart ffi \<Rightarrow> (bytes \<Rightarrow> bytes \<Rightarrow> bytes dart ffi) \<Rightarrow>
    (bytes \<Rightarrow> bytes \<Rightarrow> bytes \<Rightarrow> bool dart ffi) \<Rightarrow> bool" where
  "dsa_ops D aid alg gen sig ver \<longleftrightarrow> (\<forall>t. t_ok t \<longrightarrow>
     (\<exists>g pk sk t'. gen t = (Done (Inr (pk, sk)), t') \<and> t_ok t' \<and> mldsa_keygen_spec D alg g = Produce (pk, sk)) \<and>
     (\<forall>g pk sk msg. mldsa_keygen_spec D alg g = Produce (pk, sk) \<and> length msg \<le> isize_max \<longrightarrow>
       (\<exists>g' sg t'. sig sk msg t = (Done (Inr sg), t') \<and> t_ok t' \<and> mldsa_sign_spec D alg sk msg g' = Produce sg) \<and>
       (\<forall>g' sg. mldsa_sign_spec D alg sk msg g' = Produce sg \<longrightarrow>
          (\<exists>t'. ver pk msg sg t = (Done (Inr True), t') \<and> t_ok t'))))"

text \<open>A key pair, encapsulated to by one party and decapsulated by another; signed with and verified.\<close>

lemma kem_ops_agree:
  assumes "kem_ops K alg gen enc dec" "kem_ops K alg gen' enc' dec'" "kem_ops K alg gen'' enc'' dec''" "t_ok t"
  shows "\<exists>pk sk t1. gen t = (Done (Inr (pk, sk)), t1) \<and> t_ok t1 \<and> (\<forall>u. t_ok u \<longrightarrow>
    (\<exists>ct ss u'. enc' pk u = (Done (Inr (ct, ss)), u') \<and> t_ok u' \<and>
      (\<forall>v. t_ok v \<longrightarrow> (\<exists>v'. dec'' sk ct v = (Done (Inr ss), v') \<and> t_ok v'))))"
proof -
  obtain g pk sk t1 where g: "gen t = (Done (Inr (pk, sk)), t1)" "t_ok t1" "mlkem_keygen_spec K alg g = Produce (pk, sk)"
    using assms(1,4) unfolding kem_ops_def by blast
  have "\<exists>ct ss u'. enc' pk u = (Done (Inr (ct, ss)), u') \<and> t_ok u' \<and>
      (\<forall>v. t_ok v \<longrightarrow> (\<exists>v'. dec'' sk ct v = (Done (Inr ss), v') \<and> t_ok v'))" if u: "t_ok u" for u
  proof -
    obtain g' ct ss u' where e: "enc' pk u = (Done (Inr (ct, ss)), u')" "t_ok u'"
        "mlkem_encapsulate_spec K alg pk g' = Produce (ct, ss)"
      using assms(2) u g(3) unfolding kem_ops_def by blast
    moreover have "\<exists>v'. dec'' sk ct v = (Done (Inr ss), v') \<and> t_ok v'" if "t_ok v" for v
      using assms(3) that g(3) e(3) unfolding kem_ops_def by blast
    ultimately show ?thesis by blast
  qed
  with g(1,2) show ?thesis by blast
qed

lemma dsa_ops_use:
  assumes "dsa_ops D aid alg gen sig ver" "dsa_ops D aid alg gen' sig' ver'"
    and key: "mldsa_keygen_spec D alg g = Produce (pk, sk)" and msg: "length msg \<le> isize_max" and u: "t_ok u"
  shows "\<exists>sg u'. sig sk msg u = (Done (Inr sg), u') \<and> t_ok u' \<and>
    (\<forall>v. t_ok v \<longrightarrow> (\<exists>v'. ver' pk msg sg v = (Done (Inr True), v') \<and> t_ok v'))"
proof -
  obtain g' sg u' where e: "sig sk msg u = (Done (Inr sg), u')" "t_ok u'" "mldsa_sign_spec D alg sk msg g' = Produce sg"
    using assms(1) u key msg unfolding dsa_ops_def by blast
  moreover have "\<exists>v'. ver' pk msg sg v = (Done (Inr True), v') \<and> t_ok v'" if "t_ok v" for v
    using assms(2) that key msg e(3) unfolding dsa_ops_def by blast
  ultimately show ?thesis by blast
qed

text \<open>The native backend, over a library that implements the standards and whose sizes the enum knows.\<close>

definition kem_implements :: "('dk, 'ek) kem_lib \<Rightarrow> pq_kem \<Rightarrow> kem_algorithm \<Rightarrow> bool" where
  "kem_implements K a alg \<longleftrightarrow> kem_known a alg \<and> kem_correct K alg (\<lambda>_ _. True) \<and>
     kem_sizes K alg (kem_publicKeyBytes a) (kem_secretKeyBytes a) (kem_ciphertextBytes a) (kem_sharedSecretBytes a)"

definition dsa_implements :: "'kp dsa_lib \<Rightarrow> pq_sig \<Rightarrow> dsa_algorithm \<Rightarrow> bool" where
  "dsa_implements D a alg \<longleftrightarrow> sig_known a alg \<and> dsa_correct D alg \<and>
     dsa_sizes D (of_nat (sig_index a)) alg (sig_publicKeyBytes a) (sig_secretKeyBytes a) (sig_signatureBytes a)"

lemma kem_produced_lengths:
  assumes "kem_sizes K alg n m k l" "mlkem_keygen_spec K alg g = Produce (pk, sk)"
  shows "length pk = n" "length sk = m"
    and "mlkem_encapsulate_spec K alg pk g' = Produce (ct, ss) \<Longrightarrow> length ct = k \<and> length ss = l"
    and "\<exists>ct ss. mlkem_encapsulate_spec K alg pk g' = Produce (ct, ss) \<and> length ct = k \<and> length ss = l"
  using assms unfolding kem_sizes_def by (metis verdict.inject(2) prod.inject)+

lemma native_kem_ops:
  assumes "kem_implements K a alg"
  shows "kem_ops K alg (native_kemGenerate K a) (native_kemEncapsulate K a) (native_kemDecapsulate K a)"
  unfolding kem_ops_def
proof (intro allI impI conjI)
  fix t :: ffi_caller
  assume t: "t_ok t"
  have k: "kem_known a alg" and c: "kem_correct K alg (\<lambda>_ _. True)"
    and sz: "kem_sizes K alg (kem_publicKeyBytes a) (kem_secretKeyBytes a) (kem_ciphertextBytes a) (kem_sharedSecretBytes a)"
    using assms by (simp_all add: kem_implements_def)
  have fit: "kem_publicKeyBytes a \<le> isize_max" "kem_secretKeyBytes a \<le> isize_max" "kem_ciphertextBytes a \<le> isize_max"
    using k by (simp_all add: kem_known_def)
  obtain pk sk where "mlkem_keygen_spec K alg (rng (t_world t)) = Produce (pk, sk)"
    "length pk = kem_publicKeyBytes a" "length sk = kem_secretKeyBytes a"
    by (rule kem_sizes_keygen [OF sz])
  then show "\<exists>g pk sk t'. native_kemGenerate K a t = (Done (Inr (pk, sk)), t') \<and> t_ok t' \<and>
      mlkem_keygen_spec K alg g = Produce (pk, sk)"
    using native_kemGenerate_yields [OF t k, of K] by (auto simp: yields_def native_pair_def)
  fix g pk sk
  assume g: "mlkem_keygen_spec K alg g = Produce (pk, sk)"
  note len = kem_produced_lengths [OF sz g]
  obtain ct ss where e: "mlkem_encapsulate_spec K alg pk (rng (t_world t)) = Produce (ct, ss)"
    "length ct = kem_ciphertextBytes a" "length ss = kem_sharedSecretBytes a"
    using len(4) by blast
  have "length pk \<le> isize_max" using len(1) fit(1) by simp
  from native_kemEncapsulate_yields [OF t k this, of K]
  show "\<exists>g' ct ss t'. native_kemEncapsulate K a pk t = (Done (Inr (ct, ss)), t') \<and> t_ok t' \<and>
      mlkem_encapsulate_spec K alg pk g' = Produce (ct, ss)"
    using e by (auto simp: yields_def native_pair_def)
  fix g' ct ss
  assume e: "mlkem_encapsulate_spec K alg pk g' = Produce (ct, ss)"
  have "short [sk, ct]" using len(2) len(3) [OF e] fit by simp
  from native_kemDecapsulate_yields [OF t k this, of K] kem_agrees [OF c g e] len(3) [OF e]
  show "\<exists>t'. native_kemDecapsulate K a sk ct t = (Done (Inr ss), t') \<and> t_ok t'"
    by (auto simp: yields_def)
qed

lemma native_dsa_ops:
  assumes "dsa_implements D a alg"
  shows "dsa_ops D (of_nat (sig_index a)) alg (native_signGenerate D a) (native_sign D a)
    (\<lambda>pk msg sg. answers (native_verify D a pk msg sg))"
  unfolding dsa_ops_def
proof (intro allI impI conjI)
  fix t :: ffi_caller
  assume t: "t_ok t"
  have k: "sig_known a alg" and c: "dsa_correct D alg"
    and sz: "dsa_sizes D (of_nat (sig_index a)) alg (sig_publicKeyBytes a) (sig_secretKeyBytes a) (sig_signatureBytes a)"
    using assms by (simp_all add: dsa_implements_def)
  have fit: "sig_publicKeyBytes a \<le> isize_max" "sig_secretKeyBytes a \<le> isize_max" "sig_signatureBytes a \<le> isize_max"
    and aid: "dsa_alg (of_nat (sig_index a)) = Some alg"
    using k by (simp_all add: sig_known_def)
  obtain pk sk where "mldsa_keygen_spec D alg (rng (t_world t)) = Produce (pk, sk)"
    "length pk = sig_publicKeyBytes a" "length sk = sig_secretKeyBytes a"
    using sz unfolding dsa_sizes_def by metis
  then show "\<exists>g pk sk t'. native_signGenerate D a t = (Done (Inr (pk, sk)), t') \<and> t_ok t' \<and>
      mldsa_keygen_spec D alg g = Produce (pk, sk)"
    using native_signGenerate_yields [OF t k, of D] by (auto simp: yields_def native_pair_def)
  fix g pk sk and msg :: bytes
  assume *: "mldsa_keygen_spec D alg g = Produce (pk, sk) \<and> length msg \<le> isize_max"
  then have g: "mldsa_keygen_spec D alg g = Produce (pk, sk)" by simp
  obtain sg where s: "mldsa_sign_spec D alg sk msg (rng (t_world t)) = Produce sg"
    using sz g unfolding dsa_sizes_def by (metis verdict.inject(2) prod.inject)
  note len = dsa_produced_lengths [OF sz g]
  have "short [sk, msg]" using len(2) [OF s] fit * by simp
  from native_sign_yields [OF t k this, of D] s len(3) [OF s]
  show "\<exists>g' sg t'. native_sign D a sk msg t = (Done (Inr sg), t') \<and> t_ok t' \<and> mldsa_sign_spec D alg sk msg g' = Produce sg"
    by (auto simp: yields_def)
  fix g' sg
  assume s: "mldsa_sign_spec D alg sk msg g' = Produce sg"
  have "short [pk, msg, sg]" using len(1,3) [OF s] fit * by simp
  from native_verify_yields [OF t this, of D a] dsa_signed_verifies [OF c aid g s]
  show "\<exists>t'. answers (native_verify D a pk msg sg) t = (Done (Inr True), t') \<and> t_ok t'"
    by (auto simp: yields_def answers_def dart_return_def run_simps)
qed

text \<open>The guard of the fallback passes results on.\<close>

lemma fallback_kem_ops:
  assumes "kem_ops K alg (fp_kemGenerate F a) (fp_kemEncapsulate F a) (fp_kemDecapsulate F a)"
  shows "kem_ops K alg (fallback_kemGenerate F a) (fallback_kemEncapsulate F a) (fallback_kemDecapsulate F a)"
  using assms unfolding kem_ops_def fallback_kemGenerate_def fallback_kemEncapsulate_def fallback_kemDecapsulate_def
  by (blast intro: fallback_guard_run(1))

lemma fallback_dsa_ops:
  assumes "dsa_ops D aid alg (fp_signGenerate F a) (fp_sign F a) (fp_verify F a)"
  shows "dsa_ops D aid alg (fallback_signGenerate F a) (fallback_sign F a) (fallback_verify F a)"
  using assms unfolding dsa_ops_def fallback_signGenerate_def fallback_sign_def fallback_verify_def
  by (blast intro: fallback_guard_run(1))

section \<open>Sessions\<close>

text \<open>
  Both implementations keep the standards: the native library does, and the packages behind
  the fallback give what the same library gives for some randomness.
\<close>

definition standards_kept where
  "standards_kept = (\<lambda>(K, A, D, F) a alg b dalg. kem_implements K a alg \<and> dsa_implements D b dalg \<and> interchangeable F K A \<and>
     kem_ops K alg (fp_kemGenerate F a) (fp_kemEncapsulate F a) (fp_kemDecapsulate F a) \<and>
     dsa_ops D (of_nat (sig_index b)) dalg (fp_signGenerate F b) (fp_sign F b) (fp_verify F b))"

lemma behind_kem_ops:
  assumes "standards_kept (K, A, D, F) a alg b dalg"
  defines "B r \<equiv> backend_behind (K, A, D, F) r"
  shows "kem_ops K alg (api_generateKemKeyPair (B r) a) (api_encapsulate (B r) a) (api_decapsulate (B r) a)"
  using assms(1) native_kem_ops [of K a alg] fallback_kem_ops [of K alg F a]
  by (cases r) (simp_all add: standards_kept_def B_def backend_behind_def native_pq_backend_def fallback_pq_backend_def
      native_envelope_backend_def fallback_envelope_backend_def api_generateKemKeyPair_def [abs_def]
      api_encapsulate_def [abs_def] api_decapsulate_def [abs_def])

lemma behind_dsa_ops:
  assumes "standards_kept (K, A, D, F) a alg b dalg"
  defines "B r \<equiv> backend_behind (K, A, D, F) r"
  shows "dsa_ops D (of_nat (sig_index b)) dalg (api_generateSignatureKeyPair (B r) b) (api_sign (B r) b) (api_verify (B r) b)"
  using assms(1) native_dsa_ops [of D b dalg] fallback_dsa_ops [of D "of_nat (sig_index b)" dalg F b]
  by (cases r) (simp_all add: standards_kept_def B_def backend_behind_def native_pq_backend_def fallback_pq_backend_def
      api_generateSignatureKeyPair_def [abs_def] api_sign_def [abs_def] api_verify_def [abs_def])

lemma instance_runs:
  assumes "t_ok (caller_state s)" "path \<noteq> None \<longrightarrow> selftest_returns (load (the path)) (caller_state s)"
  shows "\<exists>r s'. pqforge_instance load preferNative path s = (Done r, s') \<and> t_ok (caller_state s') \<and> singleton s' = Some r"
proof (cases "singleton s")
  case (Some r)
  then show ?thesis using assms(1) by (simp add: pqforge_instance_def)
next
  case None
  obtain r c where "resolve_backend load preferNative path (caller_state s) = (Done r, c)" "t_ok c"
  proof (cases "preferNative \<and> path \<noteq> None")
    case False
    then show ?thesis using that assms(1) by (auto simp: resolve_backend_def ret_def)
  next
    case True
    then obtain p where p: "path = Some p" by blast
    then obtain r c where r: "native_open (load p) (caller_state s) = (Done r, c)"
      using native_open_decides [of "load p" "caller_state s"] assms(2) by auto
    then have "t_ok c" using native_open_keeps assms(1) by blast
    moreover have "resolve_backend load preferNative path (caller_state s) =
        (Done (case r of Inr b \<Rightarrow> Native b | Inl _ \<Rightarrow> Fallback), c)"
      using r True p by (cases r) (simp_all add: resolve_backend_def run_simps ret_def)
    ultimately show ?thesis using that by blast
  qed
  then show ?thesis using None by (simp add: pqforge_instance_def)
qed

text \<open>A key pair of any backend receives envelopes of any other, and a third one opens them.\<close>

lemma api_envelopes:
  assumes kept: "standards_kept (K, A, D, F) a alg b dalg" and pkg: "package_ok P t_ok" "a \<in> set (kem_values P)"
    and fit: "native_sealing (K, A) (length p)" "39 + kem_ciphertextBytes a + length (aad_bytes aad) \<le> isize_max"
    and key: "mlkem_keygen_spec K alg g = Produce (pk, sk)" and u: "t_ok u"
  shows "\<exists>e u'. api_sealEnvelope P (backend_behind (K, A, D, F) r) a pk p aad u = (Done (Inr e), u') \<and> t_ok u' \<and>
    (\<forall>v. t_ok v \<longrightarrow> (\<exists>v'. api_openEnvelope P (backend_behind (K, A, D, F) r') sk e aad v = (Done (Inr p), v') \<and> t_ok v'))"
proof -
  have impl: "kem_known a alg" "kem_correct K alg (\<lambda>_ _. True)" "interchangeable F K A"
    "kem_sizes K alg (kem_publicKeyBytes a) (kem_secretKeyBytes a) (kem_ciphertextBytes a) (kem_sharedSecretBytes a)"
    and ops: "kem_ops K alg (fp_kemGenerate F a) (fp_kemEncapsulate F a) (fp_kemDecapsulate F a)"
    using kept by (simp_all add: standards_kept_def kem_implements_def)
  have rec: "any_recipient (kind, K, A, F) a pk sk u" for kind
  proof (cases kind)
    case NativeKind
    then show ?thesis unfolding any_recipient_def native_recipient_def using impl key by auto
  next
    case FallbackKind
    obtain g' ct ss u' where "fp_kemEncapsulate F a pk u = (Done (Inr (ct, ss)), u')" "t_ok u'"
        "mlkem_encapsulate_spec K alg pk g' = Produce (ct, ss)"
      using ops u key unfolding kem_ops_def by blast
    with FallbackKind show ?thesis unfolding any_recipient_def fallback_recipient_def using impl key by auto
  qed
  have "same_world (kind_of r, K, A, F) (kind_of r', K, A, F)" using impl(3) by (simp add: same_world_def)
  moreover have "(\<lambda>(kind, K, A, P). native_sealing (K, A)) (kind_of r, K, A, F) (length p)" using fit(1) by simp
  ultimately show ?thesis
    using dem.seal_open [OF pkg(1) u _ rec pkg(2) _ order_refl fit(2)]
    by (simp only: api_sealEnvelope_def api_openEnvelope_def backend_behind_envelope) blast
qed

end
