(* ===== verification/Dart_Providers.thy ===== *)
theory Dart_Providers
  imports Dart_Api
begin

text \<open>
  \<open>lib/src/integration\<close>: the providers that put the native backend behind the seams of the
  package \<open>pqforge\<close>. What AWS-LC cannot do (seeded ML-KEM, signing with a context or a
  pre-hash, NIST curves) is routed to a provider of that package, a parameter here.
\<close>

section \<open>The lattice seam\<close>

text \<open>\<open>PqLatticeProvider\<close>; an optional argument that is \<open>null\<close> is \<open>None\<close>.\<close>

record 's lattice_provider =
  lp_kemGenerateKeyPair :: "pq_kem \<Rightarrow> bytes option \<Rightarrow> ('s, (bytes \<times> bytes) dart) comp"
  lp_kemEncapsulate :: "pq_kem \<Rightarrow> bytes \<Rightarrow> bytes option \<Rightarrow> ('s, (bytes \<times> bytes) dart) comp"
  lp_kemDecapsulate :: "pq_kem \<Rightarrow> bytes \<Rightarrow> bytes \<Rightarrow> ('s, bytes dart) comp"
  lp_dsaGenerateKeyPair :: "pq_sig \<Rightarrow> ('s, (bytes \<times> bytes) dart) comp"
  lp_dsaGenerateKeyPairSeeded :: "pq_sig \<Rightarrow> bytes \<Rightarrow> ('s, (bytes \<times> bytes) dart) comp"
  lp_dsaSign :: "pq_sig \<Rightarrow> bytes \<Rightarrow> bytes \<Rightarrow> bytes option \<Rightarrow> bool \<Rightarrow> ('s, bytes dart) comp"
  lp_dsaVerify :: "pq_sig \<Rightarrow> bytes \<Rightarrow> bytes \<Rightarrow> bytes \<Rightarrow> bytes option \<Rightarrow> bool \<Rightarrow> ('s, bool dart) comp"

definition nlp_kemGenerateKeyPair ::
  "('dk, 'ek) kem_lib \<Rightarrow> ffi_caller lattice_provider \<Rightarrow> pq_kem \<Rightarrow> bytes option \<Rightarrow> (bytes \<times> bytes) dart ffi" where
  "nlp_kemGenerateKeyPair K fallback a seed =
    (if seed \<noteq> None then lp_kemGenerateKeyPair fallback a seed
     else dart_bind (native_kemGenerate K a) (\<lambda>(publicKey, secretKey). dart_return (publicKey, secretKey)))"

definition nlp_kemEncapsulate ::
  "('dk, 'ek) kem_lib \<Rightarrow> ffi_caller lattice_provider \<Rightarrow> pq_kem \<Rightarrow> bytes \<Rightarrow> bytes option \<Rightarrow> (bytes \<times> bytes) dart ffi" where
  "nlp_kemEncapsulate K fallback a publicKey nonce =
    (if nonce \<noteq> None then lp_kemEncapsulate fallback a publicKey nonce
     else dart_bind (native_kemEncapsulate K a publicKey) (\<lambda>(ciphertext, sharedSecret). dart_return (ciphertext, sharedSecret)))"

definition nlp_kemDecapsulate :: "('dk, 'ek) kem_lib \<Rightarrow> pq_kem \<Rightarrow> bytes \<Rightarrow> bytes \<Rightarrow> bytes dart ffi" where
  "nlp_kemDecapsulate K a secretKey ciphertext = native_kemDecapsulate K a secretKey ciphertext"

definition nlp_dsaGenerateKeyPair :: "'kp dsa_lib \<Rightarrow> pq_sig \<Rightarrow> (bytes \<times> bytes) dart ffi" where
  "nlp_dsaGenerateKeyPair D a =
    dart_bind (native_signGenerate D a) (\<lambda>(publicKey, secretKey). dart_return (publicKey, secretKey))"

definition nlp_dsaGenerateKeyPairSeeded :: "'kp dsa_lib \<Rightarrow> pq_sig \<Rightarrow> bytes \<Rightarrow> (bytes \<times> bytes) dart ffi" where
  "nlp_dsaGenerateKeyPairSeeded D a seed =
    dart_bind (native_signGenerateFromSeed D a seed) (\<lambda>(publicKey, secretKey). dart_return (publicKey, secretKey))"

text \<open>\<open>preHash || (context != null && context.isNotEmpty)\<close>, in \<open>dsaSign\<close> and in \<open>dsaVerify\<close>.\<close>

definition nlp_dsaSign ::
  "'kp dsa_lib \<Rightarrow> ffi_caller lattice_provider \<Rightarrow> pq_sig \<Rightarrow> bytes \<Rightarrow> bytes \<Rightarrow> bytes option \<Rightarrow> bool \<Rightarrow> bytes dart ffi" where
  "nlp_dsaSign D fallback a secretKey message ctx preHash =
    (if preHash \<or> ctx \<noteq> None \<and> the ctx \<noteq> [] then lp_dsaSign fallback a secretKey message ctx preHash
     else native_sign D a secretKey message)"

definition nlp_dsaVerify ::
  "'kp dsa_lib \<Rightarrow> ffi_caller lattice_provider \<Rightarrow> pq_sig \<Rightarrow> bytes \<Rightarrow> bytes \<Rightarrow> bytes \<Rightarrow> bytes option \<Rightarrow> bool \<Rightarrow> bool dart ffi" where
  "nlp_dsaVerify D fallback a publicKey message signature ctx preHash =
    (if preHash \<or> ctx \<noteq> None \<and> the ctx \<noteq> [] then lp_dsaVerify fallback a publicKey message signature ctx preHash
     else answers (native_verify D a publicKey message signature))"

definition native_lattice_provider ::
  "('dk, 'ek) kem_lib \<Rightarrow> 'kp dsa_lib \<Rightarrow> ffi_caller lattice_provider \<Rightarrow> ffi_caller lattice_provider" where
  "native_lattice_provider K D fallback =
    \<lparr>lp_kemGenerateKeyPair = nlp_kemGenerateKeyPair K fallback, lp_kemEncapsulate = nlp_kemEncapsulate K fallback,
     lp_kemDecapsulate = nlp_kemDecapsulate K, lp_dsaGenerateKeyPair = nlp_dsaGenerateKeyPair D,
     lp_dsaGenerateKeyPairSeeded = nlp_dsaGenerateKeyPairSeeded D,
     lp_dsaSign = nlp_dsaSign D fallback, lp_dsaVerify = nlp_dsaVerify D fallback\<rparr>"

text \<open>
  The contract of the seam: whatever seed, nonce, context and pre-hash flag is passed, keys,
  ciphertexts and shared secrets are those of FIPS 203 for some randomness, and a signature
  verifies with the context and the flag it was made with.
\<close>

definition lattice_lawful ::
  "('dk, 'ek) kem_lib \<Rightarrow> pq_kem \<Rightarrow> kem_algorithm \<Rightarrow> 'kp dsa_lib \<Rightarrow> pq_sig \<Rightarrow> dsa_algorithm \<Rightarrow>
    ffi_caller lattice_provider \<Rightarrow> bool" where
  "lattice_lawful K a alg D b dalg Q \<longleftrightarrow>
     (\<forall>seed nonce. (seed = None \<or> length (the seed) = 64) \<and> (nonce = None \<or> length (the nonce) = 32) \<longrightarrow>
       kem_ops K alg (lp_kemGenerateKeyPair Q a seed) (\<lambda>pk. lp_kemEncapsulate Q a pk nonce) (lp_kemDecapsulate Q a)) \<and>
     (\<forall>t. t_ok t \<longrightarrow>
       (\<exists>g pk sk t'. lp_dsaGenerateKeyPair Q b t = (Done (Inr (pk, sk)), t') \<and> t_ok t' \<and>
          mldsa_keygen_spec D dalg g = Produce (pk, sk)) \<and>
       (\<forall>seed. length seed = 32 \<longrightarrow> (\<exists>g pk sk t'. lp_dsaGenerateKeyPairSeeded Q b seed t = (Done (Inr (pk, sk)), t') \<and> t_ok t' \<and>
          mldsa_keygen_spec D dalg g = Produce (pk, sk))) \<and>
       (\<forall>g pk sk msg ctx preHash. mldsa_keygen_spec D dalg g = Produce (pk, sk) \<and> length msg \<le> isize_max \<and>
          (ctx = None \<or> length (the ctx) \<le> 255) \<longrightarrow>
          (\<exists>sg t'. lp_dsaSign Q b sk msg ctx preHash t = (Done (Inr sg), t') \<and> t_ok t' \<and>
            (\<forall>u. t_ok u \<longrightarrow> (\<exists>u'. lp_dsaVerify Q b pk msg sg ctx preHash u = (Done (Inr True), u') \<and> t_ok u')))))"

text \<open>FIPS 204: to generate a key pair is to draw a seed.\<close>

definition seeds_draw :: "'kp dsa_lib \<Rightarrow> c_int \<Rightarrow> dsa_algorithm \<Rightarrow> bool" where
  "seeds_draw D aid alg \<longleftrightarrow> (\<forall>seed pk sk. mldsa_from_seed_spec D aid seed = Produce (pk, sk) \<longrightarrow>
     (\<exists>g. mldsa_keygen_spec D alg g = Produce (pk, sk)))"

lemma dart_bind_return [simp]: "dart_bind m dart_return = m"
proof
  fix s
  show "dart_bind m dart_return s = m s"
    by (cases "m s"; cases "fst (m s)") (auto simp: dart_bind_def bind_comp_def dart_return_def ret_def split: sum.splits)
qed

lemma kem_ops_mix:
  assumes "kem_ops K alg gen enc dec" "kem_ops K alg gen' enc' dec'"
  shows "kem_ops K alg (if p then gen' else gen) (if q then enc' else enc) dec"
  using assms unfolding kem_ops_def by (cases p; cases q) simp_all

lemma provider_kem:
  assumes impl: "kem_implements K a alg" and fb: "lattice_lawful K a alg D b dalg fb"
    and "seed = None \<or> length (the seed) = 64" "nonce = None \<or> length (the nonce) = 32"
  shows "kem_ops K alg (nlp_kemGenerateKeyPair K fb a seed) (\<lambda>pk. nlp_kemEncapsulate K fb a pk nonce) (nlp_kemDecapsulate K a)"
proof -
  have other: "kem_ops K alg (lp_kemGenerateKeyPair fb a seed) (\<lambda>pk. lp_kemEncapsulate fb a pk nonce) (lp_kemDecapsulate fb a)"
    using fb assms(3,4) unfolding lattice_lawful_def by blast
  have "nlp_kemGenerateKeyPair K fb a seed = (if seed \<noteq> None then lp_kemGenerateKeyPair fb a seed else native_kemGenerate K a)"
    "(\<lambda>pk. nlp_kemEncapsulate K fb a pk nonce) =
      (if nonce \<noteq> None then \<lambda>pk. lp_kemEncapsulate fb a pk nonce else native_kemEncapsulate K a)"
    "nlp_kemDecapsulate K a = native_kemDecapsulate K a"
    by (auto simp: nlp_kemGenerateKeyPair_def nlp_kemEncapsulate_def nlp_kemDecapsulate_def fun_eq_iff)
  then show ?thesis using kem_ops_mix [OF native_kem_ops [OF impl] other] by simp
qed

lemma provider_seeded:
  assumes impl: "dsa_implements D b dalg" "seeds_draw D (of_nat (sig_index b)) dalg" and t: "t_ok t" and seed: "length seed = 32"
  shows "\<exists>g pk sk t'. nlp_dsaGenerateKeyPairSeeded D b seed t = (Done (Inr (pk, sk)), t') \<and> t_ok t' \<and>
    mldsa_keygen_spec D dalg g = Produce (pk, sk)"
proof -
  have k: "sig_known b dalg" using impl(1) by (simp add: dsa_implements_def)
  obtain pk sk where s: "mldsa_from_seed_spec D (of_nat (sig_index b)) seed = Produce (pk, sk)"
      "length pk = sig_publicKeyBytes b" "length sk = sig_secretKeyBytes b"
    using impl(1) seed unfolding dsa_implements_def dsa_sizes_def by metis
  then obtain g where "mldsa_keygen_spec D dalg g = Produce (pk, sk)" using impl(2) unfolding seeds_draw_def by blast
  moreover have "length seed \<le> isize_max" using seed by (simp add: isize_max_def)
  ultimately show ?thesis
    using native_signGenerateFromSeed_yields [OF t k, of seed D] s
    by (auto simp: nlp_dsaGenerateKeyPairSeeded_def yields_def native_pair_def)
qed

text \<open>Signing and verifying take the same way, for every context and flag.\<close>

lemma provider_signs:
  assumes impl: "dsa_implements D b dalg" and fb: "lattice_lawful K a alg D b dalg fb" and t: "t_ok t"
    and key: "mldsa_keygen_spec D dalg g = Produce (pk, sk)" and msg: "length msg \<le> isize_max"
    and ctx: "ctx = None \<or> length (the ctx) \<le> 255"
  shows "\<exists>sg t'. nlp_dsaSign D fb b sk msg ctx preHash t = (Done (Inr sg), t') \<and> t_ok t' \<and>
    (\<forall>u. t_ok u \<longrightarrow> (\<exists>u'. nlp_dsaVerify D fb b pk msg sg ctx preHash u = (Done (Inr True), u') \<and> t_ok u'))"
proof (cases "preHash \<or> ctx \<noteq> None \<and> the ctx \<noteq> []")
  case True
  then show ?thesis
    using fb t key msg ctx unfolding lattice_lawful_def nlp_dsaSign_def nlp_dsaVerify_def by simp
next
  case False
  note ops = native_dsa_ops [OF impl, unfolded dsa_ops_def, rule_format]
  obtain g' sg t' where s: "native_sign D b sk msg t = (Done (Inr sg), t')" "t_ok t'" "mldsa_sign_spec D dalg sk msg g' = Produce sg"
    using ops [OF t] key msg by blast
  have "\<exists>u'. answers (native_verify D b pk msg sg) u = (Done (Inr True), u') \<and> t_ok u'" if "t_ok u" for u
    using ops [OF that] key msg s(3) by blast
  with s(1,2) show ?thesis unfolding nlp_dsaSign_def nlp_dsaVerify_def if_not_P [OF False] by blast
qed

lemma provider_lawful:
  assumes "kem_implements K a alg" "dsa_implements D b dalg" "seeds_draw D (of_nat (sig_index b)) dalg"
    and fb: "lattice_lawful K a alg D b dalg fb"
  shows "lattice_lawful K a alg D b dalg (native_lattice_provider K D fb)"
proof -
  have gen: "\<exists>g pk sk t'. nlp_dsaGenerateKeyPair D b t = (Done (Inr (pk, sk)), t') \<and> t_ok t' \<and>
      mldsa_keygen_spec D dalg g = Produce (pk, sk)" if "t_ok t" for t
    using native_dsa_ops [OF assms(2)] that unfolding dsa_ops_def by (simp add: nlp_dsaGenerateKeyPair_def)
  show ?thesis
    unfolding lattice_lawful_def native_lattice_provider_def lattice_provider.simps
    by (intro conjI allI impI; (elim conjE)?)
       (rule provider_kem [OF assms(1) fb], assumption+, erule gen, erule (1) provider_seeded [OF assms(2,3)],
        rule provider_signs [OF assms(2) fb], assumption+)
qed

text \<open>What a client of the seam relies on, whichever provider is registered.\<close>

locale lattice_seam =
  fixes Q :: "'x \<Rightarrow> ffi_caller lattice_provider" and registered :: "'x \<Rightarrow> bool"
    and kem :: "'x \<Rightarrow> ('dk, 'ek) kem_lib \<times> pq_kem \<times> kem_algorithm"
    and dsa :: "'x \<Rightarrow> 'kp dsa_lib \<times> pq_sig \<times> dsa_algorithm"
  assumes contract: "registered x \<Longrightarrow> kem x = (K, a, alg) \<Longrightarrow> dsa x = (D, b, dalg) \<Longrightarrow>
    lattice_lawful K a alg D b dalg (Q x)"
begin

lemma kem_session:
  assumes x: "registered x" "kem x = (K, a, alg)" and t: "t_ok t"
    and sized: "seed = None \<or> length (the seed) = 64" "nonce = None \<or> length (the nonce) = 32"
  shows "\<exists>pk sk t1. lp_kemGenerateKeyPair (Q x) a seed t = (Done (Inr (pk, sk)), t1) \<and> t_ok t1 \<and> (\<forall>u. t_ok u \<longrightarrow>
    (\<exists>ct ss u'. lp_kemEncapsulate (Q x) a pk nonce u = (Done (Inr (ct, ss)), u') \<and> t_ok u' \<and>
      (\<forall>v. t_ok v \<longrightarrow> (\<exists>v'. lp_kemDecapsulate (Q x) a sk ct v = (Done (Inr ss), v') \<and> t_ok v'))))"
proof -
  obtain D b dalg where d: "dsa x = (D, b, dalg)" by (rule prod_cases3)
  have "kem_ops K alg (lp_kemGenerateKeyPair (Q x) a seed) (\<lambda>pk. lp_kemEncapsulate (Q x) a pk nonce) (lp_kemDecapsulate (Q x) a)"
    using contract [OF x d] sized unfolding lattice_lawful_def by blast
  from kem_ops_agree [OF this this this t] show ?thesis .
qed

lemma dsa_session:
  assumes x: "registered x" "dsa x = (D, b, dalg)" and t: "t_ok t" and sd: "length sd = 32"
    and msg: "length msg \<le> isize_max" "ctx = None \<or> length (the ctx) \<le> 255"
    and gen: "gen = lp_dsaGenerateKeyPair (Q x) b \<or> gen = lp_dsaGenerateKeyPairSeeded (Q x) b sd"
  shows "\<exists>pk sk t1. gen t = (Done (Inr (pk, sk)), t1) \<and> t_ok t1 \<and> (\<forall>u. t_ok u \<longrightarrow>
    (\<exists>sg u'. lp_dsaSign (Q x) b sk msg ctx preHash u = (Done (Inr sg), u') \<and> t_ok u' \<and>
      (\<forall>v. t_ok v \<longrightarrow> (\<exists>v'. lp_dsaVerify (Q x) b pk msg sg ctx preHash v = (Done (Inr True), v') \<and> t_ok v'))))"
proof -
  obtain K a alg where k: "kem x = (K, a, alg)" by (rule prod_cases3)
  note law = contract [OF x(1) k x(2), unfolded lattice_lawful_def, THEN conjunct2, rule_format]
  obtain g pk sk t1 where g: "gen t = (Done (Inr (pk, sk)), t1)" "t_ok t1" "mldsa_keygen_spec D dalg g = Produce (pk, sk)"
    using law [OF t] gen sd by blast
  show ?thesis using g(1,2) law g(3) msg by blast
qed

end

interpretation native_lattice: lattice_seam "\<lambda>(K, a, alg, D, b, dalg, fb). native_lattice_provider K D fb"
  "\<lambda>(K, a, alg, D, b, dalg, fb). kem_implements K a alg \<and> dsa_implements D b dalg \<and>
     seeds_draw D (of_nat (sig_index b)) dalg \<and> lattice_lawful K a alg D b dalg fb"
  "\<lambda>(K, a, alg, D, b, dalg, fb). (K, a, alg)" "\<lambda>(K, a, alg, D, b, dalg, fb). (D, b, dalg)"
proof (unfold_locales, goal_cases)
  case (1 x K a alg D b dalg)
  then obtain fb where "x = (K, a, alg, D, b, dalg, fb)" by (cases x rule: prod_cases7) auto
  then show ?case using 1 by (auto intro: provider_lawful)
qed

section \<open>The classical seam\<close>

text \<open>
  \<open>PqClassicalProvider\<close>: its methods return a \<open>Future\<close>, here one that has completed, with a value
  or with an error. \<open>Future.value(x)\<close> evaluates \<open>x\<close> first: an exception of the native call is
  thrown by the method itself, before there is a future.
\<close>

type_synonym 'a future = "'a dart"
type_synonym ('s, 'a) async = "('s, 'a future dart) comp"

definition future_value :: "('s, 'a dart) comp \<Rightarrow> ('s, 'a) async" where
  "future_value m = dart_bind m (\<lambda>x. dart_return (Inr x))"

text \<open>\<open>await\<close> of a call throws what the call throws and what its future holds.\<close>

definition awaited :: "('s, 'a) async \<Rightarrow> ('s, 'a dart) comp" where
  "awaited m = dart_bind m ret"

record 's classical_provider =
  cp_x25519GenerateKeyPair :: "bytes option \<Rightarrow> ('s, bytes \<times> bytes) async"
  cp_x25519SharedSecret :: "bytes \<Rightarrow> bytes \<Rightarrow> ('s, bytes) async"
  cp_ed25519GenerateKeyPair :: "bytes option \<Rightarrow> ('s, bytes \<times> bytes) async"
  cp_ed25519PublicKeyFromSeed :: "bytes \<Rightarrow> ('s, bytes) async"
  cp_ed25519Sign :: "bytes \<Rightarrow> bytes \<Rightarrow> bytes \<Rightarrow> ('s, bytes) async" \<comment> \<open>secret key, public key, message\<close>
  cp_ed25519Verify :: "bytes \<Rightarrow> bytes \<Rightarrow> bytes \<Rightarrow> ('s, bool) async"
  cp_p256GenerateKeyPair :: "bytes option \<Rightarrow> ('s, bytes \<times> bytes) async"
  cp_p256SharedSecret :: "bytes \<Rightarrow> bytes \<Rightarrow> ('s, bytes) async"
  cp_p384GenerateKeyPair :: "bytes option \<Rightarrow> ('s, bytes \<times> bytes) async"
  cp_p384SharedSecret :: "bytes \<Rightarrow> bytes \<Rightarrow> ('s, bytes) async"
  cp_ecdsaP256GenerateKeyPair :: "('s, bytes \<times> bytes) async"
  cp_ecdsaP256PublicKeyFromPrivate :: "bytes \<Rightarrow> ('s, bytes) async"
  cp_ecdsaP256Sign :: "bytes \<Rightarrow> bytes \<Rightarrow> ('s, bytes) async"
  cp_ecdsaP256Verify :: "bytes \<Rightarrow> bytes \<Rightarrow> bytes \<Rightarrow> ('s, bool) async"

definition native_classical_provider ::
  "('xk, 'ek) classical_lib \<Rightarrow> ffi_caller classical_provider \<Rightarrow> ffi_caller classical_provider" where
  "native_classical_provider L fallback = fallback\<lparr>
     cp_x25519GenerateKeyPair := (\<lambda>seed. future_value (native_x25519Generate L seed)),
     cp_x25519SharedSecret := (\<lambda>secretKey remotePublicKey. future_value (native_x25519SharedSecret L secretKey remotePublicKey)),
     cp_ed25519GenerateKeyPair := (\<lambda>seed. future_value (native_ed25519Generate L seed)),
     cp_ed25519PublicKeyFromSeed := (\<lambda>seed. future_value (native_ed25519PublicFromSeed L seed)),
     cp_ed25519Sign := (\<lambda>secretKey publicKey message. future_value (native_ed25519Sign L secretKey message)),
     cp_ed25519Verify := (\<lambda>publicKey message signature. future_value (answers (native_ed25519Verify L publicKey message signature)))\<rparr>"

lemma awaited_future_value [simp]: "awaited (future_value m) = m"
proof
  fix s
  show "awaited (future_value m) s = m s"
    by (cases "m s"; cases "fst (m s)")
       (auto simp: awaited_def future_value_def dart_bind_def bind_comp_def dart_return_def ret_def split: sum.splits)
qed

text \<open>No future of the native part holds an error.\<close>

lemma future_value_completes [simp]: "future_value m s \<noteq> (Done (Inr (Inl e)), s')"
  by (cases "m s"; cases "fst (m s)")
     (auto simp: future_value_def dart_bind_def bind_comp_def dart_return_def ret_def split: sum.splits)

lemma x25519_session:
  assumes law: "draws L" "x25519_sizes L" "dh_correct L" and t: "t_ok t"
    and seeds: "\<And>sd. seed = Some sd \<or> seed' = Some sd \<Longrightarrow> length sd = 32"
  shows "\<exists>pa sa t1 pb sb t2. native_x25519Generate L seed t = (Done (Inr (pa, sa)), t1) \<and>
    native_x25519Generate L seed' t1 = (Done (Inr (pb, sb)), t2) \<and> t_ok t2 \<and>
    (\<exists>ss. \<forall>u. t_ok u \<longrightarrow> (\<exists>u'. native_x25519SharedSecret L sa pb u = (Done (Inr ss), u') \<and> t_ok u') \<and>
       (\<exists>u'. native_x25519SharedSecret L sb pa u = (Done (Inr ss), u') \<and> t_ok u'))"
proof -
  have gen: "\<exists>pk sk t1. native_x25519Generate L sd t = (Done (Inr (pk, sk)), t1) \<and> t_ok t1 \<and>
      x25519_pair L sk = Produce (pk, sk) \<and> length pk = 32 \<and> length sk = 32"
    if "t_ok t" and sd: "\<And>x. sd = Some x \<Longrightarrow> length x = 32" for sd t
  proof -
    obtain sk where sk: "drawn L sd (rng (t_world t)) = ExtOk sk" "length sk = 32"
      by (rule drawn_ok [OF law(1) sd])
    obtain pk where pk: "x25519_pair L sk = Produce (pk, sk)" "length pk = 32"
      using law(2) sk(2) unfolding x25519_sizes_def by blast
    have "case sd of None \<Rightarrow> True | Some x \<Rightarrow> length x \<le> isize_max"
      using sd by (cases sd) (auto simp: isize_small)
    from native_x25519Generate_yields [OF that(1) this, of L] sk pk
    show ?thesis by (auto simp: yields_def native_pair_def on_ext_def)
  qed
  obtain pa sa t1 where a: "native_x25519Generate L seed t = (Done (Inr (pa, sa)), t1)" "t_ok t1"
      "x25519_pair L sa = Produce (pa, sa)" "length pa = 32" "length sa = 32"
    using gen [OF t, of seed] seeds by blast
  obtain pb sb t2 where b: "native_x25519Generate L seed' t1 = (Done (Inr (pb, sb)), t2)" "t_ok t2"
      "x25519_pair L sb = Produce (pb, sb)" "length pb = 32" "length sb = 32"
    using gen [OF a(2), of seed'] seeds by blast
  obtain ss where ss: "x25519_shared L sa pb = Produce ss" "length ss = 32"
    using law(2) a(5) b(3,5) unfolding x25519_sizes_def by (metis Pair_inject verdict.inject(2))
  have ss': "x25519_shared L sb pa = Produce ss"
    using x25519_shared_sym [OF law(3) a(3) b(3)] ss(1) by simp
  have "short [sa, pb]" "short [sb, pa]" using a(4,5) b(4,5) by (simp_all add: isize_small)
  then have "(\<exists>u'. native_x25519SharedSecret L sa pb u = (Done (Inr ss), u') \<and> t_ok u') \<and>
      (\<exists>u'. native_x25519SharedSecret L sb pa u = (Done (Inr ss), u') \<and> t_ok u')" if "t_ok u" for u
    using native_x25519SharedSecret_yields [OF that, of sa pb L] native_x25519SharedSecret_yields [OF that, of sb pa L]
      ss ss' a(4,5) b(4,5) by (auto simp: yields_def x25519_exchange_def)
  with a b show ?thesis by blast
qed

lemma ed25519_session:
  assumes law: "draws L" "ed25519_sizes L" "ed_correct L" and t: "t_ok t" and msg: "length msg \<le> isize_max"
    and seeds: "\<And>sd. seed = Some sd \<Longrightarrow> length sd = 32"
  shows "\<exists>pk sk t1. native_ed25519Generate L seed t = (Done (Inr (pk, sk)), t1) \<and> t_ok t1 \<and>
    (\<exists>sg. \<forall>u. t_ok u \<longrightarrow> (\<exists>u'. native_ed25519Sign L sk msg u = (Done (Inr sg), u') \<and> t_ok u') \<and>
       (\<exists>u'. answers (native_ed25519Verify L pk msg sg) u = (Done (Inr True), u') \<and> t_ok u'))"
proof -
  obtain sk where sk: "drawn L seed (rng (t_world t)) = ExtOk sk" "length sk = 32"
    by (rule drawn_ok [OF law(1) seeds])
  obtain pk sg where pk: "ed25519_pair L sk = Produce (pk, sk)" "length pk = 32"
      and sg: "ed25519_sign_spec L sk msg = Produce sg" "length sg = 64"
    using law(2) sk(2) unfolding ed25519_sizes_def by metis
  have "case seed of None \<Rightarrow> True | Some x \<Rightarrow> length x \<le> isize_max"
    using seeds by (cases seed) (auto simp: isize_small)
  from native_ed25519Generate_yields [OF t this, of L] sk pk
  have "\<exists>t1. native_ed25519Generate L seed t = (Done (Inr (pk, sk)), t1) \<and> t_ok t1"
    by (auto simp: yields_def native_pair_def on_ext_def)
  moreover have "(\<exists>u'. native_ed25519Sign L sk msg u = (Done (Inr sg), u') \<and> t_ok u') \<and>
      (\<exists>u'. answers (native_ed25519Verify L pk msg sg) u = (Done (Inr True), u') \<and> t_ok u')" if "t_ok u" for u
  proof -
    have "short [sk, msg]" "short [pk, msg, sg]" using sk(2) pk(2) sg(2) msg by (simp_all add: isize_small)
    with native_ed25519Sign_yields [OF that, of sk msg L] native_ed25519Verify_yields [OF that, of pk msg sg L]
      ed25519_signed_verifies(1) [OF law(3) pk(1) sg(1)] sk(2) sg
    show ?thesis by (auto simp: yields_def answers_def dart_return_def run_simps)
  qed
  ultimately show ?thesis by blast
qed

end
