(* ===== verification/Dart_File_Cipher.thy ===== *)
theory Dart_File_Cipher
  imports Dart_Stream File_State Dart_Native
begin

text \<open>
  \<open>lib/src/api/file_cipher.dart\<close>: files sealed and opened by the native core into a temporary
  file, which is renamed to the output when the call succeeded and deleted when it did not.
  A path is its UTF-8 bytes. What the operating system answers to a rename or a deletion is
  free; both leave the files as they are when they are refused.
\<close>

section \<open>The file operations of \<open>dart:io\<close>\<close>

record dart_io =
  rename_refused :: "world \<Rightarrow> bytes \<Rightarrow> bytes \<Rightarrow> bool"
  delete_refused :: "world \<Rightarrow> bytes \<Rightarrow> bool"

text \<open>\<open>rename(2)\<close>: replaces the target; two names of one file are left alone.\<close>

definition rename_names :: "dart_io \<Rightarrow> bytes \<Rightarrow> bytes \<Rightarrow> world \<Rightarrow> unit dart \<times> world" where
  "rename_names E old new w =
    (if names w old = None \<or> rename_refused E w old new then (Inl FileSystemException, w)
     else if names w old = names w new then (Inr (), w)
     else (Inr (), w\<lparr>names := (names w)(new := names w old, old := None)\<rparr>))"

text \<open>\<open>_deleteQuiet\<close>: what fails is ignored.\<close>

definition delete_quiet :: "dart_io \<Rightarrow> bytes \<Rightarrow> world \<Rightarrow> world" where
  "delete_quiet E path w =
    (if names w path = None \<or> delete_refused E w path then w else w\<lparr>names := (names w)(path := None)\<rparr>)"

section \<open>The file cipher\<close>

type_synonym file_fn = "c_int \<Rightarrow> addr \<Rightarrow> usize \<Rightarrow> addr \<Rightarrow> usize \<Rightarrow> usize \<Rightarrow> addr \<Rightarrow> addr \<Rightarrow> (world, c_int) comp"

definition tmp_path :: "bytes \<Rightarrow> bytes" where
  "tmp_path outputPath = outputPath @ ascii_bytes ''.pqforge-tmp''"

definition file_cipher_call ::
  "file_fn \<Rightarrow> bytes \<Rightarrow> bytes \<Rightarrow> bytes \<Rightarrow> aead_algorithm \<Rightarrow> bytes \<Rightarrow> 64 word \<Rightarrow> c_int ffi" where
  "file_cipher_call fn inputPath tmpPath key algorithm ad chunkSize =
    freeing (call0 [to_native key, to_native ad, inputPath @ [0], tmpPath @ [0]] (\<lambda>ps.
      fn (alg_id algorithm) (ps ! 0) (of_nat (length key)) (ps ! 1) (of_nat (length ad)) chunkSize (ps ! 2) (ps ! 3)))"

definition file_cipher_run ::
  "file_fn \<Rightarrow> dart_io \<Rightarrow> bytes \<Rightarrow> bytes \<Rightarrow> bytes \<Rightarrow> aead_algorithm \<Rightarrow> bytes option \<Rightarrow> 64 word \<Rightarrow> string
    \<Rightarrow> unit dart ffi" where
  "file_cipher_run fn E inputPath outputPath key algorithm aad chunkSize op =
    (if sint chunkSize \<le> 0 then dart_throw ArgumentError
     else
       let ad = (case aad of None \<Rightarrow> [] | Some a \<Rightarrow> a); tmpPath = tmp_path outputPath in
       bind_comp (file_cipher_call fn inputPath tmpPath key algorithm ad chunkSize) (\<lambda>rc.
       if rc \<noteq> code Ok then
         bind_comp (ffi_call (\<lambda>w. (Done (), delete_quiet E tmpPath w))) (\<lambda>_.
         dart_throw (file_throw_status op (from_code rc)))
       else
         bind_comp (ffi_call (\<lambda>w. case rename_names E tmpPath outputPath w of (r, w') \<Rightarrow> (Done r, w'))) (\<lambda>r.
         case r of
           Inr _ \<Rightarrow> dart_return ()
         | Inl e \<Rightarrow> bind_comp (ffi_call (\<lambda>w. (Done (), delete_quiet E tmpPath w))) (\<lambda>_. dart_throw e))))"

definition file_cipher_seal ::
  "'k aead_lib \<Rightarrow> dart_io \<Rightarrow> bytes \<Rightarrow> bytes \<Rightarrow> bytes \<Rightarrow> aead_algorithm \<Rightarrow> bytes option \<Rightarrow> 64 word \<Rightarrow> unit dart ffi" where
  "file_cipher_seal L E inputPath outputPath key algorithm aad chunkSize =
    file_cipher_run (pqforge_stream_seal_file L) E inputPath outputPath key algorithm aad chunkSize ''stream seal file''"

definition file_cipher_open ::
  "'k aead_lib \<Rightarrow> dart_io \<Rightarrow> bytes \<Rightarrow> bytes \<Rightarrow> bytes \<Rightarrow> aead_algorithm \<Rightarrow> bytes option \<Rightarrow> 64 word \<Rightarrow> unit dart ffi" where
  "file_cipher_open L E inputPath outputPath key algorithm aad chunkSize =
    file_cipher_run (pqforge_stream_open_file L) E inputPath outputPath key algorithm aad chunkSize ''stream open file''"

section \<open>The call\<close>

text \<open>\<open>dart_request\<close>: what fits in memory and in a C string.\<close>

definition dart_request :: "ffi_caller \<Rightarrow> bytes \<Rightarrow> bytes \<Rightarrow> bytes \<Rightarrow> bytes option \<Rightarrow> bool" where
  "dart_request s inputPath outputPath key aad \<longleftrightarrow> t_ok s \<and> t_top s \<le> 2 ^ 62 \<and>
     length key + length (case aad of None \<Rightarrow> [] | Some a \<Rightarrow> a) \<le> 2 ^ 61 \<and>
     usable_path inputPath \<and> usable_path (tmp_path outputPath)"

lemma file_cipher_call_run:
  fixes fn :: file_fn
  assumes "t_ok s" "t_top s \<le> 2 ^ 62" "length key + length ad \<le> 2 ^ 61" "usable_path ip" "usable_path tp"
  obtains i k a j w where
    "file_cipher_call fn ip tp key alg ad chunk s =
      (fst (fn (alg_id alg) k (of_nat (length key)) a (of_nat (length ad)) chunk i j w),
       \<lparr>t_world = snd (fn (alg_id alg) k (of_nat (length key)) a (of_nat (length ad)) chunk i j w), t_top = t_top s\<rparr>)"
    and "w = (t_world s)\<lparr>mem := mem w\<rparr>"
    and "slice_at (mem w) k (of_nat (length key)) key" "slice_at (mem w) a (of_nat (length ad)) ad"
    and "\<not> is_null i" "c_string (mem w) i = Some ip" "\<not> is_null j" "c_string (mem w) j = Some tp"
proof -
  let ?xs = "[to_native key, to_native ad, ip @ [0], tp @ [0]]"
  obtain ps s1 where 1: "place_all ?xs s = (Done ps, s1)" "kept s s1" "length ps = length ?xs"
    "\<forall>i<length ?xs. placed s1 (ps ! i) (?xs ! i)"
    using place_all_run [OF assms(1)] by blast
  have room: "heap_room k \<le> k + 16" for k by (simp add: heap_room_def)
  have nat: "length (to_native x) \<le> length x + 1" for x by (simp add: to_native_def)
  have lens: "length ip \<le> 4096" "length tp \<le> 4096" using assms(4,5) by (simp_all add: usable_path_def)
  have "t_top s1 = t_top s + heap_room (length (to_native key)) + heap_room (length (to_native ad)) +
      heap_room (Suc (length ip)) + heap_room (Suc (length tp))"
    using place_all_top [OF 1(1)] by simp
  then have top: "t_top s1 < 2 ^ 63"
    using assms(2,3) lens room [of "length (to_native key)"] room [of "length (to_native ad)"] room [of "Suc (length ip)"]
      room [of "Suc (length tp)"] nat [of key] nat [of ad] by simp
  have p: "placed s1 (ps ! 0) (to_native key)" "placed s1 (ps ! 1) (to_native ad)"
      "placed s1 (ps ! 2) (ip @ [0])" "placed s1 (ps ! 3) (tp @ [0])"
    using 1(4) [rule_format, of 0] 1(4) [rule_format, of 1] 1(4) [rule_format, of 2] 1(4) [rule_format, of 3] by simp_all
  let ?w = "t_world s1"
  have sl: "slice_at (mem ?w) q (of_nat (length x)) x" if "placed s1 q (to_native x)" for q x
  proof (cases "x = []")
    case True
    then show ?thesis using that by (auto simp: placed_def slice_at_zero is_null_def)
  next
    case False
    then have "placed s1 q x" using that by (simp add: to_native_def)
    moreover from this top have "length x \<le> isize_max" by (auto simp: placed_def isize_max_def)
    ultimately show ?thesis by (rule placed_slice)
  qed
  have w: "?w = (t_world s)\<lparr>mem := mem ?w\<rparr>" using 1(2) by (auto simp: kept_def)
  show ?thesis
  proof (rule that [of "ps ! 0" "ps ! 1" "ps ! 2" "ps ! 3" ?w])
    show "file_cipher_call fn ip tp key alg ad chunk s =
      (fst (fn (alg_id alg) (ps ! 0) (of_nat (length key)) (ps ! 1) (of_nat (length ad)) chunk (ps ! 2) (ps ! 3) ?w),
       \<lparr>t_world = snd (fn (alg_id alg) (ps ! 0) (of_nat (length key)) (ps ! 1) (of_nat (length ad)) chunk (ps ! 2) (ps ! 3) ?w),
        t_top = t_top s\<rparr>)"
      by (cases s1) (simp add: file_cipher_call_def freeing_def call0_def run_simps 1(1) ffi_call_def split_beta del: place_all.simps)
  qed (use w sl p assms(4,5) top in \<open>auto simp: placed_def is_null_def usable_path_def intro!: c_string_at\<close>)
qed

section \<open>Atomicity\<close>

text \<open>
  What is behind a path, if it is no other name of the file behind \<open>tp\<close>, survives a call that
  touches nothing but \<open>tp\<close>, and the deletion of \<open>tp\<close>.
\<close>

lemma touches_file_at:
  assumes "touches tp (out_ino w tp) w w'" "q \<noteq> tp" "separate w q tp"
  shows "file_at w' q = file_at w q"
proof -
  have "names w' q = names w q" and i: "\<And>i. i \<noteq> out_ino w tp \<Longrightarrow> inodes w' i = inodes w i"
    using assms(1,2) by (simp_all add: touches_def)
  then show ?thesis using assms(3) by (cases "names w q") (auto simp: file_at_def separate_def)
qed

lemma delete_quiet_fields [simp]:
  "q \<noteq> p \<Longrightarrow> file_at (delete_quiet E p w) q = file_at w q"
  "\<not> delete_refused E w p \<Longrightarrow> file_at (delete_quiet E p w) p = None"
  by (simp_all add: delete_quiet_def file_at_def)

lemma rename_names_refused: "rename_names E old new w = (Inl e, w') \<Longrightarrow> w' = w"
  by (auto simp: rename_names_def split: if_splits)

lemma rename_names_done:
  assumes "rename_names E old new w = (Inr (), w')" "old \<noteq> new" "names w old \<noteq> names w new"
  shows "file_at w' = (file_at w)(new := file_at w old, old := None)" "file_at w old \<noteq> None"
  using assms by (auto simp: rename_names_def file_at_def fun_eq_iff split: if_splits)

lemma tmp_path_neq [simp]: "tmp_path p \<noteq> p" "p \<noteq> tmp_path p"
  by (simp_all add: tmp_path_def ascii_bytes_def)

text \<open>A call that does not return normally leaves every path but the temporary one as it was.\<close>

lemma file_cipher_failure:
  fixes fn :: file_fn
  assumes req: "dart_request s ip op key aad"
    and fn: "\<And>k kl a al i j w. c_string (mem w) j = Some (tmp_path op) \<Longrightarrow>
      touch (tmp_path op) (out_ino w (tmp_path op)) (fn (alg_id alg) k kl a al chunk i j) w"
    and fails: "fst (file_cipher_run fn E ip op key alg aad chunk name s) \<noteq> Done (Inr ())"
  defines "w' \<equiv> t_world (snd (file_cipher_run fn E ip op key alg aad chunk name s))"
  shows "\<And>q. q \<noteq> tmp_path op \<Longrightarrow> separate (t_world s) q (tmp_path op) \<Longrightarrow> file_at w' q = file_at (t_world s) q"
    and "\<And>e. fst (file_cipher_run fn E ip op key alg aad chunk name s) = Done (Inl e) \<Longrightarrow> e \<noteq> ArgumentError \<Longrightarrow>
      (\<And>w. \<not> delete_refused E w (tmp_path op)) \<Longrightarrow> file_at w' (tmp_path op) = None"
proof -
  let ?ad = "case aad of None \<Rightarrow> [] | Some a \<Rightarrow> a" and ?tp = "tmp_path op"
  let ?run = "file_cipher_run fn E ip op key alg aad chunk name s"
  have "t_ok s" "t_top s \<le> 2 ^ 62" "length key + length ?ad \<le> 2 ^ 61" "usable_path ip" "usable_path ?tp"
    using req by (simp_all add: dart_request_def)
  note args = this
  obtain i k a j w where call: "file_cipher_call fn ip ?tp key alg ?ad chunk s =
      (fst (fn (alg_id alg) k (of_nat (length key)) a (of_nat (length ?ad)) chunk i j w),
       \<lparr>t_world = snd (fn (alg_id alg) k (of_nat (length key)) a (of_nat (length ?ad)) chunk i j w), t_top = t_top s\<rparr>)"
    and w: "w = (t_world s)\<lparr>mem := mem w\<rparr>" and j: "c_string (mem w) j = Some ?tp"
    by (rule file_cipher_call_run [OF args, of fn alg chunk]) blast
  let ?r = "fst (fn (alg_id alg) k (of_nat (length key)) a (of_nat (length ?ad)) chunk i j w)"
    and ?v = "snd (fn (alg_id alg) k (of_nat (length key)) a (of_nat (length ?ad)) chunk i j w)"
  have same: "file_at w = file_at (t_world s)" "out_ino w = out_ino (t_world s)" "separate w = separate (t_world s)"
  proof -
    have "names w = names (t_world s)" "inodes w = inodes (t_world s)" "next_ino w = next_ino (t_world s)"
      by (subst w, simp)+
    then show "file_at w = file_at (t_world s)" "out_ino w = out_ino (t_world s)" "separate w = separate (t_world s)"
      by (intro HOL.ext; simp add: file_at_def out_ino_def separate_def split: option.split)+
  qed
  have "touches ?tp (out_ino w ?tp) w ?v" using fn [OF j] by (simp add: touch_def)
  then have v: "file_at ?v q = file_at (t_world s) q" if "q \<noteq> ?tp" "separate (t_world s) q ?tp" for q
    using touches_file_at [of ?tp w ?v q] that same by simp
  have cases: "w' = t_world s \<and> fst ?run = Done (Inl ArgumentError) \<or> w' = ?v \<and> (\<forall>e. fst ?run \<noteq> Done (Inl e)) \<or> w' = delete_quiet E ?tp ?v"
  proof (cases "sint chunk \<le> 0")
    case True
    then show ?thesis by (simp add: w'_def file_cipher_run_def)
  next
    case False
    note run = file_cipher_run_def [of fn E ip op key alg aad chunk name]
    show ?thesis
    proof (cases ?r)
      case (Done rc)
      then have c: "file_cipher_call fn ip ?tp key alg ?ad chunk s = (Done rc, \<lparr>t_world = ?v, t_top = t_top s\<rparr>)"
        using call by simp
      show ?thesis
      proof (cases "rc = code Ok")
        case True
        obtain x v' where rn: "rename_names E ?tp op ?v = (x, v')" by force
        then show ?thesis
          using fails False True c rename_names_refused [of E ?tp op ?v]
          by (cases x) (auto simp: w'_def run Let_def run_simps ffi_call_def)
      next
        case bad: False
        then show ?thesis using False c by (simp add: w'_def run Let_def run_simps ffi_call_def)
      qed
    qed (use False call in \<open>simp_all add: w'_def run Let_def bind_comp_def\<close>)
  qed
  show "file_at w' q = file_at (t_world s) q" if "q \<noteq> ?tp" "separate (t_world s) q ?tp" for q
    using cases v [OF that] that(1) by auto
  show "file_at w' ?tp = None"
    if "fst ?run = Done (Inl e)" "e \<noteq> ArgumentError" "\<And>w. \<not> delete_refused E w ?tp" for e
    using cases that by auto
qed

section \<open>What is published\<close>

lemma healthy_names:
  assumes h: "healthy w" and N: "\<And>q i. N q = Some i \<Longrightarrow> \<exists>p. names w p = Some i"
    and inj: "\<And>q q' i. N q = Some i \<Longrightarrow> N q' = Some i \<Longrightarrow> q = q'"
  shows "healthy (w\<lparr>names := N\<rparr>)"
proof -
  have "i < next_ino w" if "N q = Some i" for q i
  proof -
    from N [OF that] obtain p where "names w p = Some i" by blast
    then show ?thesis using h by (simp add: healthy_def fs_ok_def)
  qed
  then have "fs_ok (w\<lparr>names := N\<rparr>)" by (simp add: fs_ok_def)
  moreover have "no_read_fail (w\<lparr>names := N\<rparr>)" "grants (w\<lparr>names := N\<rparr>) n = grants w n" for n
    using h by (simp_all add: healthy_def no_read_fail_def grants_def)
  moreover have "\<forall>p q i. N p = Some i \<longrightarrow> N q = Some i \<longrightarrow> p = q" using inj by blast
  ultimately show ?thesis using h by (simp add: healthy_def)
qed

lemma healthy_delete:
  assumes "healthy w"
  shows "healthy (delete_quiet E p w)"
proof -
  have "healthy (w\<lparr>names := (names w)(p := None)\<rparr>)"
    by (rule healthy_names [OF assms]) (use assms in \<open>auto simp: healthy_def split: if_splits\<close>)
  then show ?thesis using assms by (simp add: delete_quiet_def)
qed

lemma healthy_rename:
  assumes "healthy w" "rename_names E old new w = (r, w')"
  shows "healthy w'"
proof -
  have "healthy (w\<lparr>names := (names w)(new := names w old, old := None)\<rparr>)"
    by (rule healthy_names [OF assms(1)]) (use assms(1) in \<open>auto simp: healthy_def split: if_splits\<close>)
  then show ?thesis using assms by (auto simp: rename_names_def split: if_splits)
qed

lemma cipher_fields [simp]:
  "disk_room (delete_quiet E p w) = disk_room w"
  by (simp add: delete_quiet_def)

text \<open>The outcome of a run whose native call ends with the status \<open>st\<close> and the temporary file \<open>out\<close>.\<close>

lemma file_cipher_outcome:
  fixes fn :: file_fn
  assumes call: "file_cipher_call fn ip (tmp_path op) key alg (case aad of None \<Rightarrow> [] | Some a \<Rightarrow> a) chunk s =
      (Done (code st), s1)"
    and chunk: "0 < sint chunk" and s1: "healthy (t_world s1)"
    and tmp: "file_at (t_world s1) = F(tmp_path op := Some out)"
    and io: "\<And>w. \<not> rename_refused E w (tmp_path op) op" "\<And>w. \<not> delete_refused E w (tmp_path op)"
  shows "\<exists>w'. file_cipher_run fn E ip op key alg aad chunk name s =
      (Done (if st = Ok then Inr () else Inl (file_throw_status name st)), s1\<lparr>t_world := w'\<rparr>) \<and> healthy w' \<and>
    file_at w' = (if st = Ok then F(op := Some out, tmp_path op := None) else F(tmp_path op := None)) \<and>
    disk_room w' = disk_room (t_world s1)"
proof (cases "st = Ok")
  case True
  let ?w = "t_world s1"
  have at: "file_at ?w (tmp_path op) = Some out" using tmp by simp
  then obtain i where i: "names ?w (tmp_path op) = Some i" by (auto simp: file_at_def)
  have neq: "names ?w (tmp_path op) \<noteq> names ?w op"
  proof
    assume "names ?w (tmp_path op) = names ?w op"
    then have "tmp_path op = op" using i s1 unfolding healthy_def by metis
    then show False by simp
  qed
  obtain w' where r: "rename_names E (tmp_path op) op ?w = (Inr (), w')"
    using i neq io(1) by (simp add: rename_names_def)
  have "file_at w' = F(op := Some out, tmp_path op := None)"
    using rename_names_done(1) [OF r tmp_path_neq(1) neq] by (simp add: tmp fun_eq_iff)
  moreover have "disk_room w' = disk_room ?w" using r by (auto simp: rename_names_def split: if_splits)
  ultimately show ?thesis
    using True call chunk r healthy_rename [OF s1 r]
    by (intro exI [of _ w']) (simp add: file_cipher_run_def Let_def run_simps ffi_call_def del: code.simps)
next
  case False
  let ?w = "delete_quiet E (tmp_path op) (t_world s1)"
  have "file_at ?w = F(tmp_path op := None)"
  proof
    fix q show "file_at ?w q = (F(tmp_path op := None)) q"
      using io(2) tmp by (cases "q = tmp_path op") simp_all
  qed
  then show ?thesis
    using False call chunk healthy_delete [OF s1]
    by (intro exI [of _ ?w]) (simp add: file_cipher_run_def Let_def run_simps ffi_call_def del: code.simps)
qed

text \<open>The request the native core sees, and what its result is here.\<close>

lemma cipher_request:
  assumes "healthy (t_world s)" "dart_request s ip op key aad" "ad = (case aad of None \<Rightarrow> [] | Some a \<Rightarrow> a)"
    and "file_at (t_world s) ip = Some data" "ip \<noteq> tmp_path op"
    and f: "\<And>i k a j w. w = (t_world s)\<lparr>mem := mem w\<rparr> \<Longrightarrow> healthy w \<Longrightarrow> separate w ip (tmp_path op) \<Longrightarrow>
      file_request w k (of_nat (length key)) key a (of_nat (length ad)) ad i ip j (tmp_path op) data \<Longrightarrow>
      \<exists>w'. fn (alg_id alg) k (of_nat (length key)) a (of_nat (length ad)) chunk i j w = (Done (code st), w') \<and>
        file_result (tmp_path op) out room w w'"
  obtains w' where "file_cipher_call fn ip (tmp_path op) key alg ad chunk s = (Done (code st), \<lparr>t_world = w', t_top = t_top s\<rparr>)"
    and "healthy w'" "file_at w' = (file_at (t_world s))(tmp_path op := Some out)" "disk_room w' = room"
proof -
  let ?tp = "tmp_path op"
  have args: "t_ok s" "t_top s \<le> 2 ^ 62" "length key + length ad \<le> 2 ^ 61" "usable_path ip" "usable_path ?tp"
    using assms(2,3) by (simp_all add: dart_request_def)
  obtain i k a j w where call: "file_cipher_call fn ip ?tp key alg ad chunk s =
      (fst (fn (alg_id alg) k (of_nat (length key)) a (of_nat (length ad)) chunk i j w),
       \<lparr>t_world = snd (fn (alg_id alg) k (of_nat (length key)) a (of_nat (length ad)) chunk i j w), t_top = t_top s\<rparr>)"
    and w: "w = (t_world s)\<lparr>mem := mem w\<rparr>"
    and sl: "slice_at (mem w) k (of_nat (length key)) key" "slice_at (mem w) a (of_nat (length ad)) ad"
    and paths: "\<not> is_null i" "c_string (mem w) i = Some ip" "\<not> is_null j" "c_string (mem w) j = Some ?tp"
    by (rule file_cipher_call_run [OF args, of fn alg chunk]) blast
  have F: "file_at w = file_at (t_world s)" by (subst w) (simp add: file_at_def fun_eq_iff)
  have h: "healthy w" using assms(1) by (subst w) (simp add: healthy_def fs_ok_def no_read_fail_def grants_def)
  have "file_request w k (of_nat (length key)) key a (of_nat (length ad)) ad i ip j ?tp data"
    using h args(4,5) sl paths assms(4) F
    by (simp add: file_request_def slice_at_input usable_path_def healthy_def)
  moreover have sep: "separate w ip ?tp" by (rule separate_of [OF h]) (use F assms(4,5) in simp_all)
  ultimately obtain w' where "fn (alg_id alg) k (of_nat (length key)) a (of_nat (length ad)) chunk i j w = (Done (code st), w')"
    and r: "file_result ?tp out room w w'"
    using f [OF w h] by blast
  moreover have "healthy w'" "file_at w' = (file_at w)(?tp := Some out)"
    using healthy_frame [OF h] file_frame_files(1) [OF h] r by (auto simp: file_result_def)
  ultimately show ?thesis using call F by (intro that) (auto simp: file_result_def)
qed

lemma sint_positive:
  fixes c :: "64 word"
  assumes "c \<noteq> 0" "unat c < 2 ^ 63"
  shows "0 < sint c"
proof -
  have "0 < unat c" using assms(1) by (simp add: unat_gt_0)
  then show ?thesis unfolding sint_nonneg [OF assms(2)] by linarith
qed

lemma grants_mem: "w = v\<lparr>mem := m\<rparr> \<Longrightarrow> grants w n = grants v n" "w = v\<lparr>mem := m\<rparr> \<Longrightarrow> disk_room w = disk_room v"
  by (simp_all add: grants_def)

lemma cipher_seal_run:
  assumes s: "healthy (t_world s)" "dart_request s ip op key aad" "ad = (case aad of None \<Rightarrow> [] | Some a \<Rightarrow> a)"
    and F: "file_at (t_world s) ip = Some data" "ip \<noteq> tmp_path op"
    and lib: "unbound_key_new L alg key = ExtOk kk" "aead_correct L (unat chunk)"
    and sizes: "chunk \<noteq> 0" "unat chunk < 2 ^ 63" "grants (t_world s) (unat chunk)" "length data + 1 < 2 ^ 64"
    and ct: "ct = stream_seal (frame_enc L kk ad) (unat chunk) data" "length ct \<le> disk_room (t_world s)"
    and io: "\<And>w. \<not> rename_refused E w (tmp_path op) op" "\<And>w. \<not> delete_refused E w (tmp_path op)"
  shows "\<exists>w'. file_cipher_seal L E ip op key alg aad chunk s = (Done (Inr ()), \<lparr>t_world = w', t_top = t_top s\<rparr>) \<and>
    healthy w' \<and> file_at w' = (file_at (t_world s))(op := Some ct, tmp_path op := None) \<and>
    disk_room w' = disk_room (t_world s) - length ct"
proof -
  obtain w' where c: "file_cipher_call (pqforge_stream_seal_file L) ip (tmp_path op) key alg ad chunk s =
      (Done (code Ok), \<lparr>t_world = w', t_top = t_top s\<rparr>)"
    and w': "healthy w'" "file_at w' = (file_at (t_world s))(tmp_path op := Some ct)"
      "disk_room w' = disk_room (t_world s) - length ct"
  proof (rule cipher_request [OF s F, of "pqforge_stream_seal_file L" alg chunk Ok ct "disk_room (t_world s) - length ct"])
    fix i k a j w
    assume w: "w = (t_world s)\<lparr>mem := mem w\<rparr>" and sep: "separate w ip (tmp_path op)"
      and req: "file_request w k (of_nat (length key)) key a (of_nat (length ad)) ad i ip j (tmp_path op) data"
    note g = grants_mem [OF w]
    obtain w' where "pqforge_stream_seal_file L (alg_id alg) k (of_nat (length key)) a (of_nat (length ad)) chunk i j w =
        (Done (code Ok), w')" "file_result (tmp_path op) ct (disk_room w - length ct) w w'"
      by (rule seal_file_refines [OF req stream_aead_alg_id lib sizes(1) _ sizes(4) _ ct(1)])
         (use g sizes(3) sep ct(2) in simp_all)
    then show "\<exists>w'. pqforge_stream_seal_file L (alg_id alg) k (of_nat (length key)) a (of_nat (length ad)) chunk i j w =
        (Done (code Ok), w') \<and> file_result (tmp_path op) ct (disk_room (t_world s) - length ct) w w'"
      using g(2) by auto
  qed blast
  show ?thesis
    using file_cipher_outcome [OF c [unfolded s(3)] sint_positive [OF sizes(1,2)], of "file_at (t_world s)" ct E "''stream seal file''"]
      w' io by (auto simp: file_cipher_seal_def)
qed

lemma cipher_open_run:
  assumes s: "healthy (t_world s)" "dart_request s ip op key aad" "ad = (case aad of None \<Rightarrow> [] | Some a \<Rightarrow> a)"
    and F: "file_at (t_world s) ip = Some ct" "ip \<noteq> tmp_path op"
    and lib: "unbound_key_new L alg key = ExtOk kk" "aead_quiet L"
    and sizes: "chunk \<noteq> 0" "unat chunk + TAG_LEN < 2 ^ 63" "grants (t_world s) (unat chunk + TAG_LEN)" "length ct + 1 < 2 ^ 64"
    and so: "stream_open (frame_dec L kk ad) (unat chunk + TAG_LEN) ct = (st, rel)" "length rel \<le> disk_room (t_world s)"
    and io: "\<And>w. \<not> rename_refused E w (tmp_path op) op" "\<And>w. \<not> delete_refused E w (tmp_path op)"
  shows "\<exists>w'. file_cipher_open L E ip op key alg aad chunk s =
      (Done (if st = Ok then Inr () else Inl (file_throw_status ''stream open file'' st)), \<lparr>t_world = w', t_top = t_top s\<rparr>) \<and>
    healthy w' \<and> file_at w' = (if st = Ok then (file_at (t_world s))(op := Some rel, tmp_path op := None)
      else (file_at (t_world s))(tmp_path op := None)) \<and>
    disk_room w' = disk_room (t_world s) - length rel"
proof -
  have cc: "unat chunk + TAG_LEN = unat (chunk + of_nat TAG_LEN)" "unat chunk < 2 ^ 63"
    using sizes(2) by (simp_all add: TAG_LEN_def unat_word_ariths)
  obtain w' where c: "file_cipher_call (pqforge_stream_open_file L) ip (tmp_path op) key alg ad chunk s =
      (Done (code st), \<lparr>t_world = w', t_top = t_top s\<rparr>)"
    and w': "healthy w'" "file_at w' = (file_at (t_world s))(tmp_path op := Some rel)"
      "disk_room w' = disk_room (t_world s) - length rel"
  proof (rule cipher_request [OF s F, of "pqforge_stream_open_file L" alg chunk st rel "disk_room (t_world s) - length rel"])
    fix i k a j w
    assume w: "w = (t_world s)\<lparr>mem := mem w\<rparr>" and sep: "separate w ip (tmp_path op)"
      and req: "file_request w k (of_nat (length key)) key a (of_nat (length ad)) ad i ip j (tmp_path op) ct"
    note g = grants_mem [OF w]
    obtain w' where "pqforge_stream_open_file L (alg_id alg) k (of_nat (length key)) a (of_nat (length ad)) chunk i j w =
        (Done (code st), w')" "file_result (tmp_path op) rel (disk_room w - length rel) w w'"
      by (rule open_file_refines [OF req stream_aead_alg_id lib sizes(1) cc(1) _ _ sizes(4) _ so(1)])
         (use g sizes(3) sep so(2) TAG_LEN_def in simp_all)
    then show "\<exists>w'. pqforge_stream_open_file L (alg_id alg) k (of_nat (length key)) a (of_nat (length ad)) chunk i j w =
        (Done (code st), w') \<and> file_result (tmp_path op) rel (disk_room (t_world s) - length rel) w w'"
      using g(2) by auto
  qed blast
  show ?thesis
    using file_cipher_outcome [OF c [unfolded s(3)] sint_positive [OF sizes(1) cc(2)], of "file_at (t_world s)" rel E "''stream open file''"]
      w' io by (auto simp: file_cipher_open_def)
qed

end
