(* ===== verification/Instances.thy ===== *)
theory Instances
  imports Test_Files Test_Kem Test_Sign Test_Classical Dart_Providers Dart_File_Cipher
begin

text \<open>
  Concrete inputs at which the theorems of the root theory are instantiated: a small
  executable stand-in for each record of linked primitives, which satisfies the laws
  the theorems assume of it, and one caller with its memory and files.
\<close>

section \<open>Primitives\<close>

definition small_tag :: "bytes \<Rightarrow> bytes" where
  "small_tag n = take 16 (n @ replicate 16 0)"

definition small_aead :: "bytes aead_lib" where
  "small_aead = \<lparr>
     unbound_key_new = (\<lambda>alg k. if length k = 32 then ExtOk k else ExtErr),
     nonce_new = (\<lambda>n. if length n = 12 then ExtOk n else ExtErr),
     seal_append_tag = (\<lambda>k n a p. ExtOk (p @ small_tag n)),
     open_in_place = (\<lambda>k n a c.
       if 16 \<le> length c \<and> drop (length c - 16) c = small_tag n
       then ExtOk (take (length c - 16) c) else ExtErr)\<rparr>"

lemma length_small_tag [simp]: "length (small_tag n) = 16"
  by (simp add: small_tag_def)

lemma small_aead_correct: "aead_correct small_aead limit"
  by (simp add: aead_correct_def small_aead_def)

lemma small_aead_tidy: "aead_tidy small_aead"
  unfolding aead_tidy_def
proof (intro allI impI)
  fix k n a c p
  assume "open_in_place small_aead k n a c = ExtOk p"
  then have "16 \<le> length c" "drop (length c - 16) c = small_tag n" "p = take (length c - 16) c"
    by (auto simp: small_aead_def split: if_splits)
  then show "seal_append_tag small_aead k n a p = ExtOk c \<and> length c = length p + 16"
    using append_take_drop_id [of "length c - 16" c] by (simp add: small_aead_def)
qed

lemma small_aead_quiet: "aead_quiet small_aead"
  by (simp add: aead_quiet_def small_aead_def)

lemma small_aead_shortens: "open_shortens small_aead"
  by (simp add: open_shortens_def small_aead_def)

lemma small_aead_key [simp]:
  "length k = 32 \<Longrightarrow> unbound_key_new small_aead alg k = ExtOk k"
  by (simp add: small_aead_def)

definition small_kem :: "(u8, u8) kem_lib" where
  "small_kem = \<lparr>
     dk_generate = (\<lambda>alg g. (ExtOk (of_nat g), Suc g)),
     encapsulation_key = ExtOk,
     ek_bytes = (\<lambda>ek. ExtOk [ek]),
     dk_bytes = (\<lambda>dk. ExtOk [dk, dk]),
     ek_new = (\<lambda>alg bs. case bs of [x] \<Rightarrow> ExtOk x | _ \<Rightarrow> ExtErr),
     dk_new = (\<lambda>alg bs. case bs of [x, y] \<Rightarrow> if x = y then ExtOk x else ExtErr | _ \<Rightarrow> ExtErr),
     encapsulate = (\<lambda>ek g. (ExtOk ([of_nat g], [ek + of_nat g]), Suc g)),
     decapsulate = (\<lambda>dk c. case c of [x] \<Rightarrow> ExtOk [dk + x] | _ \<Rightarrow> ExtErr)\<rparr>"

lemma small_kem_correct: "kem_correct small_kem alg good"
  by (simp add: kem_correct_def small_kem_def)

definition small_dsa :: "u8 dsa_lib" where
  "small_dsa = \<lparr>
     dsa_generate = (\<lambda>alg g. (ExtOk (of_nat g), Suc g)),
     dsa_from_raw = (\<lambda>alg bs. case bs of [x] \<Rightarrow> ExtOk x | _ \<Rightarrow> ExtErr),
     dsa_from_seed = (\<lambda>alg bs. if length bs = 32 then ExtOk (hd bs) else ExtErr),
     dsa_public = (\<lambda>kp. [kp, kp]),
     dsa_raw_private = (\<lambda>kp. ExtOk [kp]),
     dsa_signature_len = (\<lambda>kp. 3),
     dsa_sign = (\<lambda>kp m g. (ExtOk [kp, of_nat (length m), 7], Suc g)),
     dsa_verify = (\<lambda>alg pk m sg.
       if length sg = 3 \<and> pk = [sg ! 0, sg ! 0] \<and> sg ! 1 = of_nat (length m) \<and> sg ! 2 = 7
       then ExtOk () else ExtErr)\<rparr>"

lemma small_dsa_correct: "dsa_correct small_dsa alg"
  by (simp add: dsa_correct_def small_dsa_def)

definition small_classical :: "(bytes, bytes) classical_lib" where
  "small_classical = \<lparr>
     rand_fill = (\<lambda>n g. (ExtOk (replicate n (of_nat g)), Suc g)),
     x_private = (\<lambda>k. if length k = 32 then ExtOk k else ExtErr),
     x_public = ExtOk,
     x_agree = (\<lambda>k p. ExtOk (map2 (+) k p)),
     ed_from_seed = (\<lambda>s. if length s = 32 then ExtOk s else ExtErr),
     ed_public = (\<lambda>k. k),
     ed_sign = (\<lambda>k m. Inr (k @ replicate 31 0 @ [of_nat (length m)])),
     ed_verify = (\<lambda>pk m sg. if sg = pk @ replicate 31 0 @ [of_nat (length m)] then ExtOk () else ExtErr)\<rparr>"

lemma map2_add_commute: "map2 (+) xs ys = map2 (+) ys (xs :: u8 list)"
  by (induction xs arbitrary: ys) (auto simp: add.commute split: list.splits simp: zip_Cons1)

lemma small_dh_correct: "dh_correct small_classical"
  by (auto simp: dh_correct_def small_classical_def intro: map2_add_commute split: if_splits)

lemma small_ed_correct: "ed_correct small_classical"
  by (auto simp: ed_correct_def small_classical_def split: if_splits)

section \<open>Primitives of the sizes of the standards\<close>

text \<open>The stand-ins again, padded to the sizes of ML-KEM-768 and ML-DSA-65.\<close>

definition fips_kem :: "(u8, u8) kem_lib" where
  "fips_kem = \<lparr>
     dk_generate = (\<lambda>alg g. (ExtOk (of_nat g), Suc g)),
     encapsulation_key = ExtOk,
     ek_bytes = (\<lambda>ek. ExtOk (replicate 1184 ek)),
     dk_bytes = (\<lambda>dk. ExtOk (replicate 2400 dk)),
     ek_new = (\<lambda>alg bs. if length bs = 1184 then ExtOk (hd bs) else ExtErr),
     dk_new = (\<lambda>alg bs. if length bs = 2400 then ExtOk (hd bs) else ExtErr),
     encapsulate = (\<lambda>ek g. (ExtOk (replicate 1088 (of_nat g), replicate 32 (ek + of_nat g)), Suc g)),
     decapsulate = (\<lambda>dk c. if length c = 1088 then ExtOk (replicate 32 (dk + hd c)) else ExtErr)\<rparr>"

lemma fips_kem_correct: "kem_correct fips_kem alg good"
  by (simp add: kem_correct_def fips_kem_def)

lemma fips_kem_sizes: "kem_sizes fips_kem alg KEM_PK KEM_SK KEM_CT KEM_SS"
  by (simp add: kem_sizes_def fips_kem_def mlkem_keygen_spec_def mlkem_encapsulate_spec_def kem_size_defs)

definition fips_dsa :: "u8 dsa_lib" where
  "fips_dsa = \<lparr>
     dsa_generate = (\<lambda>alg g. (ExtOk (of_nat g), Suc g)),
     dsa_from_raw = (\<lambda>alg bs. if length bs = 4032 then ExtOk (hd bs) else ExtErr),
     dsa_from_seed = (\<lambda>alg bs. if length bs = 32 then ExtOk (hd bs) else ExtErr),
     dsa_public = (\<lambda>kp. replicate 1952 kp),
     dsa_raw_private = (\<lambda>kp. ExtOk (replicate 4032 kp)),
     dsa_signature_len = (\<lambda>kp. 3309),
     dsa_sign = (\<lambda>kp m g. (ExtOk (replicate 3309 (kp + sum_list m)), Suc g)),
     dsa_verify = (\<lambda>alg pk m sg. if sg = replicate 3309 (hd pk + sum_list m) then ExtOk () else ExtErr)\<rparr>"

lemma fips_dsa_correct: "dsa_correct fips_dsa alg"
  by (simp add: dsa_correct_def fips_dsa_def)

lemma fips_dsa_sizes: "dsa_sizes fips_dsa 1 ML_DSA_65 DSA_PK DSA_SK DSA_SIG"
  by (simp add: dsa_sizes_def fips_dsa_def mldsa_keygen_spec_def mldsa_sign_spec_def mldsa_from_seed_spec_def
      exported_pair_def dsa_alg_def dsa_size_defs)

lemma small_aead_keys: "aead_keys small_aead"
  by (simp add: aead_keys_def small_aead_def)

lemma small_draws: "draws small_classical"
  by (simp add: draws_def small_classical_def)

lemma small_x25519_sizes: "x25519_sizes small_classical"
  by (simp add: x25519_sizes_def x25519_pair_def x25519_shared_def small_classical_def)

lemma small_ed25519_sizes: "ed25519_sizes small_classical"
  by (simp add: ed25519_sizes_def ed25519_pair_def ed25519_sign_spec_def small_classical_def)

section \<open>A caller\<close>

text \<open>
  Zeroed memory up to 64 KiB with three C strings in it, a readable file \<open>a\<close> of five bytes,
  reads that come back short, and an operating system that grants everything.
\<close>

definition caller_mem :: heap where
  "caller_mem =
    put_bytes 1024 [97, 0] (put_bytes 1040 [98, 0] (put_bytes 1056 [99, 0]
      (\<lambda>p. if 8 \<le> p \<and> p < 65536 then Some 0 else None)))"

definition caller :: world where
  "caller = \<lparr>mem = caller_mem, rng = 3, hook = ReportingHook 7, panic_log = [],
     mlock_rc = (\<lambda>n l. 0), locked_bytes = 0,
     vec_zeroize = (\<lambda>bs. (replicate (length bs) 0, [])), released = [],
     alloc_ok = (\<lambda>n. n \<le> 1000000),
     names = [[97] \<mapsto> 0], inodes = (\<lambda>i. if i = 0 then [1, 2, 3, 4, 5] else []), next_ino = 1,
     open_err = (\<lambda>p. None), create_err = (\<lambda>p. None), read_plan = [ReadShort 1], disk_room = 4000\<rparr>"

lemma caller_fields [simp]:
  "mem caller = caller_mem" "rng caller = 3" "hook caller = ReportingHook 7" "panic_log caller = []"
  "mlock_rc caller n l = 0" "locked_bytes caller = 0"
  "vec_zeroize caller bs = (replicate (length bs) 0, [])" "released caller = []"
  "alloc_ok caller k \<longleftrightarrow> k \<le> 1000000" "names caller = [[97] \<mapsto> 0]"
  "inodes caller i = (if i = 0 then [1, 2, 3, 4, 5] else [])" "next_ino caller = 1"
  "open_err caller p = None" "create_err caller p = None" "read_plan caller = [ReadShort 1]"
  "disk_room caller = 4000"
  by (simp_all add: caller_def)

lemma caller_mapped: "8 \<le> p \<Longrightarrow> p + n \<le> 65536 \<Longrightarrow> mapped caller_mem p n"
  by (simp add: mapped_iff caller_mem_def put_bytes_def)

lemma caller_zero: "2048 \<le> p \<Longrightarrow> p < 65536 \<Longrightarrow> caller_mem p = Some 0"
  by (simp add: caller_mem_def put_bytes_def)

lemma caller_bytes: "2048 \<le> p \<Longrightarrow> p + n \<le> 65536 \<Longrightarrow> bytes_at caller_mem p (replicate n 0)"
  by (simp add: bytes_at_nth caller_zero)

lemma caller_slice_ok: "8 \<le> p \<Longrightarrow> p + n \<le> 65536 \<Longrightarrow> slice_ok caller_mem p n"
  by (simp add: slice_ok_def is_null_def isize_max_def caller_mapped)

lemma caller_slice:
  "2048 \<le> p \<Longrightarrow> p + unat n \<le> 65536 \<Longrightarrow> slice_at caller_mem p n (replicate (unat n) 0)"
  by (simp add: slice_at_def is_null_def isize_max_def caller_bytes)

lemma caller_input:
  "2048 \<le> p \<Longrightarrow> p + unat n \<le> 65536 \<Longrightarrow> input_at caller_mem p n (replicate (unat n) 0)"
  by (auto simp: input_at_def caller_slice)

lemma caller_out: "8 \<le> p \<Longrightarrow> p + unat cap \<le> 65536 \<Longrightarrow> out_ok caller_mem p cap"
  by (simp add: out_ok_def caller_slice_ok)

lemma caller_in: "8 \<le> p \<Longrightarrow> p + unat n \<le> 65536 \<Longrightarrow> in_ok caller_mem p n"
  by (simp add: in_ok_def caller_slice_ok)

lemma caller_len: "8 \<le> p \<Longrightarrow> p + 8 \<le> 65536 \<Longrightarrow> p mod 8 = 0 \<Longrightarrow> len_ok caller_mem p"
  by (simp add: len_ok_def caller_mapped)

lemma caller_paths [simp]:
  "c_string caller_mem 1024 = Some [97]"
  "c_string caller_mem 1040 = Some [98]"
  "c_string caller_mem 1056 = Some [99]"
  by (simp_all add: c_string.simps caller_mem_def put_bytes_def)

lemma caller_odd_nonce: "slice_at caller_mem 1040 12 [98, 0, 0, 0, 0, 0, 0, 0, 0, 0, 0, 0]"
  by (simp add: slice_at_def is_null_def isize_max_def caller_mem_def put_bytes_def)

lemmas caller_simps = caller_out caller_len caller_slice caller_input caller_in caller_slice_ok is_null_def

section \<open>The caller's files\<close>

text \<open>The same caller with other contents of file \<open>a\<close>.\<close>

definition caller_with :: "bytes \<Rightarrow> world" where
  "caller_with bs = caller\<lparr>inodes := (\<lambda>i. if i = 0 then bs else [])\<rparr>"

lemma caller_with_fields [simp]:
  "mem (caller_with bs) = caller_mem" "disk_room (caller_with bs) = 4000"
  "names (caller_with bs) = [[97] \<mapsto> 0]" "next_ino (caller_with bs) = 1"
  "open_err (caller_with bs) p = None" "create_err (caller_with bs) p = None"
  "vec_zeroize (caller_with bs) x = (replicate (length x) 0, [])" "mlock_rc (caller_with bs) n l = 0"
  "locked_bytes (caller_with bs) = 0" "released (caller_with bs) = []"
  "alloc_ok (caller_with bs) k \<longleftrightarrow> k \<le> 1000000"
  by (simp_all add: caller_with_def)

lemma caller_same: "caller_with [1, 2, 3, 4, 5] = caller"
proof -
  have "(\<lambda>i. if i = 0 then [1, 2, 3, 4, 5] else []) = inodes caller" by (simp add: fun_eq_iff)
  then show ?thesis by (simp add: caller_with_def)
qed

lemma caller_grants: "n \<le> 1000000 \<Longrightarrow> grants (caller_with bs) n"
  by (simp add: grants_def isize_max_def)

lemma caller_request:
  assumes "c_string caller_mem outp = Some op" "valid_utf8 op" "\<not> is_null outp"
  shows "file_request (caller_with bs) 4096 32 (replicate 32 0) 0 0 [] 1024 [97] outp op bs"
  using assms caller_slice [of 4096 32]
  by (simp add: file_request_def input_at_def is_null_def no_read_fail_def caller_with_def file_at_def)

lemma caller_separate: "op \<noteq> [97] \<Longrightarrow> separate (caller_with bs) [97] op"
  by (simp add: separate_def out_ino_def)

lemma caller_fs_ok: "fs_ok (caller_with bs)"
  by (simp add: fs_ok_def)

text \<open>The tag of the stand-in cipher is its nonce, so a sealed frame verifies in its own place only.\<close>

lemma small_tag_inj: "length n = 12 \<Longrightarrow> length n' = 12 \<Longrightarrow> small_tag n = small_tag n' \<Longrightarrow> n = n'"
  by (auto simp: small_tag_def)

lemma small_enc: "frame_enc small_aead k ad c l p = p @ small_tag (stream_nonce c l)"
  by (simp add: frame_enc_def frame_seal_def small_aead_def)

lemma small_dec:
  "frame_dec small_aead k ad c l (p @ small_tag n) \<noteq> None \<longleftrightarrow> small_tag n = small_tag (stream_nonce c l)"
  by (simp add: frame_dec_def small_aead_def)

lemma small_no_forgery:
  "no_forgery (frame_dec small_aead k ad) (seal_list (frame_enc small_aead k ad) 0 ps)
     (seal_list (frame_enc small_aead k ad) 0 ps)"
  unfolding no_forgery_def
proof (intro allI impI conjI)
  fix i l
  assume i: "i < length (seal_list (frame_enc small_aead k ad) 0 ps)"
    and d: "frame_dec small_aead k ad (of_nat i) l (seal_list (frame_enc small_aead k ad) 0 ps ! i) \<noteq> None"
  have "seal_list (frame_enc small_aead k ad) 0 ps ! i =
      ps ! i @ small_tag (stream_nonce (of_nat i) (Suc i = length ps))"
    using i by (simp add: seal_list_nth small_enc)
  with d have "small_tag (stream_nonce (of_nat i) (Suc i = length ps)) = small_tag (stream_nonce (of_nat i) l)"
    by (simp only: small_dec)
  then have "stream_nonce (of_nat i) (Suc i = length ps) = stream_nonce (of_nat i) l"
    by (rule small_tag_inj [OF length_stream_nonce length_stream_nonce])
  then show "l = (Suc i = length (seal_list (frame_enc small_aead k ad) 0 ps))"
    unfolding stream_nonce_inj length_seal_list by (rule sym [OF conjunct2])
qed (simp_all only:)

text \<open>The same caller running the unit tests, with free memory from 64 KiB on.\<close>

definition tester :: ffi_caller where
  "tester = \<lparr>t_world = caller, t_top = 65536\<rparr>"

lemma tester_ok: "t_ok tester"
  by (simp add: t_ok_def tester_def)

text \<open>And with a disk that takes 100000 bytes.\<close>

definition file_tester :: ffi_caller where
  "file_tester = \<lparr>t_world = caller\<lparr>disk_room := 100000\<rparr>, t_top = 65536\<rparr>"

lemma file_tester_files: "n \<le> 100000 \<Longrightarrow> files_are file_tester (file_at (caller\<lparr>disk_room := 100000\<rparr>)) n"
  by (simp add: files_are_def file_tester_def t_ok_def healthy_def fs_ok_def no_read_fail_def grants_def isize_max_def)

lemma small_usable_dir: "usable_dir (ascii_bytes ''/tmp'') 4242"
  by (simp add: usable_dir_def ascii_bytes_def decimal.simps)


section \<open>The package \<open>pqforge\<close>\<close>

text \<open>The parameter sets of ML-KEM and ML-DSA-65, constant random bytes, a derivation that cuts and pads.\<close>

definition ml_kem_768 :: pq_kem where
  "ml_kem_768 = \<lparr>kem_index = 1, kem_publicKeyBytes = 1184, kem_secretKeyBytes = 2400,
     kem_ciphertextBytes = 1088, kem_sharedSecretBytes = 32\<rparr>"

definition ml_dsa_65 :: pq_sig where
  "ml_dsa_65 = \<lparr>sig_index = 1, sig_publicKeyBytes = 1952, sig_secretKeyBytes = 4032, sig_signatureBytes = 3309\<rparr>"

definition small_package :: "'s pqforge_package" where
  "small_package = \<lparr>kem_values =
      [\<lparr>kem_index = 0, kem_publicKeyBytes = 800, kem_secretKeyBytes = 1632, kem_ciphertextBytes = 768,
          kem_sharedSecretBytes = 32\<rparr>,
       ml_kem_768,
       \<lparr>kem_index = 2, kem_publicKeyBytes = 1568, kem_secretKeyBytes = 3168, kem_ciphertextBytes = 1568,
          kem_sharedSecretBytes = 32\<rparr>],
     randomBytes = (\<lambda>n s. (Done (replicate n 5), s)),
     hkdfSha256 = (\<lambda>ikm salt info n. take n (ikm @ replicate n 0))\<rparr>"

lemma small_enum: "enum_ok small_package"
proof -
  have three: "i < Suc (Suc (Suc 0)) \<longleftrightarrow> i = 0 \<or> i = 1 \<or> i = 2" for i :: nat by linarith
  show ?thesis by (auto simp: enum_ok_def small_package_def ml_kem_768_def three)
qed

lemma small_package_ok: "package_ok (small_package :: 's pqforge_package) ready"
proof -
  let ?P = "small_package :: 's pqforge_package"
  have "length (hkdfSha256 ?P i s f n) = n" "randomBytes ?P n t = (Done (replicate n 5), t)" for i s f n t
    by (simp_all add: small_package_def min_def)
  then show ?thesis using small_enum by (simp add: package_ok_def)
qed

lemma ml_kem_768_known: "kem_known ml_kem_768 ML_KEM_768"
  by (simp add: kem_known_def ml_kem_768_def kem_alg_def isize_max_def)

lemma ml_dsa_65_known: "sig_known ml_dsa_65 ML_DSA_65"
  by (simp add: sig_known_def ml_dsa_65_def dsa_alg_def isize_max_def)

lemma ml_kem_768_value: "ml_kem_768 \<in> set (kem_values small_package)"
  by (simp add: small_package_def)

lemma small_values_known: "\<forall>a\<in>set (kem_values small_package). native_known x a"
  by (auto simp: small_package_def native_known_def kem_known_def ml_kem_768_def kem_alg_def isize_max_def)

text \<open>The key pair of the stand-in for the random state 0, as a recipient.\<close>

lemma fips_recipient:
  "native_recipient (fips_kem, A) ml_kem_768 (replicate 1184 0) (replicate 2400 0) s"
proof -
  have "kem_sizes fips_kem ML_KEM_768 1184 2400 1088 32"
    using fips_kem_sizes [of ML_KEM_768] by (simp add: kem_size_defs)
  moreover have "mlkem_keygen_spec fips_kem ML_KEM_768 0 = Produce (replicate 1184 0, replicate 2400 0)"
    by (simp add: mlkem_keygen_spec_def fips_kem_def)
  ultimately show ?thesis
    unfolding native_recipient_def
    using ml_kem_768_known fips_kem_correct [of ML_KEM_768 "\<lambda>_ _. True"] by (auto simp: ml_kem_768_def)
qed

lemma small_sealing: "n \<le> 1000000 \<Longrightarrow> native_sealing (K, small_aead) n"
  by (simp add: native_sealing_def small_aead_correct small_aead_keys isize_max_def)

text \<open>A cipher under which one envelope was sealed, with one additional datum, and nothing else opens.\<close>

definition one_envelope :: parsed_envelope where
  "one_envelope = \<lparr>pe_kemAlgorithm = ml_kem_768, pe_salt = replicate 16 5, pe_nonce = replicate 12 5,
     pe_kemCiphertext = replicate 1088 3, pe_header = header_bytes ml_kem_768 (replicate 16 5) (replicate 12 5) (replicate 1088 3),
     pe_sealed = [1, 2, 3] @ replicate 16 9\<rparr>"

definition one_envelope_aead :: "bytes aead_lib" where
  "one_envelope_aead = small_aead\<lparr>open_in_place := (\<lambda>k n a c.
     if n = pe_nonce one_envelope \<and> a = auth_data (pe_header one_envelope) (Some [7]) \<and> c = pe_sealed one_envelope
     then ExtOk [1, 2, 3] else ExtErr)\<rparr>"

lemma one_envelope_well_formed: "well_formed small_package one_envelope"
  by (simp add: well_formed_def one_envelope_def ml_kem_768_value) (simp add: ml_kem_768_def)

section \<open>The packages of the fallback backend\<close>

text \<open>The stand-ins once more, behind the interfaces of the pure-Dart packages.\<close>

definition small_chacha :: "(bool \<times> bytes \<times> bytes) chacha_poly" where
  "small_chacha = \<lparr>
     cc_init = (\<lambda>enc key nonce aad. Inr (enc, nonce, [])),
     cc_getOutputSize = (\<lambda>(enc, _) n. if enc then n + 16 else n - 16),
     cc_processBytes = (\<lambda>(enc, nonce, _) data out. (Inr (0, (enc, nonce, data)), out)),
     cc_doFinal = (\<lambda>(enc, nonce, data) out n.
       if enc then (Inr (length data + 16), data @ small_tag nonce)
       else if 16 \<le> length data \<and> drop (length data - 16) data = small_tag nonce
       then (Inr (length data - 16), take (length data - 16) data) else (Inl OtherException, out))\<rparr>"

definition small_packages :: "('s, bool \<times> bytes \<times> bytes) fallback_packages" where
  "small_packages = \<lparr>
     fp_toString = (\<lambda>e. ''error''),
     fp_kemGenerate = (\<lambda>a s. (Done (Inr (replicate 1184 9, replicate 2400 9)), s)),
     fp_kemEncapsulate = (\<lambda>a pk s. (Done (Inr (replicate 1088 9, replicate 32 (hd pk + 9))), s)),
     fp_kemDecapsulate = (\<lambda>a sk ct s.
       (Done (if length sk = 2400 \<and> length ct = 1088 then Inr (replicate 32 (hd sk + hd ct)) else Inl OtherException), s)),
     fp_signGenerate = (\<lambda>a s. (Done (Inr (replicate 1952 5, replicate 4032 5)), s)),
     fp_sign = (\<lambda>a sk m s. (Done (Inr (replicate 3309 (hd sk + sum_list m))), s)),
     fp_verify = (\<lambda>a pk m sg s. (Done (Inr (sg = replicate 3309 (hd pk + sum_list m))), s)),
     fp_aesGcmEncrypt = (\<lambda>key nonce p aad. if length key = 32 then Inr (p @ small_tag nonce) else Inl ArgumentError),
     fp_aesGcmDecrypt = (\<lambda>key nonce c aad. if length c < 16 then Inl ArgumentError
       else if drop (length c - 16) c = small_tag nonce then Inr (take (length c - 16) c) else Inl OtherException),
     fp_chacha = small_chacha\<rparr>"

lemma small_seal_spec:
  "length key = 32 \<Longrightarrow> length nonce = 12 \<Longrightarrow> aid = 0 \<or> aid = 1 \<Longrightarrow>
     aead_seal_spec small_aead aid key nonce aad p = Produce (p @ small_tag nonce)"
  by (auto simp: aead_seal_spec_def small_aead_def aead_alg_def on_ext_def)

lemma small_open_spec:
  "length key = 32 \<Longrightarrow> length nonce = 12 \<Longrightarrow> aid = 0 \<or> aid = 1 \<Longrightarrow>
     aead_open_spec small_aead aid key nonce aad c = (if length c < 16 then Refuse InvalidCiphertext
       else if drop (length c - 16) c = small_tag nonce then Produce (take (length c - 16) c) else Refuse AuthFailed)"
  by (auto simp: aead_open_spec_def small_aead_def aead_alg_def on_ext_def TAG_LEN_def)

lemma small_gcm_conforms: "gcm_conforms small_packages small_aead"
  by (auto simp: gcm_conforms_def small_seal_spec small_open_spec) (auto simp: small_packages_def TAG_LEN_def)

lemma small_chacha_conforms: "chacha_conforms small_packages small_aead"
  by (auto simp: chacha_conforms_def small_seal_spec small_open_spec cipher_ends_def TAG_LEN_def)
    (auto simp: small_packages_def small_chacha_def)

lemma small_interchangeable: "interchangeable small_packages fips_kem small_aead"
  using small_gcm_conforms small_chacha_conforms
  by (auto simp: interchangeable_def)
    (auto simp: small_packages_def mlkem_decapsulate_spec_def fips_kem_def on_ext_def)

lemma small_fallback_recipient:
  assumes "t_ok s"
  shows "fallback_recipient (fips_kem, small_packages) ml_kem_768 (replicate 1184 0) (replicate 2400 0) s"
proof -
  have "kem_sizes fips_kem ML_KEM_768 1184 2400 1088 32"
    using fips_kem_sizes [of ML_KEM_768] by (simp add: kem_size_defs)
  moreover have "mlkem_keygen_spec fips_kem ML_KEM_768 0 = Produce (replicate 1184 0, replicate 2400 0)"
    "mlkem_encapsulate_spec fips_kem ML_KEM_768 (replicate 1184 0) 9 = Produce (replicate 1088 9, replicate 32 9)"
    by (simp_all add: mlkem_keygen_spec_def mlkem_encapsulate_spec_def fips_kem_def)
  moreover have "fp_kemEncapsulate small_packages ml_kem_768 (replicate 1184 0) s = (Done (Inr (replicate 1088 9, replicate 32 9)), s)"
    by (simp add: small_packages_def)
  moreover have "kem_publicKeyBytes ml_kem_768 = 1184" "kem_secretKeyBytes ml_kem_768 = 2400"
    "kem_ciphertextBytes ml_kem_768 = 1088" "kem_sharedSecretBytes ml_kem_768 = 32"
    by (simp_all add: ml_kem_768_def)
  ultimately show ?thesis
    unfolding fallback_recipient_def
    using ml_kem_768_known fips_kem_correct [of ML_KEM_768 "\<lambda>_ _. True"] assms by (simp only: prod.case) blast
qed

text \<open>The same small primitives keep the standards on both sides, and behind a provider.\<close>

lemma fips_kem_keygen: "mlkem_keygen_spec fips_kem alg g = Produce (replicate 1184 (of_nat g), replicate 2400 (of_nat g))"
  by (simp add: mlkem_keygen_spec_def fips_kem_def)

lemma fips_kem_encapsulate:
  "mlkem_encapsulate_spec fips_kem alg (replicate 1184 k) g = Produce (replicate 1088 (of_nat g), replicate 32 (k + of_nat g))"
  by (simp add: mlkem_encapsulate_spec_def fips_kem_def)

lemma byte_drawn: "\<exists>g. word_of_nat g = (k :: u8)"
  by (rule exI [of _ "unat k"]) simp

lemma fips_dsa_keygen: "mldsa_keygen_spec fips_dsa alg g = Produce (replicate 1952 (of_nat g), replicate 4032 (of_nat g))"
  by (simp add: mldsa_keygen_spec_def exported_pair_def fips_dsa_def)

lemma fips_dsa_sign:
  "mldsa_sign_spec fips_dsa alg (replicate 4032 k) m g = Produce (replicate 3309 (k + sum_list m))"
  by (simp add: mldsa_sign_spec_def fips_dsa_def)

lemma fips_implements: "kem_implements fips_kem ml_kem_768 ML_KEM_768" "dsa_implements fips_dsa ml_dsa_65 ML_DSA_65"
  using ml_kem_768_known ml_dsa_65_known fips_kem_correct fips_kem_sizes [of ML_KEM_768] fips_dsa_correct fips_dsa_sizes
  by (simp_all add: kem_implements_def dsa_implements_def ml_kem_768_def ml_dsa_65_def kem_size_defs dsa_size_defs)

lemma fips_seeds_draw: "seeds_draw fips_dsa 1 ML_DSA_65"
  unfolding seeds_draw_def
proof (intro allI impI)
  fix seed pk sk
  assume "mldsa_from_seed_spec fips_dsa 1 seed = Produce (pk, sk)"
  then have "pk = replicate 1952 (hd seed) \<and> sk = replicate 4032 (hd seed)"
    by (auto simp: mldsa_from_seed_spec_def dsa_alg_def fips_dsa_def exported_pair_def split: if_splits)
  then show "\<exists>g. mldsa_keygen_spec fips_dsa ML_DSA_65 g = Produce (pk, sk)"
    by (intro exI [of _ "unat (hd seed)"]) (simp add: fips_dsa_keygen)
qed

lemma small_kem_ops:
  "kem_ops fips_kem ML_KEM_768 (fp_kemGenerate small_packages ml_kem_768) (fp_kemEncapsulate small_packages ml_kem_768)
    (fp_kemDecapsulate small_packages ml_kem_768)"
  by (simp add: kem_ops_def small_packages_def fips_kem_keygen)
    (auto simp: fips_kem_encapsulate byte_drawn)

lemma small_dsa_ops:
  "dsa_ops fips_dsa 1 ML_DSA_65 (fp_signGenerate small_packages ml_dsa_65) (fp_sign small_packages ml_dsa_65)
    (fp_verify small_packages ml_dsa_65)"
  by (auto simp: dsa_ops_def small_packages_def fips_dsa_keygen fips_dsa_sign byte_drawn)

lemma small_standards: "standards_kept (fips_kem, small_aead, fips_dsa, small_packages) ml_kem_768 ML_KEM_768 ml_dsa_65 ML_DSA_65"
  using fips_implements small_interchangeable small_kem_ops small_dsa_ops
  by (simp add: standards_kept_def ml_dsa_65_def)

text \<open>A provider of the package: seeds and nonces decide, contexts and the flag go into the signature.\<close>

definition small_lattice :: "ffi_caller lattice_provider" where
  "small_lattice = \<lparr>
     lp_kemGenerateKeyPair = (\<lambda>a seed t. case seed of
         Some sd \<Rightarrow> (Done (Inr (replicate 1184 (hd sd), replicate 2400 (hd sd))), t)
       | None \<Rightarrow> fp_kemGenerate small_packages a t),
     lp_kemEncapsulate = (\<lambda>a pk nonce t. case nonce of
         Some n \<Rightarrow> (Done (Inr (replicate 1088 (hd n), replicate 32 (hd pk + hd n))), t)
       | None \<Rightarrow> fp_kemEncapsulate small_packages a pk t),
     lp_kemDecapsulate = fp_kemDecapsulate small_packages,
     lp_dsaGenerateKeyPair = fp_signGenerate small_packages,
     lp_dsaGenerateKeyPairSeeded = (\<lambda>a sd t. (Done (Inr (replicate 1952 (hd sd), replicate 4032 (hd sd))), t)),
     lp_dsaSign = (\<lambda>a sk m ctx preHash t.
       (Done (Inr [hd sk + sum_list m, case ctx of None \<Rightarrow> 0 | Some c \<Rightarrow> sum_list c, of_bool preHash]), t)),
     lp_dsaVerify = (\<lambda>a pk m sg ctx preHash t.
       (Done (Inr (sg = [hd pk + sum_list m, case ctx of None \<Rightarrow> 0 | Some c \<Rightarrow> sum_list c, of_bool preHash])), t))\<rparr>"

lemma small_lattice_lawful: "lattice_lawful fips_kem ml_kem_768 ML_KEM_768 fips_dsa ml_dsa_65 ML_DSA_65 small_lattice"
proof -
  have ops: "kem_ops fips_kem ML_KEM_768 (lp_kemGenerateKeyPair small_lattice ml_kem_768 seed)
      (\<lambda>pk. lp_kemEncapsulate small_lattice ml_kem_768 pk nonce) (lp_kemDecapsulate small_lattice ml_kem_768)" for seed nonce
    using small_kem_ops
    by (cases seed; cases nonce)
       (auto simp: kem_ops_def small_lattice_def fips_kem_keygen fips_kem_encapsulate byte_drawn)
  show ?thesis
    using ops by (auto simp: lattice_lawful_def) (auto simp: small_lattice_def small_packages_def fips_dsa_keygen byte_drawn)
qed

text \<open>A classical provider that can do nothing.\<close>

definition refusing_classical :: "ffi_caller classical_provider" where
  "refusing_classical = \<lparr>
     cp_x25519GenerateKeyPair = (\<lambda>_. dart_throw OtherException), cp_x25519SharedSecret = (\<lambda>_ _. dart_throw OtherException),
     cp_ed25519GenerateKeyPair = (\<lambda>_. dart_throw OtherException), cp_ed25519PublicKeyFromSeed = (\<lambda>_. dart_throw OtherException),
     cp_ed25519Sign = (\<lambda>_ _ _. dart_throw OtherException), cp_ed25519Verify = (\<lambda>_ _ _. dart_throw OtherException),
     cp_p256GenerateKeyPair = (\<lambda>_. dart_throw OtherException), cp_p256SharedSecret = (\<lambda>_ _. dart_throw OtherException),
     cp_p384GenerateKeyPair = (\<lambda>_. dart_throw OtherException), cp_p384SharedSecret = (\<lambda>_ _. dart_throw OtherException),
     cp_ecdsaP256GenerateKeyPair = dart_throw OtherException,
     cp_ecdsaP256PublicKeyFromPrivate = (\<lambda>_. dart_throw OtherException),
     cp_ecdsaP256Sign = (\<lambda>_ _. dart_throw OtherException), cp_ecdsaP256Verify = (\<lambda>_ _ _. dart_throw OtherException)\<rparr>"

text \<open>A Dart process over the files of the caller, and an operating system that refuses nothing.\<close>

definition willing_io :: dart_io where
  "willing_io = \<lparr>rename_refused = (\<lambda>w old new. False), delete_refused = (\<lambda>w p. False)\<rparr>"

lemma willing_io [simp]: "\<not> rename_refused willing_io w old new" "\<not> delete_refused willing_io w p"
  by (simp_all add: willing_io_def)

lemma tester_healthy: "healthy (t_world tester)"
  by (simp add: tester_def healthy_def fs_ok_def no_read_fail_def grants_def isize_max_def)

lemma tester_request: "dart_request tester [97] [97] (replicate 32 0) None"
  by (simp add: dart_request_def tester_ok) (simp add: tester_def usable_path_def tmp_path_def ascii_bytes_def)

lemma tester_file: "file_at (t_world tester) [97] = Some [1, 2, 3, 4, 5]"
  by (simp add: tester_def file_at_def)

end
