(* ===== verification/Spec2Isabelle.thy ===== *)
theory Spec2Isabelle
  imports Instances
begin

text \<open>
  \<^bold>\<open>The program.\<close> \<open>pqforge_core\<close> (\<open>rust/crates/pqforge_core/src\<close>) is the native core of the
  Dart package \<open>pqforge_ffi\<close>: a C-ABI over the primitives of AWS-LC. Every exported
  function takes raw pointers, works inside a panic guard, writes its results into
  buffers of the caller and returns a status code. One part has logic of its own beyond
  the marshalling: the file pipeline, which seals a file as a STREAM of authenticated
  frames and opens it again.

  \<^bold>\<open>Theories and sources.\<close>
  \<^item> \<open>Prelude\<close>: machine types, outcomes (\<open>Done\<close>, \<open>Panic\<close>, \<open>Abort\<close>, \<open>Undefined\<close>), their
    sequencing, scopes with destructors, calls into a linked crate, cutting a list into blocks.
  \<^item> \<open>World\<close>: the state. The caller's memory is a partial map from addresses to bytes; a
    raw-pointer operation outside its contract is \<open>Undefined\<close>. The rest is what the
    operating system and the runtime keep: files, locked pages, panic hook, allocator.
  \<^item> \<open>Status\<close>: \<open>error.rs\<close> (\<open>PqForgeStatus\<close>, \<open>PqForgeError\<close>, \<open>guard\<close>, \<open>write_out\<close>,
    \<open>finish\<close>) and the locale \<open>ffi_entry\<close>, interpreted on every entry point.
  \<^item> \<open>Abi\<close>: \<open>lib.rs\<close> and \<open>crypto/mod.rs\<close> (version, echo, self-tests, status names).
  \<^item> \<open>Secret\<close>: \<open>secret.rs\<close> (\<open>PinnedSecret\<close>) and the \<open>Zeroizing\<close> buffers.
  \<^item> \<open>Contract\<close>: what the entry points share, the verdict on byte strings and its delivery
    into one or two output buffers.
  \<^item> \<open>Aead\<close>, \<open>Kem\<close>, \<open>Sign\<close>, \<open>Classical\<close>: the files of \<open>crypto/\<close> with these names. Each
    entry point \<open>pqforge_x\<close> is \<open>boundary\<close> (the source's \<open>finish(guard(..))\<close>) of \<open>x_body\<close>,
    its closure; a \<open>_spec\<close> states its verdict on byte strings.
  \<^item> \<open>Frames\<close>: nonce, counter and the meaning of a stream (\<open>stream_seal\<close>, \<open>stream_open\<close>),
    without files; locales \<open>frame_codec\<close> and \<open>tidy_codec\<close>.
  \<^item> \<open>File_Io\<close>: paths, \<open>BufReader\<close>, \<open>BufWriter\<close> and the files under them; locales
    \<open>byte_source\<close> and \<open>byte_sink\<close>.
  \<^item> \<open>Stream_File\<close>: \<open>crypto/stream_file.rs\<close>, its loops and entry points, and their refinement
    of \<open>Frames\<close>.
  \<^item> \<open>Ffi_Caller\<close>, \<open>File_State\<close>: a program that calls the core. It places byte vectors in fresh
    memory, calls with their addresses and reads back; its file system as it sees it.
  \<^item> \<open>Test_Harness\<close>, \<open>Test_Abi\<close>, \<open>Test_Aead\<close>, \<open>Test_Kem\<close>, \<open>Test_Sign\<close>, \<open>Test_Classical\<close>,
    \<open>Test_Files\<close>: the unit tests of the sources with these names, as such programs; \<open>passes\<close>
    says that a test returns.
  \<^item> \<open>Dart_Errors\<close>: \<open>lib/src/model/errors.dart\<close>, the exceptions and what a status becomes.
  \<^item> \<open>Dart_Stream\<close>: the pure-Dart \<open>PqForgeStream\<close> (\<open>api/stream.dart\<close>) as a state machine over the
    events of its source; locale \<open>frame_backend\<close>, what a stream needs of its backend,
    interpreted on the native one.
  \<^item> \<open>Dart_Native\<close>: \<open>backend/native_backend.dart\<close>, the 15 operations of \<open>NativeBackend\<close> with the
    buffers they allocate, and the checks of \<open>NativeBackend.open\<close>.
  \<^item> \<open>Dart_Envelope\<close>: \<open>api/envelope.dart\<close>, codec, \<open>seal\<close> and \<open>open\<close>; locale \<open>kem_dem\<close>, what an
    envelope needs of its backend and of the backend that opens it.
  \<^item> \<open>Dart_Fallback\<close>: \<open>backend/fallback_backend.dart\<close>, the pure-Dart backend over two packages and
    the exceptions it makes of theirs; \<open>interchangeable\<close>, when it computes what the native one does.
  \<^item> \<open>Dart_Interop\<close>: both backends side by side; \<open>frame_backend\<close> and \<open>kem_dem\<close> are interpreted on either
    of them, so that streams and envelopes of one open on the other.
  \<^item> \<open>Dart_File_Cipher\<close>: \<open>api/file_cipher.dart\<close>, the file pipeline behind a temporary file.
  \<^item> \<open>Dart_Selector\<close>: \<open>backend/selector.dart\<close>, the singleton and its resolution.
  \<^item> \<open>Dart_Api\<close>: the interface \<open>PqForgeBackend\<close> with both implementations and the pass-throughs of
    \<open>PqForge\<close>; \<open>kem_ops\<close> and \<open>dsa_ops\<close>, operations that keep FIPS 203 and FIPS 204.
  \<^item> \<open>Dart_Providers\<close>: \<open>integration/\<close>, the native backend behind the lattice and the classical seam of
    package \<open>pqforge\<close>; locale \<open>lattice_seam\<close>, what a client of the seam relies on.
  \<^item> \<open>Instances\<close>: small computable primitives and one concrete caller, on which the
    properties with hypotheses are instantiated.

  The parts meet as in the source: \<open>Stream_File\<close> drives the AEAD primitives frame by frame,
  holds its key in a \<open>PinnedSecret\<close> and its reads in \<open>BufReader\<close>; everything goes through
  \<open>guard\<close> and \<open>finish\<close>, and all but the file pipeline through \<open>write_out\<close>. The Dart layer calls the
  same entry points: \<open>native_x\<close> runs \<open>pqforge_x\<close> on memory it fills and reads, envelopes and
  streams run on the backend, and the file cipher runs the file entry points.

  \<^bold>\<open>Parameters.\<close> AWS-LC is not part of the repository. Its functions are the fields of the
  records \<open>aead_lib\<close>, \<open>kem_lib\<close>, \<open>dsa_lib\<close>, \<open>classical_lib\<close>; each may succeed, fail or
  panic. What is relied on is named: \<open>aead_correct\<close>, \<open>kem_correct\<close>, \<open>dsa_correct\<close>,
  \<open>dh_correct\<close>, \<open>ed_correct\<close> (documented functional correctness), \<open>aead_tidy\<close> (an opened
  frame is the one its plaintext seals to), \<open>aead_quiet\<close> (failures are errors, not panics),
  \<open>no_forgery\<close> (of one concrete stream), \<open>wipes\<close> and \<open>clears\<close> (what the crate \<open>zeroize\<close>
  leaves of a vector), \<open>kem_implements\<close>, \<open>dsa_implements\<close>, \<open>seeds_draw\<close> (FIPS 203 and FIPS 204 for
  one algorithm; in \<open>kem_implements\<close> every decapsulation succeeds, which leaves out the failures of
  negligible probability that \<open>kem_correct\<close> allows). The Dart package \<open>pqforge\<close> is a parameter too:
  \<open>pqforge_package\<close> are its enums, \<open>randomBytes\<close> and \<open>hkdfSha256\<close>, with \<open>package_ok\<close>; \<open>fallback_packages\<close>
  its primitives and the cipher objects of \<open>pointycastle\<close>, with \<open>gcm_conforms\<close> and \<open>chacha_conforms\<close>
  (they implement the standards of the native library); \<open>lattice_provider\<close> and \<open>classical_provider\<close>
  its providers. So are the answers of the operating system to a rename or a deletion
  (\<open>dart_io\<close>) and of the loader of \<open>dart:ffi\<close>. Randomness is a state number the generators
  advance. The contents of a \<open>Zeroizing\<close> buffer are recorded by the bytes it was created from;
  the record of a freed buffer is what \<open>zeroize\<close> makes of these.

  \<^bold>\<open>Lemma groups.\<close> \<open>contained\<close>: no undefined behaviour and no abort, composed with
  \<open>contained_intros\<close>. \<open>keeps\<close>, \<open>touch\<close>: what a run leaves alone, whatever happens.
  \<open>_run\<close> lemmas: an entry point as the delivery of its verdict. \<open>io_view\<close>: the abstraction
  of a reader and a writer to the bytes still to come and the bytes accepted; the loops are
  shown to compute \<open>seal_list\<close> and \<open>open_list\<close> over it (\<open>seal_file_refines\<close>,
  \<open>open_file_refines\<close>). \<open>seal_state\<close> and \<open>open_list\<close> play the same part for the Dart stream, so
  that both implementations meet in \<open>stream_seal\<close> and \<open>stream_open\<close>. \<open>yields\<close>: what
  one call returns to the program that made it; the \<open>_yields\<close> lemmas state it of every operation of
  the native backend, \<open>passes\<close> turns a unit test into the conjunction of its assertions. \<open>decode_\<close>
  lemmas: the envelope format has one reading. \<open>file_cipher_failure\<close> is the atomicity of a run,
  \<open>cipher_seal_run\<close> and \<open>cipher_open_run\<close> its effect on the files. \<open>kem_ops_agree\<close> and \<open>dsa_ops_use\<close>:
  operations that keep the standards work together, whoever provides them; \<open>_ops\<close> lemmas show it
  of either backend, \<open>provider_lawful\<close> of the lattice provider.

  \<^bold>\<open>Bounds and assumptions.\<close> A 64-bit Unix target; \<open>c_int\<close> is a 32-bit word, \<open>usize\<close> and the
  frame counter 64-bit words. The release profile has no overflow checks, so
  \<open>chunk_size + TAG_LEN\<close> wraps. Both frame loops are total functions: the counter rises and
  \<open>next_counter\<close> refuses to wrap, so no fuel is used; the read loop is total since every
  read but the last adds a byte. Streams in the refinement theorems have fewer than
  \<open>2^64\<close> frames. \<open>mlock\<close>, short reads, read errors, refused opens and a full disk are free
  choices of the world. A Dart \<open>int\<close> is a 64-bit word read as signed; a Dart source ends
  normally and its listener does not cancel; \<open>calloc\<close> succeeds, and lists fit in memory.
  The messages of Dart exceptions are kept without most numbers and paths in them. Of all
  allocations only the block buffer \<open>vec![0u8; size]\<close>, whose size the caller chooses, can be refused. The room on the disk is not given back when a
  file is truncated. The panic hook runs where the panic is caught.

  \<^bold>\<open>What modelling showed.\<close> Pages locked for a key are never unlocked
  (\<open>key_pages_stay_locked\<close>); sealing a file onto itself destroys it and reports success
  (\<open>seal_in_place_loses_data\<close>); a chunk size the allocator refuses aborts the process
  (\<open>chunk_size_unchecked\<close>); next to the stream that sealing writes, an opener accepts one
  other encoding of a plaintext, with an empty last frame (\<open>stream_encodings\<close>); the Dart
  nonce repeats from counter \<open>2^63\<close> on, where its comment promises 88 bits (\<open>dart_nonce_space\<close>);
  an AES-256-GCM ciphertext shorter than a tag is a different error on the two backends
  (\<open>backends_agree\<close>), and sealing on the fallback hands on exceptions of the packages
  (\<open>fallback_seal_passes\<close>).

  \<^bold>\<open>Not modelled.\<close> Of the Dart layer (\<open>lib/\<close>) the symbol look-ups of \<open>dart:ffi\<close> and the tests; what the packages
  \<open>pqforge\<close> and \<open>pointycastle\<close> compute; symbolic links and permissions beyond an error
  per path; the non-Unix configuration of \<open>secret.rs\<close>, whose \<open>lock\<close> is empty; concurrency
  between calls (the core has no shared state but the panic hook).
\<close>


section \<open>The boundary\<close>

text \<open>
  C33: the two-call protocol of every output buffer. A buffer that is too
  small gets nothing, its length cell gets the size that is needed, and a second call with
  a buffer of that size gets the bytes.
\<close>

theorem write_out_retry:
  assumes "out_ok (mem w) out cap" "len_ok (mem w) len" "out_ok (mem w) out2 cap2"
    and "\<not> is_null len" "\<not> is_null out" "\<not> is_null out2"
    and "unat cap < length src" "length src \<le> unat cap2" "disjoint len 8 out2 (length src)"
  shows "\<exists>w1 w2. write_out src out cap len w = (Done BufferTooSmall, w1) \<and>
    usize_at (mem w1) len (of_nat (length src)) \<and> same_outside len 8 (mem w) (mem w1) \<and>
    write_out src out2 cap2 len w1 = (Done Ok, w2) \<and>
    bytes_at (mem w2) out2 src \<and> usize_at (mem w2) len (of_nat (length src))"
proof -
  let ?w1 = "w\<lparr>mem := write_out_mem src out cap len (mem w)\<rparr>"
  have 1: "write_out src out cap len w = (Done BufferTooSmall, ?w1)"
    using write_out_run [OF assms(1,2), of src] assms(4-7) by (simp add: write_out_status_def)
  have m1: "mem ?w1 = put_bytes len (le_bytes (of_nat (length src))) (mem w)"
    using assms(4,5,7) by (simp add: write_out_mem_def)
  have "out_ok (mem ?w1) out2 cap2" "len_ok (mem ?w1) len"
    using assms(2,3) by (simp_all add: write_out_mem_keeps)
  then have 2: "write_out src out2 cap2 len ?w1 =
      (Done Ok, ?w1\<lparr>mem := write_out_mem src out2 cap2 len (mem ?w1)\<rparr>)"
    using write_out_run [of ?w1 out2 cap2 len src] assms(4,6,8) by (simp add: write_out_status_def)
  show ?thesis
    using 1 2 m1 write_out_mem_complete [OF assms(4,6,8,9), of "mem ?w1"]
    by (simp add: same_outside_put)
qed

theorem write_out_retry_witness:
  "\<exists>w1 w2. write_out [1, 2, 3] 4096 2 4000 caller = (Done BufferTooSmall, w1) \<and>
    usize_at (mem w1) 4000 (of_nat 3) \<and> same_outside 4000 8 (mem caller) (mem w1) \<and>
    write_out [1, 2, 3] 5000 3 4000 w1 = (Done Ok, w2) \<and>
    bytes_at (mem w2) 5000 [1, 2, 3] \<and> usize_at (mem w2) 4000 (of_nat 3)"
  using write_out_retry [of caller 4096 2 4000 5000 3 "[1, 2, 3]"]
  by (simp add: caller_simps disjoint_def)

section \<open>AEAD\<close>

text \<open>
  C15: under the contract of their buffers, \<open>pqforge_aead_seal\<close> and
  \<open>pqforge_aead_open\<close> do to the caller exactly what delivering the verdict of their
  specification on the bytes behind the pointers does, the decryption buffer being wiped
  on the way out.
\<close>

theorem aead_refines:
  assumes "slice_at (mem w) key key_len k" "slice_at (mem w) nonce nonce_len n"
    and "input_at (mem w) aad aad_len a" "slice_at (mem w) input input_len x"
    and "out_ok (mem w) out cap" "len_ok (mem w) len"
  shows "pqforge_aead_seal L aid key key_len nonce nonce_len aad aad_len input input_len out cap len w =
      deliver (aead_seal_spec L aid k n a x) out cap len w \<and>
    pqforge_aead_open L aid key key_len nonce nonce_len aad aad_len input input_len out cap len w =
      then_wipe (aead_open_wiped L aid k n x) (deliver (aead_open_spec L aid k n a x) out cap len w)"
  using aead_seal_delivers [OF assms(1-3) slice_at_input [OF assms(4)] assms(5,6), of L aid]
    aead_open_delivers [OF assms, of L aid] by simp

theorem aead_refines_witness:
  "pqforge_aead_open small_aead 1 4096 32 4200 12 0 0 4300 20 5000 4 5008 caller =
    then_wipe (aead_open_wiped small_aead 1 (replicate 32 0) (replicate 12 0) (replicate 20 0))
      (deliver (aead_open_spec small_aead 1 (replicate 32 0) (replicate 12 0) [] (replicate 20 0))
        5000 4 5008 caller)"
proof -
  have s: "slice_at (mem caller) 4096 32 (replicate 32 0)" "slice_at (mem caller) 4200 12 (replicate 12 0)"
    "input_at (mem caller) 0 0 []" "slice_at (mem caller) 4300 20 (replicate 20 0)"
    "out_ok (mem caller) 5000 4" "len_ok (mem caller) 5008"
    using caller_slice [of 4096 32] caller_slice [of 4200 12] caller_slice [of 4300 20]
    by (simp_all add: caller_simps input_at_def)
  show ?thesis using aead_refines [OF s] by blast
qed

text \<open>
  A message sealed into one of the caller's buffers opens from there, under
  the same key, nonce and associated data, to the message, and both calls report the
  lengths they wrote.
\<close>

lemma aead_roundtrip:
  assumes lib: "aead_alg aid = Some alg" "unbound_key_new L alg k = ExtOk kk" "aead_correct L limit"
    and len: "length p \<le> limit" "length n = 12"
    and ins: "slice_at (mem w) key key_len k" "slice_at (mem w) nonce nonce_len n"
      "input_at (mem w) aad aad_len a" "input_at (mem w) pt pt_len p"
    and outs: "out_ok (mem w) ct_out ct_cap" "len_ok (mem w) ct_len"
      "out_ok (mem w) back back_cap" "len_ok (mem w) back_len"
    and nn: "\<not> is_null ct_out" "\<not> is_null ct_len" "\<not> is_null back" "\<not> is_null back_len"
    and caps: "length p + 16 \<le> unat ct_cap" "length p \<le> unat back_cap"
    and apart: "all_disjoint [(ct_out, length p + 16), (ct_len, 8), (key, length k), (nonce, 12),
      (aad, length a), (back, length p), (back_len, 8)]"
  shows "\<exists>c w1 w2.
    pqforge_aead_seal L aid key key_len nonce nonce_len aad aad_len pt pt_len ct_out ct_cap ct_len w =
      (Done (code Ok), w1) \<and>
    bytes_at (mem w1) ct_out c \<and> usize_at (mem w1) ct_len (of_nat (length c)) \<and> length c = length p + 16 \<and>
    pqforge_aead_open L aid key key_len nonce nonce_len aad aad_len ct_out (of_nat (length c))
      back back_cap back_len w1 = (Done (code Ok), w2) \<and>
    bytes_at (mem w2) back p \<and> usize_at (mem w2) back_len (of_nat (length p))"
proof -
  obtain c where c: "seal_append_tag L kk n a p = ExtOk c" "length c = length p + 16"
    "open_in_place L kk n a c = ExtOk p" and nn': "nonce_new L n = ExtOk n"
    by (rule aead_correct_seal [OF lib(3) len(2,1)])
  have seal: "aead_seal_spec L aid k n a p = Produce c" and opn: "aead_open_spec L aid k n a c = Produce p"
    by (simp_all add: aead_seal_spec_def aead_open_spec_def lib c nn' TAG_LEN_def)
  have ap: "disjoint ct_out (length c) ct_len 8" "disjoint ct_out (length c) key (length k)"
    "disjoint ct_out (length c) nonce (length n)" "disjoint ct_out (length c) aad (length a)"
    "disjoint ct_len 8 key (length k)" "disjoint ct_len 8 nonce (length n)"
    "disjoint ct_len 8 aad (length a)" "disjoint back (length p) back_len 8"
    using apart c(2) len(2) by simp_all
  have d1: "disjoint ct_len 8 ct_out (length c)" and d2: "disjoint back_len 8 back (length p)"
    using ap(1,8) by (simp_all only: disjoint_sym)
  have "length c \<le> unat ct_cap" using caps(1) c(2) by simp
  then obtain w1 where w1: "deliver (aead_seal_spec L aid k n a p) ct_out ct_cap ct_len w = (Done (code Ok), w1)"
      "bytes_at (mem w1) ct_out c" "usize_at (mem w1) ct_len (of_nat (length c))"
    and "w1 = w\<lparr>mem := put_bytes ct_out c (put_bytes ct_len (le_bytes (of_nat (length c))) (mem w))\<rparr>"
    by (rule deliver_complete [OF seal nn(2,1) _ d1])
  then have m1: "mem w1 = put_bytes ct_out c (put_bytes ct_len (le_bytes (of_nat (length c))) (mem w))"
    by simp
  have size: "length c \<le> isize_max"
    using outs(1) nn(1) caps(1) c(2) by (auto simp: out_ok_def slice_ok_def)
  have "slice_at (mem w1) key key_len k" "slice_at (mem w1) nonce nonce_len n"
    "input_at (mem w1) aad aad_len a"
    unfolding m1 using ins(1-3) ap by (simp_all add: slice_at_put input_at_put)
  moreover have "slice_at (mem w1) ct_out (of_nat (length c)) c"
    using w1(2) nn(1) size by (rule slice_at_bytes)
  moreover have o: "out_ok (mem w1) back back_cap" "len_ok (mem w1) back_len"
    unfolding m1 using outs(3,4) by (simp_all add: mem_simps)
  ultimately have open_run: "pqforge_aead_open L aid key key_len nonce nonce_len aad aad_len ct_out
      (of_nat (length c)) back back_cap back_len w1 =
    then_wipe (aead_open_wiped L aid k n c) (deliver (aead_open_spec L aid k n a c) back back_cap back_len w1)"
    by (intro aead_open_delivers)
  obtain w2 where w2: "deliver (aead_open_spec L aid k n a c) back back_cap back_len w1 = (Done (code Ok), w2)"
      "bytes_at (mem w2) back p" "usize_at (mem w2) back_len (of_nat (length p))"
    by (rule deliver_complete [OF opn nn(4,3) caps(2) d2])
  show ?thesis
    using aead_seal_delivers [OF ins outs(1,2), of L aid] open_run w1 w2 c(2)
    by (intro exI [of _ c] exI [of _ w1] exI) (auto simp: mem_fold_drop)
qed



section \<open>ML-KEM\<close>

text \<open>
  C18: key generation, encapsulation to the public key it wrote and
  decapsulation with the secret key it wrote succeed one after the other on the caller's
  buffers, and leave the same shared secret on both sides, for every pair of random draws
  without a decryption failure.
\<close>

theorem kem_agreement:
  assumes lib: "kem_alg aid = Some alg" "kem_correct L alg good"
    and draw: "mlkem_keygen_spec L alg (rng w) = Produce (pk, sk)"
      "g1 = snd (dk_generate L alg (rng w))" "mlkem_encapsulate_spec L alg pk g1 = Produce (ct, ss)"
      "good (rng w) g1"
    and bufs: "fits (mem w) pk_o pk_c pk_l pk" "fits (mem w) sk_o sk_c sk_l sk"
      "fits (mem w) ct_o ct_c ct_l ct" "fits (mem w) s1_o s1_c s1_l ss" "fits (mem w) s2_o s2_c s2_l ss"
    and apart: "all_disjoint [(pk_o, length pk), (pk_l, 8), (sk_o, length sk), (sk_l, 8),
      (ct_o, length ct), (ct_l, 8), (s1_o, length ss), (s1_l, 8), (s2_o, length ss), (s2_l, 8)]"
  shows "\<exists>w1 w2 w3.
    pqforge_mlkem_keygen L aid pk_o pk_c pk_l sk_o sk_c sk_l w = (Done (code Ok), w1) \<and>
    pqforge_mlkem_encapsulate L aid pk_o (of_nat (length pk)) ct_o ct_c ct_l s1_o s1_c s1_l w1 =
      (Done (code Ok), w2) \<and>
    pqforge_mlkem_decapsulate L aid sk_o (of_nat (length sk)) ct_o (of_nat (length ct)) s2_o s2_c s2_l w2 =
      (Done (code Ok), w3) \<and>
    holds (mem w3) s1_o s1_l ss \<and> holds (mem w3) s2_o s2_l ss"
proof -
  note ap = apart [simplified]
  have sym: "disjoint pk_l 8 pk_o (length pk)" "disjoint sk_l 8 sk_o (length sk)"
    "disjoint ct_l 8 ct_o (length ct)" "disjoint s1_l 8 s1_o (length ss)" "disjoint s2_l 8 s2_o (length ss)"
    "disjoint sk_o (length sk) pk_o (length pk)" "disjoint sk_l 8 pk_o (length pk)" "disjoint sk_o (length sk) pk_l 8"
    "disjoint sk_l 8 pk_l 8" "disjoint s1_o (length ss) sk_o (length sk)" "disjoint s1_l 8 sk_o (length sk)"
    "disjoint ct_o (length ct) sk_o (length sk)" "disjoint ct_l 8 sk_o (length sk)"
    "disjoint s1_o (length ss) ct_o (length ct)" "disjoint s1_l 8 ct_o (length ct)"
    "disjoint s1_o (length ss) ct_l 8" "disjoint s1_l 8 ct_l 8"
    "disjoint s2_o (length ss) s1_o (length ss)" "disjoint s2_l 8 s1_o (length ss)"
    "disjoint s2_o (length ss) s1_l 8" "disjoint s2_l 8 s1_l 8"
    using ap by (simp_all only: disjoint_sym)
  let ?m1 = "put_result sk_o sk_l sk (put_result pk_o pk_l pk (mem w))"
  let ?m2 = "put_result s1_o s1_l ss (put_result ct_o ct_l ct ?m1)"
  obtain w1 where w1: "pqforge_mlkem_keygen L aid pk_o pk_c pk_l sk_o sk_c sk_l w = (Done (code Ok), w1)"
    and m1: "mem w1 = ?m1" and r1: "rng w1 = g1"
    using mlkem_keygen_fits [OF lib(1) draw(1) bufs(1,2)] draw(2) by auto
  have pk: "slice_at (mem w1) pk_o (of_nat (length pk)) pk"
    unfolding m1 using holds_put [OF sym(1)] bufs(1) sym by (intro slice_at_put_result holds_slice)
  have sk: "slice_at (mem w1) sk_o (of_nat (length sk)) sk"
    unfolding m1 using holds_put [OF sym(2)] bufs(2) by (rule holds_slice)
  have b1: "fits (mem w1) ct_o ct_c ct_l ct" "fits (mem w1) s1_o s1_c s1_l ss" "fits (mem w1) s2_o s2_c s2_l ss"
    unfolding m1 using bufs by (simp_all add: mem_simps)
  obtain w2 where w2: "pqforge_mlkem_encapsulate L aid pk_o (of_nat (length pk)) ct_o ct_c ct_l s1_o s1_c s1_l w1 =
      (Done (code Ok), w2)" and m2: "mem w2 = put_result s1_o s1_l ss (put_result ct_o ct_l ct (mem w1))"
    using mlkem_encapsulate_fits [OF lib(1) pk draw(3) [folded r1] b1(1,2)] by blast
  have sk2: "slice_at (mem w2) sk_o (of_nat (length sk)) sk"
    unfolding m2 using sk sym by (intro slice_at_put_result)
  have ct2: "slice_at (mem w2) ct_o (of_nat (length ct)) ct"
    unfolding m2 using holds_put [OF sym(3)] b1(1) sym by (intro slice_at_put_result holds_slice)
  have b2: "fits (mem w2) s2_o s2_c s2_l ss" unfolding m2 using b1(3) by (simp add: mem_simps)
  have dec: "mlkem_decapsulate_spec L alg sk ct = Produce ss"
    using draw lib(2)
    by (auto simp: mlkem_keygen_spec_def mlkem_encapsulate_spec_def mlkem_decapsulate_spec_def
        on_ext_def kem_correct_def split: ext.splits)
  obtain w3 where w3: "pqforge_mlkem_decapsulate L aid sk_o (of_nat (length sk)) ct_o (of_nat (length ct))
      s2_o s2_c s2_l w2 = (Done (code Ok), w3)" and m3: "mem w3 = put_result s2_o s2_l ss (mem w2)"
    using mlkem_decapsulate_fits [OF lib(1) sk2 ct2 dec b2] by blast
  have "holds (mem w2) s1_o s1_l ss" unfolding m2 by (rule holds_put [OF sym(4)])
  then have "holds (mem w3) s1_o s1_l ss" unfolding m3 using sym by (simp add: holds_put_other)
  moreover have "holds (mem w3) s2_o s2_l ss" unfolding m3 by (rule holds_put [OF sym(5)])
  ultimately show ?thesis using w1 w2 w3 by blast
qed

theorem kem_agreement_witness:
  "\<exists>w1 w2 w3.
    pqforge_mlkem_keygen small_kem 1 4096 1 4104 4112 2 4120 caller = (Done (code Ok), w1) \<and>
    pqforge_mlkem_encapsulate small_kem 1 4096 (of_nat 1) 4128 1 4136 4144 1 4152 w1 = (Done (code Ok), w2) \<and>
    pqforge_mlkem_decapsulate small_kem 1 4112 (of_nat 2) 4128 (of_nat 1) 4160 1 4168 w2 = (Done (code Ok), w3) \<and>
    holds (mem w3) 4144 4152 [7] \<and> holds (mem w3) 4160 4168 [7]"
proof -
  have draw: "kem_alg 1 = Some ML_KEM_768" "mlkem_keygen_spec small_kem ML_KEM_768 (rng caller) = Produce ([3], [3, 3])"
    "4 = snd (dk_generate small_kem ML_KEM_768 (rng caller))"
    "mlkem_encapsulate_spec small_kem ML_KEM_768 [3] 4 = Produce ([4], [7])"
    by (simp_all add: kem_alg_def small_kem_def mlkem_keygen_spec_def mlkem_encapsulate_spec_def)
  have bufs: "fits (mem caller) 4096 1 4104 [3]" "fits (mem caller) 4112 2 4120 [3, 3]"
    "fits (mem caller) 4128 1 4136 [4]" "fits (mem caller) 4144 1 4152 [7]" "fits (mem caller) 4160 1 4168 [7]"
    by (simp_all add: fits_def caller_simps)
  show ?thesis
    using kem_agreement [OF draw(1) small_kem_correct draw(2-4) TrueI bufs] by (simp add: disjoint_def)
qed

section \<open>Signatures and key exchange\<close>

text \<open>
  C19: an ML-DSA key pair written to the caller signs a message there, and the
  signature written verifies under the public key written.
\<close>

theorem dsa_sign_verify:
  assumes lib: "dsa_alg aid = Some alg" "dsa_correct L alg"
    and draw: "mldsa_keygen_spec L alg (rng w) = Produce (pk, sk)"
      "g1 = snd (dsa_generate L alg (rng w))" "mldsa_sign_spec L alg sk ms g1 = Produce sg"
    and msg: "input_at (mem w) msg m ms"
    and bufs: "fits (mem w) pk_o pk_c pk_l pk" "fits (mem w) sk_o sk_c sk_l sk" "fits (mem w) sg_o sg_c sg_l sg"
    and apart: "all_disjoint [(pk_o, length pk), (pk_l, 8), (sk_o, length sk), (sk_l, 8),
      (sg_o, length sg), (sg_l, 8), (msg, length ms)]"
  shows "\<exists>w1 w2 w3.
    pqforge_mldsa_keygen L aid pk_o pk_c pk_l sk_o sk_c sk_l w = (Done (code Ok), w1) \<and>
    pqforge_mldsa_sign L aid sk_o (of_nat (length sk)) msg m sg_o sg_c sg_l w1 = (Done (code Ok), w2) \<and>
    pqforge_mldsa_verify L aid pk_o (of_nat (length pk)) msg m sg_o (of_nat (length sg)) w2 =
      (Done (code Ok), w3) \<and> mem w3 = mem w2"
proof -
  note ap = apart [simplified]
  have sym: "disjoint pk_l 8 pk_o (length pk)" "disjoint sk_l 8 sk_o (length sk)" "disjoint sg_l 8 sg_o (length sg)"
    "disjoint sk_o (length sk) pk_o (length pk)" "disjoint sk_l 8 pk_o (length pk)"
    "disjoint sg_o (length sg) pk_o (length pk)" "disjoint sg_l 8 pk_o (length pk)"
    "disjoint pk_o (length pk) msg (length ms)" "disjoint pk_l 8 msg (length ms)"
    "disjoint sk_o (length sk) msg (length ms)" "disjoint sk_l 8 msg (length ms)"
    "disjoint sg_o (length sg) msg (length ms)" "disjoint sg_l 8 msg (length ms)"
    using ap by (simp_all only: disjoint_sym)
  obtain w1 where w1: "pqforge_mldsa_keygen L aid pk_o pk_c pk_l sk_o sk_c sk_l w = (Done (code Ok), w1)"
    and m1: "mem w1 = put_result sk_o sk_l sk (put_result pk_o pk_l pk (mem w))" and r1: "rng w1 = g1"
    using mldsa_keygen_fits [OF lib(1) draw(1) bufs(1,2)] draw(2) by auto
  have pk1: "slice_at (mem w1) pk_o (of_nat (length pk)) pk"
    unfolding m1 using holds_put [OF sym(1)] bufs(1) sym by (intro slice_at_put_result holds_slice)
  have sk1: "slice_at (mem w1) sk_o (of_nat (length sk)) sk"
    unfolding m1 using holds_put [OF sym(2)] bufs(2) by (rule holds_slice)
  have msg1: "input_at (mem w1) msg m ms" unfolding m1 using msg sym by (intro input_at_put_result)
  have b1: "fits (mem w1) sg_o sg_c sg_l sg" unfolding m1 using bufs by (simp add: mem_simps)
  obtain w2 where w2: "pqforge_mldsa_sign L aid sk_o (of_nat (length sk)) msg m sg_o sg_c sg_l w1 = (Done (code Ok), w2)"
    and m2: "mem w2 = put_result sg_o sg_l sg (mem w1)"
    using mldsa_sign_fits [OF lib(1) sk1 msg1 draw(3) [folded r1] b1] by blast
  have "slice_at (mem w2) pk_o (of_nat (length pk)) pk" "input_at (mem w2) msg m ms"
    "slice_at (mem w2) sg_o (of_nat (length sg)) sg"
    unfolding m2 using pk1 msg1 sym holds_slice [OF holds_put [OF sym(3)] b1]
    by (simp_all add: slice_at_put_result input_at_put_result)
  then obtain w3 where "pqforge_mldsa_verify L aid pk_o (of_nat (length pk)) msg m sg_o (of_nat (length sg)) w2 =
      (Done (code (mldsa_verify_spec L aid pk ms sg)), w3)" and "mem w3 = mem w2"
    using mldsa_verify_delivers by blast
  moreover have "mldsa_verify_spec L aid pk ms sg = Ok"
    by (rule dsa_signed_verifies [OF lib(2,1) draw(1,3)])
  ultimately show ?thesis using w1 w2 by auto
qed

theorem dsa_sign_verify_witness:
  "\<exists>w1 w2 w3.
    pqforge_mldsa_keygen small_dsa 1 4096 2 4104 4112 1 4120 caller = (Done (code Ok), w1) \<and>
    pqforge_mldsa_sign small_dsa 1 4112 (of_nat 1) 5000 6 4128 3 4136 w1 = (Done (code Ok), w2) \<and>
    pqforge_mldsa_verify small_dsa 1 4096 (of_nat 2) 5000 6 4128 (of_nat 3) w2 = (Done (code Ok), w3) \<and>
    mem w3 = mem w2"
proof -
  have draw: "dsa_alg 1 = Some ML_DSA_65" "mldsa_keygen_spec small_dsa ML_DSA_65 (rng caller) = Produce ([3, 3], [3])"
    "4 = snd (dsa_generate small_dsa ML_DSA_65 (rng caller))"
    "mldsa_sign_spec small_dsa ML_DSA_65 [3] (replicate 6 0) 4 = Produce [3, 6, 7]"
    by (simp_all add: dsa_alg_def small_dsa_def mldsa_keygen_spec_def mldsa_sign_spec_def exported_pair_def)
  have msg: "input_at (mem caller) 5000 6 (replicate 6 0)"
    using caller_input [of 5000 6] by simp
  have bufs: "fits (mem caller) 4096 2 4104 [3, 3]" "fits (mem caller) 4112 1 4120 [3]"
    "fits (mem caller) 4128 3 4136 [3, 6, 7]"
    by (simp_all add: fits_def caller_simps)
  show ?thesis
    using dsa_sign_verify [OF draw(1) small_dsa_correct draw(2-4) msg bufs]
    by (simp add: disjoint_def numeral_3_eq_3 numeral_2_eq_2)
qed

text \<open>
  Two key pairs as X25519 key generation hands them out agree: each side
  computes, from its secret and the other's public key, the same shared secret.
\<close>

lemma x25519_agreement:
  assumes lib: "dh_correct L" "x25519_pair L a = Produce (pa, a)" "x25519_pair L b = Produce (pb, b)"
    and len: "length a = 32" "length b = 32" "length pa = 32" "length pb = 32"
    and ins: "slice_at (mem w) ka n1 a" "slice_at (mem w) qb n2 pb"
      "slice_at (mem w) kb n3 b" "slice_at (mem w) qa n4 pa"
    and ss: "x25519_shared L a pb = Produce ss"
    and bufs: "fits (mem w) o1 c1 l1 ss" "fits (mem w) o2 c2 l2 ss"
    and apart: "all_disjoint [(o1, length ss), (l1, 8), (o2, length ss), (l2, 8)]"
      "\<forall>(p, k) \<in> {(kb, 32), (qa, 32)}. disjoint o1 (length ss) p k \<and> disjoint l1 8 p k"
  shows "\<exists>w1 w2. pqforge_x25519_ecdh L ka n1 qb n2 o1 c1 l1 w = (Done (code Ok), w1) \<and>
    pqforge_x25519_ecdh L kb n3 qa n4 o2 c2 l2 w1 = (Done (code Ok), w2) \<and>
    holds (mem w2) o1 l1 ss \<and> holds (mem w2) o2 l2 ss"
proof -
  note ap = apart [simplified]
  have sym: "disjoint l1 8 o1 (length ss)" "disjoint l2 8 o2 (length ss)"
    "disjoint o2 (length ss) o1 (length ss)" "disjoint l2 8 o1 (length ss)"
    "disjoint o2 (length ss) l1 8" "disjoint l2 8 l1 8"
    using ap by (simp_all only: disjoint_sym)
  obtain w1 where w1: "pqforge_x25519_ecdh L ka n1 qb n2 o1 c1 l1 w = (Done (code Ok), w1)"
    and m1: "mem w1 = put_result o1 l1 ss (mem w)"
    using x25519_ecdh_fits [OF ins(1,2) len(1,4) ss bufs(1)] by blast
  have ss': "x25519_shared L b pa = Produce ss"
    using x25519_shared_sym [OF lib] ss by simp
  have "slice_at (mem w1) kb n3 b" "slice_at (mem w1) qa n4 pa" "fits (mem w1) o2 c2 l2 ss"
    unfolding m1 using ins(3,4) bufs(2) ap len by (simp_all add: slice_at_put_result mem_simps)
  from x25519_ecdh_fits [OF this(1,2) len(2,3) ss' this(3)] obtain w2 where
    w2: "pqforge_x25519_ecdh L kb n3 qa n4 o2 c2 l2 w1 = (Done (code Ok), w2)"
    and m2: "mem w2 = put_result o2 l2 ss (mem w1)" by blast
  have "holds (mem w1) o1 l1 ss" unfolding m1 by (rule holds_put [OF sym(1)])
  then have "holds (mem w2) o1 l1 ss" unfolding m2 using sym by (simp add: holds_put_other)
  moreover have "holds (mem w2) o2 l2 ss" unfolding m2 by (rule holds_put [OF sym(2)])
  ultimately show ?thesis using w1 w2 by blast
qed

text \<open>
  The signature Ed25519 writes for a seed and a message verifies under
  the public key \<open>pqforge_ed25519_public_from_seed\<close> writes for that seed.
\<close>

lemma ed25519_sign_verify:
  assumes lib: "ed_correct L" "ed25519_public_spec L s = Produce pk" "ed25519_sign_spec L s ms = Produce sg"
    and ins: "slice_at (mem w) seed n s" "length s = 32" "input_at (mem w) msg m ms"
    and bufs: "fits (mem w) pk_o pk_c pk_l pk" "fits (mem w) sg_o sg_c sg_l sg"
    and apart: "all_disjoint [(pk_o, length pk), (pk_l, 8), (sg_o, length sg), (sg_l, 8), (seed, 32), (msg, length ms)]"
  shows "\<exists>w1 w2 w3.
    pqforge_ed25519_public_from_seed L seed n pk_o pk_c pk_l w = (Done (code Ok), w1) \<and>
    pqforge_ed25519_sign L seed n msg m sg_o sg_c sg_l w1 = (Done (code Ok), w2) \<and>
    pqforge_ed25519_verify L pk_o (of_nat (length pk)) msg m sg_o (of_nat (length sg)) w2 = (Done (code Ok), w3)"
proof -
  note ap = apart [simplified]
  have sym: "disjoint pk_l 8 pk_o (length pk)" "disjoint sg_l 8 sg_o (length sg)"
    "disjoint sg_o (length sg) pk_o (length pk)" "disjoint sg_l 8 pk_o (length pk)"
    using ap by (simp_all only: disjoint_sym)
  obtain w1 where w1: "pqforge_ed25519_public_from_seed L seed n pk_o pk_c pk_l w = (Done (code Ok), w1)"
    and m1: "mem w1 = put_result pk_o pk_l pk (mem w)"
    using ed25519_public_fits [OF ins(1,2) lib(2) bufs(1)] by blast
  have i1: "slice_at (mem w1) seed n s" "input_at (mem w1) msg m ms" "fits (mem w1) sg_o sg_c sg_l sg"
    "slice_at (mem w1) pk_o (of_nat (length pk)) pk"
    unfolding m1 using ins bufs ap holds_slice [OF holds_put [OF sym(1)] bufs(1)]
    by (simp_all add: slice_at_put_result input_at_put_result mem_simps)
  obtain w2 where w2: "pqforge_ed25519_sign L seed n msg m sg_o sg_c sg_l w1 = (Done (code Ok), w2)"
    and m2: "mem w2 = put_result sg_o sg_l sg (mem w1)"
    using ed25519_sign_fits [OF i1(1,2) ins(2) lib(3) i1(3)] by blast
  have "slice_at (mem w2) pk_o (of_nat (length pk)) pk" "input_at (mem w2) msg m ms"
    "slice_at (mem w2) sg_o (of_nat (length sg)) sg"
    unfolding m2 using i1 sym ap holds_slice [OF holds_put [OF sym(2)] i1(3)]
    by (simp_all add: slice_at_put_result input_at_put_result)
  then obtain w3 where "pqforge_ed25519_verify L pk_o (of_nat (length pk)) msg m sg_o (of_nat (length sg)) w2 =
      (Done (code (ed25519_verify_spec L pk ms sg)), w3)"
    using ed25519_verify_delivers by blast
  moreover have "ed25519_verify_spec L pk ms sg = Ok"
    using lib
    by (auto simp: ed25519_public_spec_def ed25519_sign_spec_def ed25519_verify_spec_def on_ext_def
        ed_correct_def split: ext.splits sum.splits)
  ultimately show ?thesis using w1 w2 by auto
qed

section \<open>Streams of frames\<close>

text \<open>
  C13: the nonces of the frames of one stream are pairwise different, for any
  stream the 64-bit counter can number; they are the counter in bytes 3 to 10, big endian,
  and the flag of the last frame in byte 11.
\<close>

theorem nonces_never_repeat:
  "(length fs \<le> 2 ^ 64 \<longrightarrow> distinct (seal_list (\<lambda>c l p. stream_nonce c l) 0 fs)) \<and>
   stream_nonce c l = replicate 3 0 @ be_bytes c @ [if l then 1 else 0] \<and> length (stream_nonce c l) = 12"
proof -
  have "distinct (seal_list (\<lambda>c l p. stream_nonce c l) 0 fs)" if "length fs \<le> 2 ^ 64"
    unfolding distinct_conv_nth
  proof (intro allI impI)
    fix i j assume "i < length (seal_list (\<lambda>c l p. stream_nonce c l) 0 fs)"
      "j < length (seal_list (\<lambda>c l p. stream_nonce c l) 0 fs)" "i \<noteq> j"
    then have ij: "i < length fs" "j < length fs" by simp_all
    then have "i < 2 ^ 64" "j < 2 ^ 64" using that by linarith+
    then have "unat (of_nat i :: u64) = i" "unat (of_nat j :: u64) = j"
      by (simp_all add: unat_of_nat take_bit_nat_eq_self)
    then have "(of_nat i :: u64) \<noteq> of_nat j" using \<open>i \<noteq> j\<close> by metis
    then show "seal_list (\<lambda>c l p. stream_nonce c l) 0 fs ! i \<noteq> seal_list (\<lambda>c l p. stream_nonce c l) 0 fs ! j"
      using ij by (simp add: seal_list_nth stream_nonce_inj)
  qed
  then show ?thesis by (simp add: stream_nonce_layout numeral_3_eq_3)
qed

theorem nonces_never_repeat_witness:
  "distinct (seal_list (\<lambda>c l p. stream_nonce c l) 0 [[], [1], [2 :: u8]])"
  using nonces_never_repeat [of "[[], [1], [2]]" 0 True] by simp





section \<open>Blocks, secrets\<close>

text \<open>
  C35: a pinned secret holds the caller's bytes, and it is zero before its
  memory is freed however the scope that owns it is left, by a value, an early return or a
  panic.
\<close>

theorem secret_wiped_on_exit:
  assumes "wipes w" "\<And>s u. vec_zeroize (snd (body s u)) = vec_zeroize u"
    and "with_pinned k body w = (r, w')" "r \<noteq> Abort" "r \<noteq> Undefined"
  shows "(\<exists>s u. pinned_as_slice s = k \<and> fst (body s u) = r) \<and>
    (\<exists>rs. released w' = rs @ [replicate (length k) 0])"
proof -
  obtain s u where p: "pinned_from_slice k w = (Done (Inr s), u)" and s: "sec_bytes s = k"
    and u: "u = w\<lparr>locked_bytes := locked_bytes w + (if sec_locked s then length k else 0)\<rparr>"
    by (rule pinned_from_slice_run)
  obtain w1 where b: "body s u = (r, w1)" and w': "w' = pinned_drop s w1"
    using assms(3-5) p
    by (cases "body s u"; cases "fst (body s u)") (auto simp: with_pinned_def try_ok scope_drop_def)
  have "vec_zeroize w1 = vec_zeroize w" using assms(2) [of s u] b u by simp
  then have "released w' = released w1 @ [replicate (length k) 0]"
    using assms(1) s by (simp add: w' wipes_def)
  moreover have "pinned_as_slice s = k" using s by (simp add: pinned_as_slice_def)
  ultimately show ?thesis using b by (metis fst_conv)
qed

theorem secret_wiped_on_exit_witness:
  "\<exists>rs. released (snd (with_pinned [1, 2, 3] (\<lambda>s u. (Panic OtherPayload :: unit PqResult outcome, u)) caller)) =
     rs @ [replicate 3 0]"
proof -
  let ?run = "with_pinned [1, 2, 3] (\<lambda>s u. (Panic OtherPayload :: unit PqResult outcome, u)) caller"
  have "fst ?run = Panic OtherPayload"
    by (simp add: with_pinned_def try_comp_def bind_comp_def pinned_from_slice_def pinned_lock_def
        scope_drop_def Let_def)
  then have "?run = (Panic OtherPayload, snd ?run)" by (simp add: prod_eq_iff)
  from secret_wiped_on_exit [OF _ _ this] show ?thesis by (simp add: wipes_def numeral_3_eq_3)
qed

section \<open>Every entry point returns a status\<close>

text \<open>
  C39: the file entry points return a status code for every file, every
  outcome of the system calls and every behaviour of the library, provided the allocator
  grants the buffer for one block.
\<close>

theorem file_entries_return:
  assumes "file_contract w key key_len aad aad_len chunk in_path out_path"
    and "file_contract w key key_len aad aad_len (chunk + of_nat TAG_LEN) in_path out_path"
  shows "(\<exists>s w'. pqforge_stream_seal_file L aid key key_len aad aad_len chunk in_path out_path w = (Done (code s), w')) \<and>
    (\<exists>s w'. pqforge_stream_open_file L aid key key_len aad aad_len chunk in_path out_path w = (Done (code s), w'))"
  using stream_seal_file.returns_status [of "(L, aid, key, key_len, aad, aad_len, chunk, in_path, out_path)" w]
    stream_open_file.returns_status [of "(L, aid, key, key_len, aad, aad_len, chunk, in_path, out_path)" w] assms
  by (simp add: pqforge_stream_seal_file_def pqforge_stream_open_file_def)

theorem file_entries_return_witness:
  "\<exists>s w'. pqforge_stream_open_file small_aead 0 4096 32 0 0 64 1040 1024 caller = (Done (code s), w')"
proof -
  have "file_contract caller 4096 32 0 0 64 1040 1024" "file_contract caller 4096 32 0 0 (64 + of_nat TAG_LEN) 1040 1024"
    by (simp_all add: file_contract_def caller_simps in_ok_def path_ok_def alloc_fine_def TAG_LEN_def)
  from file_entries_return [OF this] show ?thesis by blast
qed

section \<open>Sealed files\<close>



text \<open>
  C2: for a well-formed call \<open>pqforge_stream_open_file\<close> returns the
  status with which opening the stream in the input file ends, and leaves in the output
  file the plaintext released by then, for every input file, well-formed or not.
\<close>

theorem open_file_refines_stream:
  assumes req: "file_request w key key_len k aad aad_len ad in_path ip out_path op ct"
    and lib: "stream_aead_alg aid = Some alg" "unbound_key_new L alg k = ExtOk kk" "aead_quiet L"
    and sizes: "chunk \<noteq> 0" "cc = unat (chunk + of_nat TAG_LEN)" "0 < cc" "grants w cc" "length ct + 1 < 2 ^ 64"
      "length (snd (stream_open (frame_dec L kk ad) cc ct)) \<le> disk_room w"
    and "separate w ip op"
  shows "\<exists>w'. pqforge_stream_open_file L aid key key_len aad aad_len chunk in_path out_path w =
      (Done (code (fst (stream_open (frame_dec L kk ad) cc ct))), w') \<and>
    file_at w' op = Some (snd (stream_open (frame_dec L kk ad) cc ct)) \<and>
    file_frame op w w' \<and> wiped_releases w w'"
proof -
  obtain w' where "pqforge_stream_open_file L aid key key_len aad aad_len chunk in_path out_path w =
      (Done (code (fst (stream_open (frame_dec L kk ad) cc ct))), w')"
    and "file_result op (snd (stream_open (frame_dec L kk ad) cc ct))
      (disk_room w - length (snd (stream_open (frame_dec L kk ad) cc ct))) w w'"
    by (rule open_file_refines [OF req lib sizes(1-5) _ prod.collapse [symmetric] sizes(6)])
       (simp_all add: \<open>separate w ip op\<close>)
  then show ?thesis by (auto simp: file_result_def)
qed

theorem open_file_refines_stream_witness:
  "\<exists>w'. pqforge_stream_open_file small_aead 1 4096 32 0 0 2 1024 1040 caller = (Done (code InvalidCiphertext), w') \<and>
    file_at w' [98] = Some []"
proof -
  have req: "file_request caller 4096 32 (replicate 32 0) 0 0 [] 1024 [97] 1040 [98] [1, 2, 3, 4, 5]"
    using caller_request [of 1040 "[98]" "[1, 2, 3, 4, 5]"] by (simp add: caller_same is_null_def)
  have "stream_open (frame_dec small_aead (replicate 32 0) []) 18 [1, 2, 3, 4, 5] = (InvalidCiphertext, [])"
    by (simp add: stream_open_def blocks_step TAG_LEN_def)
  then show ?thesis
    using open_file_refines_stream [OF req _ _ small_aead_quiet, of 1 CHACHA20_POLY1305 "replicate 32 0" 2 18]
      caller_grants [of 18 "[1, 2, 3, 4, 5]"] caller_separate [of "[98]" "[1, 2, 3, 4, 5]"]
    by (auto simp: stream_aead_alg_def caller_same TAG_LEN_def)
qed

text \<open>
  C3: a file sealed to a second path and opened from there to a third comes back
  byte for byte, both calls returning \<open>Ok\<close>.
\<close>

theorem file_roundtrip:
  assumes req: "file_request w key key_len k aad aad_len ad in_path ip mid_path mid data" "separate w ip mid"
    and lib: "stream_aead_alg aid = Some alg" "unbound_key_new L alg k = ExtOk kk"
      "aead_correct L (unat chunk)" "aead_quiet L"
    and outp: "open_err w mid = None" "\<not> is_null out_path" "c_string (mem w) out_path = Some op" "valid_utf8 op"
      "create_err w op = None" "op \<noteq> mid" "names w op = None \<or> names w op \<noteq> names w mid" "fs_ok w"
    and sizes: "chunk \<noteq> 0" "grants w (unat chunk)" "grants w (unat chunk + TAG_LEN)"
    and ct: "ct = stream_seal (frame_enc L kk ad) (unat chunk) data" "length ct + 1 < 2 ^ 64"
      "length ct + length data \<le> disk_room w"
  shows "\<exists>w1 w2.
    pqforge_stream_seal_file L aid key key_len aad aad_len chunk in_path mid_path w = (Done (code Ok), w1) \<and>
    file_at w1 mid = Some ct \<and>
    pqforge_stream_open_file L aid key key_len aad aad_len chunk mid_path out_path w1 = (Done (code Ok), w2) \<and>
    file_at w2 op = Some data"
proof -
  have n: "0 < unat chunk" using sizes(1) by (simp add: unat_gt_0)
  have law: "frame_lawful (L, kk, ad) (unat chunk)" using lib(3) by (simp add: frame_lawful_def)
  have "length data \<le> length ct" using frames.length_stream_seal [OF law n, of data] ct(1) by simp
  then have len: "length data + 1 < 2 ^ 64" using ct(2) by linarith
  have cc: "unat (chunk + of_nat TAG_LEN) = unat chunk + TAG_LEN"
    using sizes(3) by (simp add: grants_def isize_max_def TAG_LEN_def unat_word_ariths)
  obtain w1 where w1: "pqforge_stream_seal_file L aid key key_len aad aad_len chunk in_path mid_path w = (Done (code Ok), w1)"
    and r1: "file_result mid ct (disk_room w - length ct) w w1"
    by (rule seal_file_refines [OF req(1) lib(1-3) sizes(1,2) len _ ct(1)]) (use req(2) ct(3) in simp_all)
  note f1 = file_result_fields [OF r1]
  have req': "file_request w1 key key_len k aad aad_len ad mid_path mid out_path op ct"
    using req(1) outp by (simp add: file_request_def f1)
  have sep: "separate w1 mid op" by (rule file_result_separate [OF r1 outp(8,6,7)])
  have so: "stream_open (frame_dec L kk ad) (unat chunk + TAG_LEN) ct = (Ok, data)"
    using frames.open_seal [OF law n, of data] ct(1) by simp
  obtain w2 where "pqforge_stream_open_file L aid key key_len aad aad_len chunk mid_path out_path w1 = (Done (code Ok), w2)"
    and "file_result op data (disk_room w1 - length data) w1 w2"
    by (rule open_file_refines [OF req' lib(1,2,4) sizes(1) cc [symmetric] _ _ ct(2) _ so])
       (use sep ct(3) sizes(3) in \<open>simp_all add: f1 TAG_LEN_def\<close>)
  then show ?thesis using w1 f1(2) by (auto dest: file_result_fields)
qed

theorem file_roundtrip_witness:
  "\<exists>ct w1 w2.
    pqforge_stream_seal_file small_aead 0 4096 32 0 0 2 1024 1040 caller = (Done (code Ok), w1) \<and>
    file_at w1 [98] = Some ct \<and>
    pqforge_stream_open_file small_aead 0 4096 32 0 0 2 1040 1056 w1 = (Done (code Ok), w2) \<and>
    file_at w2 [99] = Some [1, 2, 3, 4, 5]"
proof -
  have req: "file_request caller 4096 32 (replicate 32 0) 0 0 [] 1024 [97] 1040 [98] [1, 2, 3, 4, 5]"
    using caller_request [of 1040 "[98]" "[1, 2, 3, 4, 5]"] by (simp add: caller_same is_null_def)
  have len: "length (stream_seal (frame_enc small_aead (replicate 32 0) []) 2 [1, 2, 3, 4, 5]) = 53"
    using frames.length_stream_seal [of "(small_aead, replicate 32 0, [])" 2 "[1, 2, 3, 4, 5]"]
    by (simp add: frame_lawful_def small_aead_correct plain_frames_def blocks_step TAG_LEN_def)
  have env: "separate caller [97] [98]" "fs_ok caller" "grants caller 2" "grants caller 18"
    using caller_separate [of "[98]" "[1, 2, 3, 4, 5]"] caller_fs_ok [of "[1, 2, 3, 4, 5]"]
      caller_grants [of 2 "[1, 2, 3, 4, 5]"] caller_grants [of 18 "[1, 2, 3, 4, 5]"]
    by (simp_all add: caller_same)
  show ?thesis
    using file_roundtrip [OF req env(1) _ _ small_aead_correct small_aead_quiet, of 0 AES_256_GCM "replicate 32 0"
        1056 "[99]" 2 "stream_seal (frame_enc small_aead (replicate 32 0) []) 2 [1, 2, 3, 4, 5]"] len env
    by (auto simp: stream_aead_alg_def is_null_def TAG_LEN_def)
qed



text \<open>
  C37: sealing a file onto itself returns \<open>Ok\<close> and destroys it: the output
  is truncated before the input is read, so what remains is the sealed empty stream,
  whatever the file held. (The two paths name one inode.)
\<close>

theorem seal_in_place_loses_data:
  assumes req: "file_request w key key_len k aad aad_len ad in_path ip out_path op data" "\<not> separate w ip op"
    and lib: "stream_aead_alg aid = Some alg" "unbound_key_new L alg k = ExtOk kk" "aead_correct L (unat chunk)"
    and sizes: "chunk \<noteq> 0" "grants w (unat chunk)" "length data + 1 < 2 ^ 64" "TAG_LEN \<le> disk_room w"
  shows "\<exists>w'. pqforge_stream_seal_file L aid key key_len aad aad_len chunk in_path out_path w = (Done (code Ok), w') \<and>
    file_at w' ip = Some (stream_seal (frame_enc L kk ad) (unat chunk) []) \<and>
    stream_open (frame_dec L kk ad) (unat chunk + TAG_LEN) (stream_seal (frame_enc L kk ad) (unat chunk) []) = (Ok, [])"
proof -
  let ?ct = "stream_seal (frame_enc L kk ad) (unat chunk) []"
  have n: "0 < unat chunk" using sizes(1) by (simp add: unat_gt_0)
  have law: "frame_lawful (L, kk, ad) (unat chunk)" using lib(3) by (simp add: frame_lawful_def)
  have len: "length ?ct = TAG_LEN"
    using frames.length_stream_seal [OF law n, of "[]"] by (simp add: plain_frames_def)
  then have room: "length ?ct \<le> disk_room w" using sizes(4) by simp
  obtain w' where run: "pqforge_stream_seal_file L aid key key_len aad aad_len chunk in_path out_path w = (Done (code Ok), w')"
    and r: "file_result op ?ct (disk_room w - length ?ct) w w'"
    by (rule seal_file_refines [OF req(1) lib sizes(1-3) _ refl room]) (simp_all add: req(2))
  have "names w' ip = names w' op"
    using r req(2) by (simp add: file_result_def file_frame_def separate_def)
  then have "file_at w' ip = Some ?ct" using file_result_fields(2) [OF r] by (simp add: file_at_def)
  then show ?thesis using run frames.open_seal [OF law n, of "[]"] by auto
qed

theorem seal_in_place_loses_data_witness:
  "\<exists>w'. pqforge_stream_seal_file small_aead 0 4096 32 0 0 2 1024 1024 caller = (Done (code Ok), w') \<and>
    file_at caller [97] = Some [1, 2, 3, 4, 5] \<and>
    file_at w' [97] = Some (stream_seal (frame_enc small_aead (replicate 32 0) []) 2 [])"
proof -
  have req: "file_request caller 4096 32 (replicate 32 0) 0 0 [] 1024 [97] 1024 [97] [1, 2, 3, 4, 5]"
    using caller_request [of 1024 "[97]" "[1, 2, 3, 4, 5]"] by (simp add: caller_same is_null_def)
  show ?thesis
    using seal_in_place_loses_data [OF req _ _ _ small_aead_correct, of 0 AES_256_GCM "replicate 32 0" 2]
      caller_grants [of 2 "[1, 2, 3, 4, 5]"]
    by (auto simp: stream_aead_alg_def caller_same separate_def out_ino_def file_at_def TAG_LEN_def)
qed

text \<open>
  C38: the chunk size is not bounded before a buffer of that size is
  allocated: above \<open>isize::MAX\<close> the call ends as a contained panic (\<open>Internal\<close>), below it
  a refused allocation ends the process, which no panic guard can turn into a status.
\<close>

theorem chunk_size_unchecked:
  assumes "file_request w key key_len k aad aad_len ad in_path ip out_path op data"
    and "stream_aead_alg aid = Some alg" "unbound_key_new L alg k = ExtOk kk" "chunk \<noteq> 0"
    and "\<not> grants w (unat chunk)"
  shows "fst (pqforge_stream_seal_file L aid key key_len aad aad_len chunk in_path out_path w) =
    (if isize_max < unat chunk then Done (code Internal) else Abort)"
  using seal_file_stops [OF assms(1-4)] assms(5) by (simp add: grants_def)

theorem chunk_size_unchecked_witness:
  "fst (pqforge_stream_seal_file small_aead 0 4096 32 0 0 4000000000 1024 1040 caller) = Abort \<and>
   fst (pqforge_stream_seal_file small_aead 0 4096 32 0 0 18446744073709551615 1024 1040 caller) = Done (code Internal)"
proof -
  have req: "file_request caller 4096 32 (replicate 32 0) 0 0 [] 1024 [97] 1040 [98] [1, 2, 3, 4, 5]"
    using caller_request [of 1040 "[98]" "[1, 2, 3, 4, 5]"] by (simp add: caller_same is_null_def)
  have lib: "stream_aead_alg 0 = Some AES_256_GCM" "unbound_key_new small_aead AES_256_GCM (replicate 32 0) = ExtOk (replicate 32 0)"
    by (simp_all add: stream_aead_alg_def)
  show ?thesis
    using chunk_size_unchecked [OF req lib, of 4000000000]
      chunk_size_unchecked [OF req lib, of 18446744073709551615]
    by (simp add: grants_def isize_max_def)
qed




text \<open>
  C34: however a call ends, by a value, a panic or an abort, and whatever its
  other arguments, the caller's memory, every file but the one behind \<open>out_path\<close> and every
  other name are as they were.
\<close>

theorem stream_files_frame:
  assumes "c_string (mem w) out_path = Some op" and "i \<noteq> out_ino w op"
    and "w' = snd (pqforge_stream_seal_file L aid key key_len aad aad_len chunk in_path out_path w) \<or>
      w' = snd (pqforge_stream_open_file L aid key key_len aad aad_len chunk in_path out_path w)"
  shows "mem w' = mem w \<and> inodes w' i = inodes w i \<and> (\<forall>p. p \<noteq> op \<longrightarrow> names w' p = names w p)"
  using assms(2,3) seal_file_touch [OF assms(1), of L aid key key_len aad aad_len chunk in_path]
    open_file_touch [OF assms(1), of L aid key key_len aad aad_len chunk in_path]
  by (auto simp: touch_def touches_def)

theorem stream_files_frame_witness:
  "let w' = snd (pqforge_stream_open_file small_aead 0 4096 32 0 0 (2 ^ 63) 1024 1040 caller) in
     mem w' = caller_mem \<and> inodes w' 0 = [1, 2, 3, 4, 5]"
  unfolding Let_def
  using stream_files_frame [of caller 1040 "[98]" 0, OF _ _ disjI2 [OF refl], of small_aead 0 4096 32 0 0 "2 ^ 63" 1024]
  by (simp add: out_ino_def)

section \<open>The pure-Dart stream\<close>

text \<open>
  C5: \<open>PqForgeStream.seal\<close>, on the native and on the pure-Dart backend,
  yields, for any way the source is cut into events, chunks whose concatenation is byte for byte the file
  \<open>pqforge_stream_seal_file\<close> writes for the same key, associated data and chunk size.
\<close>

theorem dart_seal_equals_native:
  assumes req: "file_request w key key_len k aad aad_len ad in_path ip out_path op data"
    and lib: "unbound_key_new L alg k = ExtOk kk" "aead_correct L (unat chunk)"
    and sizes: "chunk \<noteq> 0" "grants w (unat chunk)" "length data < 2 ^ 63"
      "length (stream_seal (frame_enc L kk ad) (unat chunk) data) \<le> disk_room w"
    and "separate w ip op" and source: "concat source = data"
    and fb: "kind = FallbackKind \<longrightarrow> fallback_ready (F, L, kk, alg, k, ad)"
  shows "\<exists>w' ys. pqforge_stream_seal_file L (alg_id alg) key key_len aad aad_len chunk in_path out_path w =
      (Done (code Ok), w') \<and>
    dart_stream_seal (stream_backend_of kind F L) k alg (Some ad) chunk source = (ys, Inr ()) \<and>
    file_at w' op = Some (concat ys)"
proof -
  have n: "0 < unat chunk" using sizes(1) by (simp add: unat_gt_0)
  have "length data + 1 < 2 ^ 64" using sizes(3) by simp
  then obtain w' where run: "pqforge_stream_seal_file L (alg_id alg) key key_len aad aad_len chunk in_path out_path w =
      (Done (code Ok), w')"
    and r: "file_result op (stream_seal (frame_enc L kk ad) (unat chunk) data)
      (disk_room w - length (stream_seal (frame_enc L kk ad) (unat chunk) data)) w w'"
    by (rule seal_file_refines [OF req stream_aead_alg_id lib sizes(1,2) _ _ refl sizes(4)])
       (simp_all add: \<open>separate w ip op\<close>)
  have "unat chunk < 2 ^ 63" using sizes(2) by (simp add: grants_def isize_max_def)
  moreover have "length (plain_frames (unat chunk) (concat source)) \<le> 2 ^ 63"
    using length_blocks [OF n, of data] sizes(3) source by (simp add: plain_frames_def)
  ultimately have "dart_stream_seal (stream_backend_of kind F L) k alg (Some ad) chunk source =
      (seal_list (frame_enc L kk ad) 0 (plain_frames (unat chunk) (concat source)), Inr ())"
    by (intro any_stream_seal_run) (use lib sizes(1) fb in simp_all)
  then show ?thesis
    using run file_result_fields(2) [OF r] source by (simp add: stream_seal_def)
qed

theorem dart_seal_equals_native_witness:
  "\<exists>w' ys. pqforge_stream_seal_file small_aead 0 4096 32 0 0 2 1024 1040 caller = (Done (code Ok), w') \<and>
    dart_stream_seal (stream_backend_of FallbackKind small_packages small_aead) (replicate 32 0) AES_256_GCM (Some []) 2 [[1], [], [2, 3, 4, 5]] =
      (ys, Inr ()) \<and> file_at w' [98] = Some (concat ys)"
proof -
  have req: "file_request caller 4096 32 (replicate 32 0) 0 0 [] 1024 [97] 1040 [98] [1, 2, 3, 4, 5]"
    using caller_request [of 1040 "[98]" "[1, 2, 3, 4, 5]"] by (simp add: caller_same is_null_def)
  have "length (stream_seal (frame_enc small_aead (replicate 32 0) []) 2 [1, 2, 3, 4, 5]) = 53"
    using frames.length_stream_seal [of "(small_aead, replicate 32 0, [])" 2 "[1, 2, 3, 4, 5]"]
    by (simp add: frame_lawful_def small_aead_correct plain_frames_def blocks_step TAG_LEN_def)
  then show ?thesis
    using dart_seal_equals_native [OF req _ small_aead_correct, of AES_256_GCM "replicate 32 0" 2 "[[1], [], [2, 3, 4, 5]]"
        FallbackKind small_packages]
      caller_grants [of 2 "[1, 2, 3, 4, 5]"] caller_separate [of "[98]" "[1, 2, 3, 4, 5]"]
    by (simp add: caller_same fallback_ready_def small_gcm_conforms small_chacha_conforms)
qed

text \<open>
  C6: \<open>PqForgeStream.open\<close> and \<open>pqforge_stream_open_file\<close> agree on
  every stream, well-formed or not, whichever backend Dart runs on: they release the same plaintext and end the same way,
  the exception carrying the status code the native call returns.
\<close>

theorem dart_open_equals_native:
  assumes req: "file_request w key key_len k aad aad_len ad in_path ip out_path op ct"
    and lib: "unbound_key_new L alg k = ExtOk kk" "aead_quiet L" "open_shortens L"
    and sizes: "chunk \<noteq> 0" "unat chunk + TAG_LEN < 2 ^ 63" "grants w (unat chunk + TAG_LEN)" "length ct < 2 ^ 63"
      "length (snd (stream_open (frame_dec L kk ad) (unat chunk + TAG_LEN) ct)) \<le> disk_room w"
    and "separate w ip op" and source: "concat source = ct"
    and fb: "kind = FallbackKind \<longrightarrow> fallback_ready (F, L, kk, alg, k, ad)"
  shows "\<exists>w'. let g = dart_stream_open (stream_backend_of kind F L) k alg (Some ad) chunk source in
    pqforge_stream_open_file L (alg_id alg) key key_len aad aad_len chunk in_path out_path w =
      (Done (code (case snd g of Inr _ \<Rightarrow> Ok | Inl e \<Rightarrow> exn_status e)), w') \<and>
    file_at w' op = Some (concat (fst g))"
proof -
  let ?cc = "unat chunk + TAG_LEN"
  have cc: "?cc = unat (chunk + of_nat TAG_LEN)" "0 < ?cc"
    using sizes(2) by (simp_all add: TAG_LEN_def unat_word_ariths)
  have "length ct + 1 < 2 ^ 64" using sizes(4) by simp
  then obtain w' where run: "pqforge_stream_open_file L (alg_id alg) key key_len aad aad_len chunk in_path out_path w =
      (Done (code (fst (stream_open (frame_dec L kk ad) ?cc ct))), w')"
    and r: "file_result op (snd (stream_open (frame_dec L kk ad) ?cc ct))
      (disk_room w - length (snd (stream_open (frame_dec L kk ad) ?cc ct))) w w'"
    by (rule open_file_refines [OF req stream_aead_alg_id lib(1,2) sizes(1) cc sizes(3) _ _ prod.collapse [symmetric] sizes(5)])
       (simp_all add: \<open>separate w ip op\<close>)
  have "length (blocks ?cc (concat source)) \<le> 2 ^ 63"
    using length_blocks [OF cc(2), of ct] sizes(4) source by simp
  then have "gen_outcome (dart_stream_open (stream_backend_of kind F L) k alg (Some ad) chunk source) =
      stream_open (frame_dec L kk ad) ?cc (concat source)"
    by (intro any_stream_open_run) (use lib sizes(1,2) fb in simp_all)
  then show ?thesis
    using run file_result_fields(2) [OF r] source by (auto simp: gen_outcome_def Let_def prod_eq_iff)
qed

theorem dart_open_equals_native_witness:
  "\<exists>w'. let g = dart_stream_open (stream_backend_of FallbackKind small_packages small_aead) (replicate 32 0) AES_256_GCM (Some []) 2 [[1, 2], [3, 4, 5]] in
    pqforge_stream_open_file small_aead 0 4096 32 0 0 2 1024 1040 caller =
      (Done (code (case snd g of Inr _ \<Rightarrow> Ok | Inl e \<Rightarrow> exn_status e)), w') \<and>
    file_at w' [98] = Some (concat (fst g))"
proof -
  have req: "file_request caller 4096 32 (replicate 32 0) 0 0 [] 1024 [97] 1040 [98] [1, 2, 3, 4, 5]"
    using caller_request [of 1040 "[98]" "[1, 2, 3, 4, 5]"] by (simp add: caller_same is_null_def)
  have "stream_open (frame_dec small_aead (replicate 32 0) []) 18 [1, 2, 3, 4, 5] = (InvalidCiphertext, [])"
    by (simp add: stream_open_def blocks_step TAG_LEN_def)
  then show ?thesis
    using dart_open_equals_native [OF req _ small_aead_quiet small_aead_shortens, of AES_256_GCM "replicate 32 0" 2 "[[1, 2], [3, 4, 5]]"
        FallbackKind small_packages]
      caller_grants [of 18 "[1, 2, 3, 4, 5]"] caller_separate [of "[98]" "[1, 2, 3, 4, 5]"]
    by (simp add: caller_same TAG_LEN_def fallback_ready_def small_gcm_conforms small_chacha_conforms)
qed

text \<open>
  C32: the Dart nonces of counters below \<open>2^63\<close> are pairwise different and are
  the native ones. The comment promises an 88-bit counter, but a Dart \<open>int\<close> has 64 bits and
  the loop stops at a negative one: counter \<open>2^63\<close> gets the nonce of counter 0 again.
\<close>

theorem dart_nonce_space:
  "(unat c < 2 ^ 63 \<longrightarrow> dart_nonce c l 12 = stream_nonce c l) \<and>
   (unat c < 2 ^ 63 \<and> unat c' < 2 ^ 63 \<longrightarrow> (dart_nonce c l 12 = dart_nonce c' l' 12 \<longleftrightarrow> c = c' \<and> l = l')) \<and>
   dart_nonce (2 ^ 63) l 12 = dart_nonce 0 l 12"
proof -
  have "sint (2 ^ 63 :: 64 word) \<le> 0" by simp
  then have "dart_nonce (2 ^ 63) l 12 = dart_nonce 0 l 12" by (rule dart_nonce_negative)
  then show ?thesis by (auto simp: dart_nonce_native stream_nonce_inj)
qed

theorem dart_nonce_space_witness:
  "dart_nonce 258 True 12 = [0, 0, 0, 0, 0, 0, 0, 0, 0, 1, 2, 1] \<and> dart_nonce 1 False 12 \<noteq> dart_nonce 2 False 12"
proof -
  have "stream_nonce 258 True = [0, 0, 0, 0, 0, 0, 0, 0, 0, 1, 2, 1]"
    by (simp add: stream_nonce_layout be_bytes_def upt_conv_Cons drop_bit_eq_div)
  then show ?thesis
    using dart_nonce_space [of 258 True 0 False] dart_nonce_space [of 1 False 2 False] by auto
qed
section \<open>Envelopes\<close>

text \<open>
  C22: the envelope format has one reading. What \<open>_Parsed.decode\<close> accepts is
  exactly what \<open>_encodeHeader\<close> writes for the fields it returns, followed by the sealed part;
  the header is the documented one, and whatever else is presented is refused with
  \<open>InvalidCiphertextException\<close>.
\<close>

theorem envelope_codec:
  assumes "enum_ok P"
  shows "(decode_envelope P e = Inr q \<longleftrightarrow>
      pe_kemAlgorithm q \<in> set (kem_values P) \<and> length (pe_salt q) = 16 \<and> length (pe_nonce q) = 12 \<and>
      length (pe_kemCiphertext q) = kem_ciphertextBytes (pe_kemAlgorithm q) \<and>
      encode_header (pe_kemAlgorithm q) (pe_salt q) (pe_nonce q) (pe_kemCiphertext q) = Inr (pe_header q) \<and>
      e = pe_header q @ pe_sealed q) \<and>
    (length salt = 16 \<and> length nonce = 12 \<longrightarrow> encode_header a salt nonce ct =
      Inr (ascii_bytes ''PFE1'' @ [1, of_nat (kem_index a), 0] @ salt @ nonce @ u32_bytes (of_nat (length ct)) @ ct)) \<and>
    (\<forall>x. decode_envelope P e = Inl x \<longrightarrow> (\<exists>m. x = InvalidCiphertextException m))"
proof -
  have "decode_envelope P e = Inr q \<longleftrightarrow> well_formed P q \<and> e = pe_header q @ pe_sealed q"
    using decode_encoded [OF assms] decode_parsed [OF assms] by blast
  also have "\<dots> \<longleftrightarrow> pe_kemAlgorithm q \<in> set (kem_values P) \<and> length (pe_salt q) = 16 \<and> length (pe_nonce q) = 12 \<and>
      length (pe_kemCiphertext q) = kem_ciphertextBytes (pe_kemAlgorithm q) \<and>
      encode_header (pe_kemAlgorithm q) (pe_salt q) (pe_nonce q) (pe_kemCiphertext q) = Inr (pe_header q) \<and>
      e = pe_header q @ pe_sealed q"
    by (auto simp: well_formed_def encode_header_bytes)
  finally show ?thesis
    using decode_error [of P e] by (simp add: encode_header_bytes header_bytes_def ascii_bytes_def)
qed

theorem envelope_codec_witness:
  "decode_envelope small_package (pe_header one_envelope @ pe_sealed one_envelope) = Inr one_envelope"
  using envelope_codec [OF small_enum, of "pe_header one_envelope @ pe_sealed one_envelope" one_envelope "[]" "[]" ml_kem_768 "[]"]
    one_envelope_well_formed by (auto simp: well_formed_def encode_header_bytes)

text \<open>
  C10: an envelope sealed to a generated public key, on the native or on the
  pure-Dart backend, opens on either of them under the secret key and the same additional data,
  to the plaintext, in whatever state the caller is by then; it names the KEM algorithm it was
  sealed with.
\<close>

theorem envelope_roundtrip:
  assumes "package_ok P t_ok" "t_ok s" "any_recipient (kind, K, A, F) a pk sk s" "a \<in> set (kem_values P)"
    and "native_sealing (K, A) (length p)" "39 + kem_ciphertextBytes a + length (aad_bytes aad) \<le> isize_max"
    and fb: "kind = FallbackKind \<or> kind' = FallbackKind \<longrightarrow> interchangeable F K A"
  shows "\<exists>e s' q. envelope_seal P (envelope_backend_of (kind, K, A, F)) a pk p aad s = (Done (Inr e), s') \<and> t_ok s' \<and>
    decode_envelope P e = Inr q \<and> pe_kemAlgorithm q = a \<and>
    (\<forall>t. t_ok t \<longrightarrow> (\<exists>t'. envelope_open P (envelope_backend_of (kind', K, A, F)) sk e aad t = (Done (Inr p), t') \<and> t_ok t'))"
proof -
  have enum: "enum_ok P" using assms(1) by (simp add: package_ok_def)
  have world: "same_world (kind, K, A, F) (kind', K, A, F)" using fb by (simp add: same_world_def)
  have "(\<lambda>(kind, K, A, P). native_sealing (K, A)) (kind, K, A, F) (length p)" using assms(5) by simp
  from dem.seal_open [OF assms(1,2) world assms(3,4) this order_refl assms(6)] decode_encoded [OF enum]
  show ?thesis by metis
qed

theorem envelope_roundtrip_witness:
  "\<exists>e s'. envelope_seal small_package (envelope_backend_of (FallbackKind, fips_kem, small_aead, small_packages)) ml_kem_768
      (replicate 1184 0) [1, 2, 3] (Some [7]) tester = (Done (Inr e), s') \<and>
    (\<exists>t'. envelope_open small_package (envelope_backend_of (NativeKind, fips_kem, small_aead, small_packages))
      (replicate 2400 0) e (Some [7]) tester = (Done (Inr [1, 2, 3]), t'))"
proof -
  have size: "native_sealing (fips_kem, small_aead) (length [1, 2, 3 :: u8])"
    "39 + kem_ciphertextBytes ml_kem_768 + length (aad_bytes (Some [7])) \<le> isize_max"
    by (simp_all add: small_sealing) (simp add: ml_kem_768_def aad_bytes_def isize_max_def)
  have "any_recipient (FallbackKind, fips_kem, small_aead, small_packages) ml_kem_768 (replicate 1184 0) (replicate 2400 0) tester"
    using small_fallback_recipient [OF tester_ok] by (simp add: any_recipient_def)
  from envelope_roundtrip [OF small_package_ok tester_ok this ml_kem_768_value size, of NativeKind]
    small_interchangeable tester_ok
  show ?thesis by blast
qed


section \<open>One error model for two backends\<close>

text \<open>
  C27: on keys and nonces of the right size both backends seal to the same bytes, and
  on ciphertexts of at least a tag they open to the same plaintext or throw exceptions of one
  status; on ChaCha20-Poly1305 they do so also when exactly one of the sizes is wrong. They
  differ on an AES-256-GCM ciphertext shorter than a tag: natively it is an
  \<open>InvalidCiphertextException\<close>, on the fallback the status is that of a wrong key or of a
  failed tag. Whatever the packages throw, \<open>open\<close> throws the exceptions of this package.
\<close>

theorem backends_agree:
  fixes key nonce :: bytes
  assumes conf: "gcm_conforms F A" "chacha_conforms F A" and lib: "aead_keys A" "aead_quiet A" "open_shortens A"
  defines "sized \<equiv> length key = 32 \<and> length nonce = 12"
  shows "(sized \<and> aead_correct A (length p) \<longrightarrow> (\<exists>c. fallback_aeadSeal F alg key nonce p ad = Inr c \<and>
        aeadSeal (native_backend A) alg key nonce p ad = Inr c)) \<and>
    (sized \<and> TAG_LEN \<le> length c \<or> alg = CHACHA20_POLY1305 \<and> (sized \<or> TAG_LEN \<le> length c) \<longrightarrow>
      same_result (fallback_aeadOpen F alg key nonce c ad) (aeadOpen (native_backend A) alg key nonce c ad)) \<and>
    (sized \<and> length c < TAG_LEN \<and> alg = AES_256_GCM \<longrightarrow> (\<exists>e m. fallback_aeadOpen F alg key nonce c ad = Inl e \<and>
      exn_status e \<in> {InvalidKey, AuthFailed} \<and>
      aeadOpen (native_backend A) alg key nonce c ad = Inl (InvalidCiphertextException m))) \<and>
    (fallback_aeadOpen F alg key nonce c ad = Inl e \<longrightarrow> is_ffi_exn e)"
proof (intro conjI impI)
  assume "sized \<and> aead_correct A (length p)"
  then show "\<exists>c. fallback_aeadSeal F alg key nonce p ad = Inr c \<and> aeadSeal (native_backend A) alg key nonce p ad = Inr c"
    unfolding sized_def using backends_seal [OF conf lib(1)] by blast
next
  assume "sized \<and> TAG_LEN \<le> length c \<or> alg = CHACHA20_POLY1305 \<and> (sized \<or> TAG_LEN \<le> length c)"
  then consider "sized" "TAG_LEN \<le> length c" | "alg = CHACHA20_POLY1305" "sized" "length c < TAG_LEN"
    | "alg = CHACHA20_POLY1305" "\<not> sized" "TAG_LEN \<le> length c"
    by (meson not_le)
  then show "same_result (fallback_aeadOpen F alg key nonce c ad) (aeadOpen (native_backend A) alg key nonce c ad)"
  proof cases
    case 1
    then show ?thesis unfolding sized_def using backends_open [OF conf lib] by blast
  next
    case 2
    then show ?thesis
      using native_refusals(1) [OF lib(1,2) 2(3), of CHACHA20_POLY1305 key nonce ad]
        fallback_refusals(2) [of key nonce c F ad] by (auto simp: sized_def)
  next
    case 3
    then have "length key \<noteq> 32 \<or> length nonce \<noteq> 12" by (simp add: sized_def)
    from native_refusals(2) [OF lib(1,2) 3(3) this, of CHACHA20_POLY1305 ad]
      fallback_refusals(1) [OF this, of F c ad] show ?thesis by (auto simp: 3(1))
  qed
next
  assume *: "sized \<and> length c < TAG_LEN \<and> alg = AES_256_GCM"
  then have "\<exists>e. fallback_aeadOpen F alg key nonce c ad = Inl e"
    unfolding sized_def using gcm_short [OF conf(1)] by blast
  then show "\<exists>e m. fallback_aeadOpen F alg key nonce c ad = Inl e \<and> exn_status e \<in> {InvalidKey, AuthFailed} \<and>
      aeadOpen (native_backend A) alg key nonce c ad = Inl (InvalidCiphertextException m)"
    using * fallback_refusals(3) [of F key nonce c ad] native_refusals(1) [OF lib(1,2)] by metis
next
  assume "fallback_aeadOpen F alg key nonce c ad = Inl e"
  then show "is_ffi_exn e" by (rule fallback_open_own)
qed

theorem backends_agree_witness:
  "exn_status (projl (fallback_aeadOpen small_packages AES_256_GCM (replicate 32 0) (replicate 12 0) [1, 2, 3] [])) = InvalidKey \<and>
    (\<exists>m. aeadOpen (native_backend small_aead) AES_256_GCM (replicate 32 0) (replicate 12 0) [1, 2, 3] [] =
      Inl (InvalidCiphertextException m)) \<and>
    (\<exists>c. fallback_aeadSeal small_packages CHACHA20_POLY1305 (replicate 32 0) (replicate 12 0) [1, 2] [] = Inr c \<and>
      aeadSeal (native_backend small_aead) CHACHA20_POLY1305 (replicate 32 0) (replicate 12 0) [1, 2] [] = Inr c)"
proof -
  note agree = backends_agree [OF small_gcm_conforms small_chacha_conforms small_aead_keys small_aead_quiet small_aead_shortens,
    of "replicate 32 0" "replicate 12 0"]
  have "exn_status (projl (fallback_aeadOpen small_packages AES_256_GCM (replicate 32 0) (replicate 12 0) [1, 2, 3] [])) = InvalidKey"
    by (simp add: fallback_aeadOpen_def small_packages_def)
  then show ?thesis
    using agree [of "[]" AES_256_GCM "[]" "[1, 2, 3]"] agree [of "[1, 2]" CHACHA20_POLY1305 "[]" "[]"]
    by (simp add: TAG_LEN_def small_aead_correct) blast
qed

section \<open>The file cipher\<close>

text \<open>
  C7: on a healthy file system \<open>PqForgeFileCipher.seal\<close> replaces the output by
  the sealed stream of the input, and \<open>open\<close> by the plaintext only if the whole stream
  authenticates; otherwise \<open>open\<close> throws the exception of the native status. No temporary file
  stays, no other file changes. Input and output may be one file.
\<close>

theorem dart_file_publishes:
  assumes s: "healthy (t_world s)" "dart_request s ip op key aad"
    and F: "file_at (t_world s) ip = Some data" "ip \<noteq> tmp_path op"
    and lib: "unbound_key_new L alg key = ExtOk kk" "aead_correct L (unat chunk)" "aead_quiet L"
    and sizes: "chunk \<noteq> 0" "unat chunk + TAG_LEN < 2 ^ 63" "grants (t_world s) (unat chunk)"
      "grants (t_world s) (unat chunk + TAG_LEN)" "length data + 1 < 2 ^ 64"
    and io: "\<And>w. \<not> rename_refused E w (tmp_path op) op" "\<And>w. \<not> delete_refused E w (tmp_path op)"
  defines "sealed \<equiv> stream_seal (frame_enc L kk (aad_bytes aad)) (unat chunk) data"
    and "opened_to \<equiv> stream_open (frame_dec L kk (aad_bytes aad)) (unat chunk + TAG_LEN) data"
    and "rest \<equiv> (file_at (t_world s))(tmp_path op := None)"
  shows "(length sealed \<le> disk_room (t_world s) \<longrightarrow>
      (\<exists>s'. file_cipher_seal L E ip op key alg aad chunk s = (Done (Inr ()), s') \<and>
        file_at (t_world s') = rest(op \<mapsto> sealed))) \<and>
    (length (snd opened_to) \<le> disk_room (t_world s) \<longrightarrow>
      (\<exists>s'. file_cipher_open L E ip op key alg aad chunk s =
          (Done (if fst opened_to = Ok then Inr () else Inl (file_throw_status ''stream open file'' (fst opened_to))), s') \<and>
        file_at (t_world s') = (if fst opened_to = Ok then rest(op \<mapsto> snd opened_to) else rest)))"
proof -
  have aad: "aad_bytes aad = (case aad of None \<Rightarrow> [] | Some a \<Rightarrow> a)" by (simp add: aad_bytes_def)
  have small: "unat chunk < 2 ^ 63" using sizes(2) by simp
  have comm: "(file_at (t_world s))(op := x, tmp_path op := None) = rest(op := x)" for x
    by (simp add: rest_def fun_upd_twist)
  show ?thesis
    using cipher_seal_run [OF s aad F lib(1,2) sizes(1) small sizes(3,5) sealed_def [THEN meta_eq_to_obj_eq] _ io]
      cipher_open_run [OF s aad F lib(1,3) sizes(1,2,4,5) _ _ io, of "fst opened_to" "snd opened_to"]
    by (force simp: comm opened_to_def rest_def [symmetric])
qed

theorem dart_file_publishes_witness:
  "\<exists>s'. file_cipher_open small_aead willing_io [97] [97] (replicate 32 0) AES_256_GCM None 64 tester =
      (Done (Inl (InvalidCiphertextException ''stream open file: malformed ciphertext'')), s') \<and>
    file_at (t_world s') [97] = Some [1, 2, 3, 4, 5]"
proof -
  have open5: "stream_open (frame_dec small_aead (replicate 32 0) (aad_bytes None)) (64 + TAG_LEN) [1, 2, 3, 4, 5] =
      (InvalidCiphertext, [])"
    by (simp add: stream_open_def blocks_step TAG_LEN_def)
  have g: "grants (t_world tester) (unat (64 :: 64 word))" "grants (t_world tester) (unat (64 :: 64 word) + TAG_LEN)"
    using tester_healthy by (simp_all add: healthy_def TAG_LEN_def)
  have neq: "[97] \<noteq> tmp_path [97]" by simp
  note run = dart_file_publishes [OF tester_healthy tester_request tester_file neq small_aead_key small_aead_correct
      small_aead_quiet _ _ g, where alg = AES_256_GCM and E = willing_io, THEN conjunct2]
  show ?thesis using run open5 tester_file by (auto simp: TAG_LEN_def)
qed




section \<open>The native backend\<close>





section \<open>Selecting a backend\<close>

text \<open>
  C26: \<open>PqForge.instance\<close> decides once. From a cleared singleton the native
  backend is taken exactly if it is preferred, a path is given and the library behind it loads,
  exports its symbols, speaks ABI 1 and passes its self-test; in every other case the fallback
  is, without an exception. Later calls return the same backend whatever they ask for, and so
  they do after \<open>withBackend\<close>. The library of this repository is acceptable exactly if its
  SHA-256 gives 32 bytes.
\<close>

theorem backend_selection:
  fixes preferNative :: bool
  assumes "path \<noteq> None \<longrightarrow> selftest_returns (load (the path)) (caller_state s)"
  defines "accepted \<equiv> preferNative \<and> (\<exists>p. path = Some p \<and> acceptable (load p) (caller_state s))"
  shows "(\<exists>b s'. pqforge_instance load preferNative path (pqforge_reset s) = (Done b, s') \<and>
      b = (if accepted then Native (projr (load (the path))) else Fallback) \<and> (isAccelerated b \<longleftrightarrow> accepted) \<and>
      pqforge_instance load' preferNative' path' s' = (Done b, s')) \<and>
    pqforge_instance load' preferNative' path' (pqforge_withBackend b0 s) = (Done b0, pqforge_withBackend b0 s) \<and>
    (acceptable (Inr (this_core digest)) (caller_state s) \<longleftrightarrow> (\<exists>d. digest (ascii_bytes ''pqforge'') = Inr d \<and> length d = 32))"
proof -
  have core: "acceptable (Inr (this_core digest)) (caller_state s) \<longleftrightarrow>
      (\<exists>d. digest (ascii_bytes ''pqforge'') = Inr d \<and> length d = 32)"
    by (auto simp: acceptable_def this_core_def crypto_selftest_run pqforge_abi_version_def split: sum.splits)
  let ?b = "if accepted then Native (projr (load (the path))) else Fallback"
  obtain c where c: "resolve_backend load preferNative path (caller_state s) = (Done ?b, c)"
  proof (cases "preferNative \<and> path \<noteq> None")
    case False
    then show ?thesis using that by (auto simp: accepted_def resolve_backend_def ret_def)
  next
    case True
    then obtain p where p: "path = Some p" by blast
    then obtain r c where r: "native_open (load p) (caller_state s) = (Done r, c)"
      and dec: "if acceptable (load p) (caller_state s) then load p = Inr (projr (load p)) \<and> r = Inr (projr (load p))
        else \<exists>m. r = Inl (NativeBindingException m)"
      using native_open_decides [of "load p" "caller_state s"] assms(1) by auto
    have "resolve_backend load preferNative path (caller_state s) =
        (Done (case r of Inr b \<Rightarrow> Native b | Inl _ \<Rightarrow> Fallback), c)"
      using r True p by (cases r) (simp_all add: resolve_backend_def run_simps ret_def)
    moreover have "(case r of Inr b \<Rightarrow> Native b | Inl _ \<Rightarrow> Fallback) = ?b"
      using dec True p by (cases "load p"; cases "acceptable (load p) (caller_state s)") (auto simp: accepted_def)
    ultimately show ?thesis using that by simp
  qed
  show ?thesis
    using c core by (simp add: pqforge_instance_def pqforge_reset_def pqforge_withBackend_def isAccelerated_def)
qed

theorem backend_selection_witness:
  "\<exists>s'. pqforge_instance (\<lambda>p :: nat. Inr (this_core (\<lambda>x. Inr (replicate 32 0)))) True (Some 7)
      (pqforge_reset \<lparr>singleton = Some Fallback, caller_state = tester\<rparr>) =
    (Done (Native (this_core (\<lambda>x. Inr (replicate 32 0)))), s')"
proof -
  let ?load = "\<lambda>p :: nat. Inr (this_core (\<lambda>x. Inr (replicate 32 0)))"
    and ?s = "\<lparr>singleton = Some Fallback, caller_state = tester\<rparr>"
  have "Some 7 \<noteq> None \<longrightarrow> selftest_returns (?load (the (Some 7))) (caller_state ?s)"
    by (simp add: selftest_returns_def this_core_def crypto_selftest_run)
  from backend_selection [OF this, of True ?load False None Fallback "\<lambda>x. Inr (replicate 32 0)"]
  show ?thesis by auto
qed

section \<open>Progress of the Dart streams\<close>

text \<open>
  C25: neither stream waits for its end. After any part of its source a
  sealing stream has yielded all full frames but one and holds fewer than two chunks; an
  opening stream that has not thrown has yielded every frame that more bytes follow and
  holds at most one. What has been yielded is a prefix of what the whole source gives.
\<close>

theorem dart_stream_progress:
  fixes ad :: bytes
  assumes "aead_correct L (unat chunk)" "unbound_key_new L alg key = ExtOk kk"
    and chunk: "chunk \<noteq> 0" "unat chunk + TAG_LEN < 2 ^ 63"
  defines "seal_feed \<equiv> dart_seal_feed (dart_seal_frame (native_backend L) key alg ad) (unat chunk)"
    and "open_feed \<equiv> dart_open_feed (dart_open_frame (native_backend L) key alg ad) (int (unat chunk + TAG_LEN))"
  shows "(\<exists>ys st. seal_feed source \<lparr>ds_counter = 0, ds_pending = None, ds_carry = []\<rparr> = (ys, Inr st) \<and>
      length ys = length (concat source) div unat chunk - 1 \<and>
      length (case ds_pending st of None \<Rightarrow> [] | Some p \<Rightarrow> p) + length (ds_carry st) < 2 * unat chunk \<and>
      (\<forall>more. \<exists>zs. fst (dart_stream_seal (native_backend L) key alg (Some ad) chunk (source @ more)) = ys @ zs)) \<and>
    (\<forall>ys st. open_feed source \<lparr>do_counter = 0, do_carry = [], do_saw = False\<rparr> = (ys, Inr st) \<longrightarrow>
      length ys = (length (concat source) - 1) div (unat chunk + TAG_LEN) \<and> length (do_carry st) \<le> unat chunk + TAG_LEN \<and>
      (\<forall>more. \<exists>zs. fst (dart_stream_open (native_backend L) key alg (Some ad) chunk (source @ more)) = ys @ zs))"
proof -
  have n: "0 < unat chunk" using chunk(1) by (simp add: unat_gt_0)
  have small: "unat chunk < 2 ^ 63" "unat (chunk + 16) = unat chunk + 16"
    using chunk(2) by (simp_all add: TAG_LEN_def unat_word_ariths)
  have len: "nat (sint chunk) = unat chunk" "\<not> sint chunk \<le> 0"
    unfolding sint_nonneg [OF small(1)] using n by linarith+
  have cc: "sint (chunk + of_nat 16) = int (unat chunk + TAG_LEN)"
    using chunk(2) small(2) sint_nonneg [of "chunk + 16"] by (simp add: TAG_LEN_def)
  obtain enc where enc: "seals_as (dart_seal_frame (native_backend L) key alg ad) enc (unat chunk)"
    using native_seals_as [OF assms(1,2)] by blast
  obtain ys st where s: "seal_feed source \<lparr>ds_counter = 0, ds_pending = None, ds_carry = []\<rparr> = (ys, Inr st)"
    and l: "length ys = length (concat source) div unat chunk - 1" "length (held_back st) < 2 * unat chunk"
    using dart_seal_progress [OF enc n] unfolding seal_feed_def by blast
  have "fst (dart_stream_seal (native_backend L) key alg (Some ad) chunk (source @ more)) =
      ys @ fst (gen_bind (seal_feed more st) (dart_seal_end (dart_seal_frame (native_backend L) key alg ad)))" for more
    using s by (simp add: dart_stream_seal_def len Let_def dart_seal_feed_append gen_bind_bind gen_bind_Inr seal_feed_def)
  moreover have "fst (dart_stream_open (native_backend L) key alg (Some ad) chunk (source @ more)) =
      ys @ fst (gen_bind (open_feed more st) (dart_open_end (dart_open_frame (native_backend L) key alg ad) 16))"
    if "open_feed source \<lparr>do_counter = 0, do_carry = [], do_saw = False\<rparr> = (ys, Inr st)" for ys st more
    using that cc
    by (simp add: dart_stream_open_def len(2) Let_def dart_open_feed_append gen_bind_bind gen_bind_Inr open_feed_def)
  moreover have "0 < unat chunk + TAG_LEN" by (simp add: TAG_LEN_def)
  note dart_open_progress [OF this, of "dart_open_frame (native_backend L) key alg ad" source, folded open_feed_def]
  ultimately show ?thesis using s l unfolding held_back_def length_append by blast
qed

theorem dart_stream_progress_witness:
  "\<exists>ys st. dart_seal_feed (dart_seal_frame (native_backend small_aead) (replicate 32 0) AES_256_GCM []) 2
      [[1], [2, 3, 4], [5, 6, 7]] \<lparr>ds_counter = 0, ds_pending = None, ds_carry = []\<rparr> = (ys, Inr st) \<and> length ys = 2"
proof -
  have two: "unat (2 :: 64 word) = 2" and len: "length (concat [[1], [2, 3, 4], [5, 6, 7 :: u8]]) div 2 - 1 = 2"
    and key: "unbound_key_new small_aead AES_256_GCM (replicate 32 0) = ExtOk (replicate 32 0)"
    and chunk: "(2 :: 64 word) \<noteq> 0" "unat (2 :: 64 word) + TAG_LEN < 2 ^ 63"
    by (simp_all add: TAG_LEN_def)
  from dart_stream_progress [OF small_aead_correct key chunk, of "[]" "[[1], [2, 3, 4], [5, 6, 7]]",
      THEN conjunct1, unfolded two len]
  show ?thesis by blast
qed

section \<open>Every entry point returns a status\<close>

text \<open>
  C40: the result type of the C-ABI. With pointers that are null or valid for
  the lengths that come with them, every entry point returns, and returns one of the twelve
  status codes, whatever the linked library does, panics included: no undefined behaviour,
  no unwinding, no abort.
\<close>

theorem entry_points_return:
  assumes "in_ok (mem w) a n" "in_ok (mem w) b m" "in_ok (mem w) c k" "in_ok (mem w) d j"
    and "out_ok (mem w) o1 c1" "len_ok (mem w) l1" "out_ok (mem w) o2 c2" "len_ok (mem w) l2"
    and "run \<in> {pqforge_aead_seal A aid a n b m c k d j o1 c1 l1, pqforge_aead_open A aid a n b m c k d j o1 c1 l1,
      pqforge_mlkem_keygen K aid o1 c1 l1 o2 c2 l2, pqforge_mlkem_encapsulate K aid a n o1 c1 l1 o2 c2 l2,
      pqforge_mlkem_decapsulate K aid a n b m o1 c1 l1,
      pqforge_mldsa_keygen D aid o1 c1 l1 o2 c2 l2, pqforge_mldsa_keygen_from_seed D aid a n o1 c1 l1 o2 c2 l2,
      pqforge_mldsa_sign D aid a n b m o1 c1 l1, pqforge_mldsa_verify D aid a n b m c k,
      pqforge_x25519_keygen L a n o1 c1 l1 o2 c2 l2, pqforge_x25519_ecdh L a n b m o1 c1 l1,
      pqforge_ed25519_keygen L a n o1 c1 l1 o2 c2 l2, pqforge_ed25519_public_from_seed L a n o1 c1 l1,
      pqforge_ed25519_sign L a n b m o1 c1 l1, pqforge_ed25519_verify L a n b m c k,
      pqforge_status_message aid o1 c1 l1, pqforge_crypto_selftest digest, pqforge_selftest_panic}"
  shows "\<exists>st w'. run w = (Done (code st), w')"
proof -
  have "aead_contract (mem w) a n b m c k d j o1 c1 l1" using assms(1-6) by (simp add: aead_contract_def)
  note aead = aead_seal.returns_status [of "(A, aid, a, n, b, m, c, k, d, j, o1, c1, l1)" w]
    aead_open.returns_status [of "(A, aid, a, n, b, m, c, k, d, j, o1, c1, l1)" w] this
  note kem = mlkem_keygen.returns_status [of "(K, aid, o1, c1, l1, o2, c2, l2)" w]
    mlkem_encapsulate.returns_status [of "(K, aid, a, n, o1, c1, l1, o2, c2, l2)" w]
    mlkem_decapsulate.returns_status [of "(K, aid, a, n, b, m, o1, c1, l1)" w]
  note dsa = mldsa_keygen.returns_status [of "(D, aid, o1, c1, l1, o2, c2, l2)" w]
    mldsa_from_seed.returns_status [of "(D, aid, a, n, o1, c1, l1, o2, c2, l2)" w]
    mldsa_sign.returns_status [of "(D, aid, a, n, b, m, o1, c1, l1)" w]
    mldsa_verify.returns_status [of "(D, aid, a, n, b, m, c, k)" w]
  note classical = x25519_keygen.returns_status [of "(L, a, n, o1, c1, l1, o2, c2, l2)" w]
    x25519_ecdh.returns_status [of "(L, a, n, b, m, o1, c1, l1)" w]
    ed25519_keygen.returns_status [of "(L, a, n, o1, c1, l1, o2, c2, l2)" w]
    ed25519_public.returns_status [of "(L, a, n, o1, c1, l1)" w]
    ed25519_sign.returns_status [of "(L, a, n, b, m, o1, c1, l1)" w]
    ed25519_verify.returns_status [of "(L, a, n, b, m, c, k)" w]
  have probes: "\<exists>st w'. pqforge_status_message aid o1 c1 l1 w = (Done (code st), w')"
    "\<exists>st w'. pqforge_crypto_selftest digest w = (Done (code st), w')" "\<exists>st w'. pqforge_selftest_panic w = (Done (code st), w')"
    using status_message_run [OF assms(5,6), of aid] selftest_panic_run [of w]
    by (auto simp: crypto_selftest_run simp del: code.simps split: sum.split)
  note entries = pqforge_aead_seal_def pqforge_aead_open_def pqforge_mlkem_keygen_def pqforge_mlkem_encapsulate_def
    pqforge_mlkem_decapsulate_def pqforge_mldsa_keygen_def pqforge_mldsa_keygen_from_seed_def pqforge_mldsa_sign_def
    pqforge_mldsa_verify_def pqforge_x25519_keygen_def pqforge_x25519_ecdh_def pqforge_ed25519_keygen_def
    pqforge_ed25519_public_from_seed_def pqforge_ed25519_sign_def pqforge_ed25519_verify_def
  show ?thesis
    using assms(9) aead kem dsa classical probes assms(1-8)
    unfolding insert_iff empty_iff by (elim disjE) (simp_all add: entries del: code.simps)
qed

theorem entry_points_return_witness:
  "\<exists>st w'. pqforge_ed25519_sign small_classical 4096 32 0 9 5000 64 5064 caller = (Done (code st), w')"
proof -
  have "in_ok (mem caller) 4096 32" "in_ok (mem caller) 0 9" "in_ok (mem caller) 0 0" "out_ok (mem caller) 5000 64"
    "len_ok (mem caller) 5064" "out_ok (mem caller) 0 7" "len_ok (mem caller) 0"
    by (simp_all add: caller_simps caller_mapped out_ok_def len_ok_def in_ok_def)
  note ok = this
  show ?thesis
    by (rule entry_points_return [where A = small_aead and K = small_kem and D = small_dsa and L = small_classical
          and aid = 0, OF ok(1,2,3,3,4,5,6,7)]) simp
qed
section \<open>The public interface and the seams\<close>

text \<open>
  C16: whatever \<open>PqForge.instance\<close> resolves to, a KEM key pair generated through it
  receives envelopes sealed through any instance, in this or another process, and any instance
  opens them; a signature under a key pair generated through it verifies at every instance.
\<close>

theorem api_session:
  assumes kept: "standards_kept (K, A, D, F) a alg b dalg"
    and start: "t_ok (caller_state s)" "path \<noteq> None \<longrightarrow> selftest_returns (load (the path)) (caller_state s)"
    and pkg: "package_ok P t_ok" "a \<in> set (kem_values P)"
    and fit: "native_sealing (K, A) (length p)" "39 + kem_ciphertextBytes a + length (aad_bytes aad) \<le> isize_max"
      "length msg \<le> isize_max"
  defines "B r \<equiv> backend_behind (K, A, D, F) r"
  shows "\<exists>r s'. pqforge_instance load preferNative path s = (Done r, s') \<and>
    (\<exists>pk sk t. api_generateKemKeyPair (B r) a (caller_state s') = (Done (Inr (pk, sk)), t) \<and> t_ok t \<and>
      (\<forall>r' r'' u. t_ok u \<longrightarrow> (\<exists>e u'. api_sealEnvelope P (B r') a pk p aad u = (Done (Inr e), u') \<and> t_ok u' \<and>
        (\<forall>v. t_ok v \<longrightarrow> (\<exists>v'. api_openEnvelope P (B r'') sk e aad v = (Done (Inr p), v') \<and> t_ok v'))))) \<and>
    (\<exists>pk sk t. api_generateSignatureKeyPair (B r) b (caller_state s') = (Done (Inr (pk, sk)), t) \<and> t_ok t \<and>
      (\<forall>r' r'' u. t_ok u \<longrightarrow> (\<exists>sg u'. api_sign (B r') b sk msg u = (Done (Inr sg), u') \<and> t_ok u' \<and>
        (\<forall>v. t_ok v \<longrightarrow> (\<exists>v'. api_verify (B r'') b pk msg sg v = (Done (Inr True), v') \<and> t_ok v')))))"
proof -
  obtain r s' where run: "pqforge_instance load preferNative path s = (Done r, s')" "t_ok (caller_state s')"
    using instance_runs [of s path load, OF start] by blast
  obtain g pk sk t where k: "api_generateKemKeyPair (B r) a (caller_state s') = (Done (Inr (pk, sk)), t)" "t_ok t"
      "mlkem_keygen_spec K alg g = Produce (pk, sk)"
    using behind_kem_ops [OF kept, of r] run(2) unfolding kem_ops_def B_def by blast
  note envelopes = api_envelopes [OF kept pkg fit(1,2) k(3), folded B_def]
  note sig = behind_dsa_ops [OF kept, folded B_def]
  obtain g' pk' sk' t' where d: "api_generateSignatureKeyPair (B r) b (caller_state s') = (Done (Inr (pk', sk')), t')" "t_ok t'"
      "mldsa_keygen_spec D dalg g' = Produce (pk', sk')"
    using sig [of r] run(2) unfolding dsa_ops_def by blast
  note signatures = dsa_ops_use [OF sig sig d(3) fit(3)]
  with run(1) k(1,2) d(1,2) envelopes signatures show ?thesis by blast
qed

theorem api_session_witness:
  "\<exists>r s' pk sk t e u v. pqforge_instance (\<lambda>p :: nat. Inr (this_core (\<lambda>x. Inr (replicate 32 0)))) True (Some 7)
      \<lparr>singleton = None, caller_state = tester\<rparr> = (Done r, s') \<and>
    api_generateKemKeyPair (backend_behind (fips_kem, small_aead, fips_dsa, small_packages) r) ml_kem_768 (caller_state s') =
      (Done (Inr (pk, sk)), t) \<and>
    api_sealEnvelope small_package (backend_behind (fips_kem, small_aead, fips_dsa, small_packages) Fallback) ml_kem_768
      pk [1, 2, 3] (Some [7]) tester = (Done (Inr e), u) \<and>
    api_openEnvelope small_package (backend_behind (fips_kem, small_aead, fips_dsa, small_packages) r) sk e (Some [7]) tester =
      (Done (Inr [1, 2, 3]), v)"
proof -
  let ?load = "\<lambda>p :: nat. Inr (this_core (\<lambda>x. Inr (replicate 32 0)))"
    and ?s = "\<lparr>singleton = None, caller_state = tester\<rparr>"
  have start: "t_ok (caller_state ?s)" "Some 7 \<noteq> None \<longrightarrow> selftest_returns (?load (the (Some 7))) (caller_state ?s)"
    by (simp_all add: tester_ok selftest_returns_def this_core_def crypto_selftest_run)
  have fit: "native_sealing (fips_kem, small_aead) (length [1, 2, 3 :: u8])"
    "39 + kem_ciphertextBytes ml_kem_768 + length (aad_bytes (Some [7])) \<le> isize_max" "length [0 :: u8] \<le> isize_max"
    by (simp_all add: small_sealing) (simp_all add: ml_kem_768_def aad_bytes_def isize_max_def)
  let ?B = "backend_behind (fips_kem, small_aead, fips_dsa, small_packages)"
  obtain r s' pk sk t where run: "pqforge_instance ?load True (Some 7) ?s = (Done r, s')"
      "api_generateKemKeyPair (?B r) ml_kem_768 (caller_state s') = (Done (Inr (pk, sk)), t)"
    and seal: "\<And>r' r'' u. t_ok u \<Longrightarrow> \<exists>e u'. api_sealEnvelope small_package (?B r') ml_kem_768 pk [1, 2, 3] (Some [7]) u =
        (Done (Inr e), u') \<and> t_ok u' \<and>
      (\<forall>v. t_ok v \<longrightarrow> (\<exists>v'. api_openEnvelope small_package (?B r'') sk e (Some [7]) v = (Done (Inr [1, 2, 3]), v') \<and> t_ok v'))"
    using api_session [OF small_standards start small_package_ok ml_kem_768_value fit, of True] by blast
  show ?thesis using run seal [OF tester_ok, of Fallback r] tester_ok by blast
qed

text \<open>
  C21: registered behind the lattice seam of package \<open>pqforge\<close> over a
  lawful provider of that package, the native provider is lawful for every seed, nonce,
  context and pre-hash flag: a shared secret is agreed on however the key pair and the
  ciphertext came about, and a signature verifies with the context and flag it was made with.
\<close>

theorem lattice_provider_contract:
  assumes lib: "kem_implements K a alg" "dsa_implements D b dalg" "seeds_draw D (of_nat (sig_index b)) dalg"
    and fb: "lattice_lawful K a alg D b dalg fb" and t: "t_ok t"
    and sized: "seed = None \<or> length (the seed) = 64" "nonce = None \<or> length (the nonce) = 32" "length sd = 32"
      "length msg \<le> isize_max" "ctx = None \<or> length (the ctx) \<le> 255"
  defines "Q \<equiv> native_lattice_provider K D fb"
  shows "(\<exists>pk sk t1. lp_kemGenerateKeyPair Q a seed t = (Done (Inr (pk, sk)), t1) \<and> t_ok t1 \<and> (\<forall>u. t_ok u \<longrightarrow>
      (\<exists>ct ss u'. lp_kemEncapsulate Q a pk nonce u = (Done (Inr (ct, ss)), u') \<and> t_ok u' \<and>
        (\<forall>v. t_ok v \<longrightarrow> (\<exists>v'. lp_kemDecapsulate Q a sk ct v = (Done (Inr ss), v') \<and> t_ok v'))))) \<and>
    (\<forall>gen \<in> {lp_dsaGenerateKeyPair Q b, lp_dsaGenerateKeyPairSeeded Q b sd}.
      \<exists>pk sk t1. gen t = (Done (Inr (pk, sk)), t1) \<and> t_ok t1 \<and> (\<forall>u. t_ok u \<longrightarrow>
        (\<exists>sg u'. lp_dsaSign Q b sk msg ctx preHash u = (Done (Inr sg), u') \<and> t_ok u' \<and>
          (\<forall>v. t_ok v \<longrightarrow> (\<exists>v'. lp_dsaVerify Q b pk msg sg ctx preHash v = (Done (Inr True), v') \<and> t_ok v')))))"
  using native_lattice.kem_session [of "(K, a, alg, D, b, dalg, fb)", OF _ _ t sized(1,2)]
    native_lattice.dsa_session [of "(K, a, alg, D, b, dalg, fb)", OF _ _ t sized(3-5)] lib fb
  by (auto simp: Q_def)

theorem lattice_provider_contract_witness:
  "\<exists>pk sk t sg u v. lp_dsaGenerateKeyPairSeeded (native_lattice_provider fips_kem fips_dsa small_lattice) ml_dsa_65
      (replicate 32 4) tester = (Done (Inr (pk, sk)), t) \<and>
    lp_dsaSign (native_lattice_provider fips_kem fips_dsa small_lattice) ml_dsa_65 sk [1, 2] (Some [5]) True tester =
      (Done (Inr sg), u) \<and>
    lp_dsaVerify (native_lattice_provider fips_kem fips_dsa small_lattice) ml_dsa_65 pk [1, 2] sg (Some [5]) True tester =
      (Done (Inr True), v)"
proof -
  have draw: "seeds_draw fips_dsa (of_nat (sig_index ml_dsa_65)) ML_DSA_65" using fips_seeds_draw by (simp add: ml_dsa_65_def)
  have sized: "Some (replicate 64 (1 :: u8)) = None \<or> length (the (Some (replicate 64 (1 :: u8)))) = 64"
    "None = None \<or> length (the None) = 32" "length (replicate 32 (4 :: u8)) = 32" "length [1, 2 :: u8] \<le> isize_max"
    "Some [5 :: u8] = None \<or> length (the (Some [5 :: u8])) \<le> 255"
    by (simp_all add: isize_max_def)
  let ?Q = "native_lattice_provider fips_kem fips_dsa small_lattice"
  obtain pk sk t where gen: "lp_dsaGenerateKeyPairSeeded ?Q ml_dsa_65 (replicate 32 4) tester = (Done (Inr (pk, sk)), t)"
    and use: "\<And>u. t_ok u \<Longrightarrow> \<exists>sg u'. lp_dsaSign ?Q ml_dsa_65 sk [1, 2] (Some [5]) True u = (Done (Inr sg), u') \<and> t_ok u' \<and>
      (\<forall>v. t_ok v \<longrightarrow> (\<exists>v'. lp_dsaVerify ?Q ml_dsa_65 pk [1, 2] sg (Some [5]) True v = (Done (Inr True), v') \<and> t_ok v'))"
    using lattice_provider_contract [OF fips_implements draw small_lattice_lawful tester_ok sized, of True, THEN conjunct2,
      THEN bspec, of "lp_dsaGenerateKeyPairSeeded ?Q ml_dsa_65 (replicate 32 4)"] by blast
  show ?thesis using gen use [OF tester_ok] tester_ok by blast
qed



section \<open>The unit tests\<close>

text \<open>
  C28: of the unit tests of \<open>aead.rs\<close>, run as sequences of calls on one
  memory, the round trips and the refusals pass for every correct library, and the three
  that tamper pass exactly if the library rejects the one forgery each of them builds.
\<close>

theorem aead_unit_tests:
  assumes "t_ok s" "aead_keys L" "aead_correct L limit" "25 \<le> limit"
  defines "K7 \<equiv> replicate 32 7" and "N3 \<equiv> replicate 12 3"
  shows "passes (seal_open_round_trip L) s \<and> passes (empty_plaintext_round_trips L) s \<and>
    passes (wrong_key_length_is_invalid_key L) s \<and> passes (short_ciphertext_is_invalid L) s \<and>
    (\<exists>c. aead_seal_spec L 0 K7 N3 [] (ascii_bytes ''data'') = Produce c \<and>
      (passes (tampered_ciphertext_fails_authentication L) s \<longleftrightarrow>
        aead_open_spec L 0 K7 N3 [] (flip_byte 0 c) = Refuse AuthFailed)) \<and>
    (\<exists>c. aead_seal_spec L 0 K7 N3 (ascii_bytes ''aad-A'') (ascii_bytes ''data'') = Produce c \<and>
      (passes (wrong_aad_fails_authentication L) s \<longleftrightarrow>
        aead_open_spec L 0 K7 N3 (ascii_bytes ''aad-B'') c = Refuse AuthFailed)) \<and>
    (\<exists>c. aead_seal_spec L 1 (replicate 32 9) (replicate 12 4) (ascii_bytes ''chacha-aad'')
        (ascii_bytes ''chacha20-poly1305 payload'') = Produce c \<and>
      (passes (chacha20_poly1305_round_trip_and_tamper L) s \<longleftrightarrow>
        aead_open_spec L 1 (replicate 32 9) (replicate 12 4) (ascii_bytes ''chacha-aad'') (flip_byte 0 c) =
          Refuse AuthFailed))"
proof -
  note round = aead_keys_round [OF assms(2,3)]
  have alg: "aead_alg 0 = Some AES_256_GCM" "aead_alg 1 = Some CHACHA20_POLY1305" by (simp_all add: aead_alg_def)
  have len: "length K7 = 32" "length N3 = 12" by (simp_all add: K7_def N3_def)
  obtain c where c: "aead_seal_spec L 0 K7 N3 [] (ascii_bytes ''data'') = Produce c" "length c = length (ascii_bytes ''data'') + 16"
    by (rule round [OF alg(1) len, of "ascii_bytes ''data''" "[]"]) (use assms(4) in simp_all)
  obtain d where d: "aead_seal_spec L 0 K7 N3 (ascii_bytes ''aad-A'') (ascii_bytes ''data'') = Produce d"
    "length d = length (ascii_bytes ''data'') + 16"
    by (rule round [OF alg(1) len, of "ascii_bytes ''data''" "ascii_bytes ''aad-A''"]) (use assms(4) in simp_all)
  obtain e where e: "aead_seal_spec L 1 (replicate 32 9) (replicate 12 4) (ascii_bytes ''chacha-aad'')
      (ascii_bytes ''chacha20-poly1305 payload'') = Produce e"
    "length e = length (ascii_bytes ''chacha20-poly1305 payload'') + 16"
    "aead_open_spec L 1 (replicate 32 9) (replicate 12 4) (ascii_bytes ''chacha-aad'') e =
      Produce (ascii_bytes ''chacha20-poly1305 payload'')"
    by (rule round [OF alg(2), of "replicate 32 9" "replicate 12 4" "ascii_bytes ''chacha20-poly1305 payload''"
          "ascii_bytes ''chacha-aad''"]) (use assms(4) in simp_all)
  show ?thesis
    using round_trip_passes [OF assms(1-3)] empty_round_trip_passes [OF assms(1-3)] wrong_key_test_passes [OF assms(1,2)]
      short_ciphertext_test_passes [OF assms(1), of L] assms(4) c d e
      tampered_test_iff [OF assms(1) c(1) [unfolded K7_def N3_def], folded K7_def N3_def]
      wrong_aad_test_iff [OF assms(1) d(1) [unfolded K7_def N3_def], folded K7_def N3_def]
      chacha_test_iff [OF assms(1) e]
    by simp
qed

theorem aead_unit_tests_witness:
  "passes (seal_open_round_trip small_aead) tester \<and> passes (empty_plaintext_round_trips small_aead) tester \<and>
   \<not> passes (tampered_ciphertext_fails_authentication small_aead) tester"
  using aead_unit_tests [OF tester_ok small_aead_keys small_aead_correct [of 25]]
  by (auto simp: aead_seal_spec_def aead_open_spec_def small_aead_def aead_alg_def TAG_LEN_def flip_byte_def
      on_ext_def ascii_bytes_def)

text \<open>
  C29: the unit tests of \<open>kem.rs\<close> and those on X25519 pass for every
  correct library whose keys, ciphertexts and secrets have the sizes of the standards,
  whatever randomness the calls draw; the one that compares the keys of two seeds passes
  exactly if these differ.
\<close>

theorem agreement_unit_tests:
  assumes "t_ok s" "kem_sizes L ML_KEM_768 KEM_PK KEM_SK KEM_CT KEM_SS" "kem_correct L ML_KEM_768 good"
    and "good (rng (t_world s)) (snd (dk_generate L ML_KEM_768 (rng (t_world s))))"
    and "draws X" "x25519_sizes X" "dh_correct X"
  shows "passes (keygen_encapsulate_decapsulate_round_trip L) s \<and>
    passes (buffer_too_small_reports_required_length L) s \<and> passes (kem_unknown_algorithm_is_invalid_key L) s \<and>
    passes (x25519_ecdh_is_symmetric X) s \<and> passes (x25519_wrong_seed_length_is_invalid_key X) s \<and>
    (\<exists>pk pk'. x25519_pair X (replicate 32 7) = Produce (pk, replicate 32 7) \<and>
      x25519_pair X (replicate 32 9) = Produce (pk', replicate 32 9) \<and>
      (passes (x25519_seeded_keygen_is_deterministic X) s \<longleftrightarrow> pk \<noteq> pk'))"
proof -
  obtain pk pk' where p: "x25519_pair X (replicate 32 7) = Produce (pk, replicate 32 7)"
    "x25519_pair X (replicate 32 9) = Produce (pk', replicate 32 9)"
    using assms(6) unfolding x25519_sizes_def by (metis length_replicate)
  then have "passes (x25519_seeded_keygen_is_deterministic X) s \<longleftrightarrow> pk \<noteq> pk'"
    using x25519_seeded_test_iff [OF assms(1,6)] by simp
  with p show ?thesis
    using kem_round_trip_passes [OF assms(1-4)] kem_small_buffer_passes [OF assms(1,2)]
      kem_unknown_algorithm_passes [OF assms(1), of L] x25519_symmetric_passes [OF assms(1,5-7)]
      x25519_wrong_seed_passes [OF assms(1), of X] by blast
qed

theorem agreement_unit_tests_witness:
  "passes (keygen_encapsulate_decapsulate_round_trip fips_kem) tester \<and>
   passes (x25519_seeded_keygen_is_deterministic small_classical) tester"
proof -
  have "\<And>pk pk'. x25519_pair small_classical (replicate 32 7) = Produce (pk, replicate 32 7) \<Longrightarrow>
      x25519_pair small_classical (replicate 32 9) = Produce (pk', replicate 32 9) \<Longrightarrow> pk \<noteq> pk'"
    by (auto simp: x25519_pair_def small_classical_def)
  with agreement_unit_tests [OF tester_ok fips_kem_sizes fips_kem_correct [of ML_KEM_768 "\<lambda>_ _. True"] _ small_draws
      small_x25519_sizes small_dh_correct]
  show ?thesis by blast
qed

text \<open>
  C30: the unit tests of \<open>sign.rs\<close> and those on Ed25519 that expect
  success or a refusal pass for every correct library with the sizes of the standards; the
  ones that verify another message pass exactly if the library rejects the signature on it,
  and the one that compares seeded keys exactly if they differ.
\<close>

theorem signature_unit_tests:
  assumes "t_ok s" "dsa_sizes D 1 ML_DSA_65 DSA_PK DSA_SK DSA_SIG" "dsa_correct D ML_DSA_65"
    and "draws L" "ed25519_sizes L" "ed_correct L"
    and "mldsa_keygen_spec D ML_DSA_65 (rng (t_world s)) = Produce (pk, sk)"
    and "mldsa_sign_spec D ML_DSA_65 sk (ascii_bytes ''original message'')
      (snd (dsa_generate D ML_DSA_65 (rng (t_world s)))) = Produce sg"
    and "mldsa_from_seed_spec D 1 (replicate 32 7) = Produce (p7, s7)"
    and "mldsa_from_seed_spec D 1 (replicate 32 9) = Produce (p9, s9)"
    and "drawn L None (rng (t_world s)) = ExtOk sd" "ed25519_pair L sd = Produce (ep, sd)"
    and "ed25519_sign_spec L sd (ascii_bytes ''original'') = Produce eg"
  shows "passes (keygen_sign_verify_round_trip D) s \<and> passes (dsa_unknown_algorithm_is_invalid_key D) s \<and>
    passes (ed25519_sign_verify_round_trip L) s \<and>
    passes (ed25519_seeded_keygen_deterministic_and_public_from_seed_matches L) s \<and>
    (passes (verify_rejects_tampered_message D) s \<longleftrightarrow>
      mldsa_verify_spec D 1 pk (ascii_bytes ''tampered message'') sg = AuthFailed) \<and>
    (passes (keygen_from_seed_is_deterministic D) s \<longleftrightarrow> p7 \<noteq> p9) \<and>
    (passes (ed25519_verify_rejects_tamper L) s \<longleftrightarrow>
      ed25519_verify_spec L ep (ascii_bytes ''tampered'') eg = AuthFailed)"
  using dsa_round_trip_passes [OF assms(1-3)] dsa_unknown_algorithm_passes [OF assms(1), of D]
    ed25519_round_trip_passes [OF assms(1,4-6)] ed25519_seeded_passes [OF assms(1,5)]
    dsa_tampered_test_iff [OF assms(1,2,7,8)] dsa_seeded_test_iff [OF assms(1,2)] assms(9,10)
    ed25519_tampered_test_iff [OF assms(1,4,5,11-13)]
  by simp

theorem signature_unit_tests_witness:
  "passes (keygen_sign_verify_round_trip fips_dsa) tester \<and> passes (keygen_from_seed_is_deterministic fips_dsa) tester \<and>
   passes (verify_rejects_tampered_message fips_dsa) tester"
proof -
  have g: "rng (t_world tester) = 3" by (simp add: tester_def)
  have k: "mldsa_keygen_spec fips_dsa ML_DSA_65 (rng (t_world tester)) = Produce (replicate 1952 3, replicate 4032 3)"
    "mldsa_from_seed_spec fips_dsa 1 (replicate 32 7) = Produce (replicate 1952 7, replicate 4032 7)"
    "mldsa_from_seed_spec fips_dsa 1 (replicate 32 9) = Produce (replicate 1952 9, replicate 4032 9)"
    by (simp_all add: g mldsa_keygen_spec_def mldsa_from_seed_spec_def exported_pair_def fips_dsa_def dsa_alg_def)
  have sg: "mldsa_sign_spec fips_dsa ML_DSA_65 (replicate 4032 3) (ascii_bytes ''original message'')
      (snd (dsa_generate fips_dsa ML_DSA_65 (rng (t_world tester)))) =
    Produce (replicate 3309 (3 + sum_list (ascii_bytes ''original message'')))"
    by (simp add: mldsa_sign_spec_def fips_dsa_def)
  have ed: "drawn small_classical None (rng (t_world tester)) = ExtOk (replicate 32 3)"
    "ed25519_pair small_classical (replicate 32 3) = Produce (replicate 32 3, replicate 32 3)"
    "ed25519_sign_spec small_classical (replicate 32 3) (ascii_bytes ''original'') =
      Produce (replicate 32 3 @ replicate 31 0 @ [8])"
    by (simp_all add: g drawn_def ed25519_pair_def ed25519_sign_spec_def small_classical_def)
  have r: "mldsa_verify_spec fips_dsa 1 (replicate 1952 3) (ascii_bytes ''tampered message'')
      (replicate 3309 (3 + sum_list (ascii_bytes ''original message''))) = AuthFailed"
    by (simp add: mldsa_verify_spec_def fips_dsa_def dsa_alg_def ascii_bytes_def replicate_eq_replicate)
  show ?thesis
    using signature_unit_tests [OF tester_ok fips_dsa_sizes fips_dsa_correct small_draws small_ed25519_sizes
        small_ed_correct k(1) sg k(2,3) ed] r
    by (simp add: replicate_eq_replicate)
qed

text \<open>
  C31: on a healthy file system with room for what they write, the round
  trips of \<open>stream_file.rs\<close> over seven file sizes pass for every correct library, and the
  test that flips a byte of a sealed file passes exactly if the stream with that byte
  flipped does not authenticate.
\<close>

theorem file_unit_tests:
  assumes "files_are s F 90000" "usable_dir dir pid" "aead_keys L" "aead_correct L 64" "aead_quiet L" "open_shortens L"
  shows "passes (seal_open_file_round_trip_various_sizes L dir pid) s \<and>
    (\<exists>kk. unbound_key_new L CHACHA20_POLY1305 (replicate 32 6) = ExtOk kk \<and>
      (passes (tampered_file_fails_authentication L dir pid) s \<longleftrightarrow>
        fst (stream_open (frame_dec L kk []) 80
          (flip_byte 5 (stream_seal (frame_enc L kk []) 64 (replicate 300 9)))) = AuthFailed))"
proof -
  obtain kk where kk: "unbound_key_new L CHACHA20_POLY1305 (replicate 32 6) = ExtOk kk"
    using assms(3) unfolding aead_keys_def by (metis length_replicate)
  have room: "files_are s F 85403" "files_are s F 2000" using assms(1) by (simp_all add: files_are_def)
  show ?thesis
    using files_round_trip_passes [OF room(1) assms(2-5)] tampered_file_test_iff [OF room(2) assms(2,4-6) kk] kk by blast
qed

theorem file_unit_tests_witness:
  "passes (seal_open_file_round_trip_various_sizes small_aead (ascii_bytes ''/tmp'') 4242) file_tester"
  using file_unit_tests [OF file_tester_files small_usable_dir small_aead_keys small_aead_correct
      small_aead_quiet small_aead_shortens] by simp

section \<open>Key generation and verification at the pointers\<close>

text \<open>
  From a 32-byte seed the three seeded key generators are functions of the
  seed alone and do not draw randomness. X25519 and Ed25519 hand the seed back as the secret
  key, and \<open>pqforge_ed25519_public_from_seed\<close> derives the public key that key generation wrote.
\<close>

lemma seeded_keygen:
  assumes seed: "slice_at (mem w) seed n sd" "length sd = 32"
    and pairs: "x25519_pair L sd = Produce (xp, xs)" "ed25519_pair L sd = Produce (ep, es)"
      "mldsa_from_seed_spec D aid sd = Produce (dp, ds)"
    and bufs: "\<And>bs. bs \<in> {xp, ep, dp} \<Longrightarrow> fits (mem w) o1 c1 l1 bs"
      "\<And>bs. bs \<in> {xs, es, ds} \<Longrightarrow> fits (mem w) o2 c2 l2 bs"
  shows "(\<exists>w'. pqforge_x25519_keygen L seed n o1 c1 l1 o2 c2 l2 w = (Done (code Ok), w') \<and>
      mem w' = put_result o2 l2 sd (put_result o1 l1 xp (mem w)) \<and> rng w' = rng w) \<and>
    (\<exists>w'. pqforge_ed25519_keygen L seed n o1 c1 l1 o2 c2 l2 w = (Done (code Ok), w') \<and>
      mem w' = put_result o2 l2 sd (put_result o1 l1 ep (mem w)) \<and> rng w' = rng w) \<and>
    (\<exists>w'. pqforge_ed25519_public_from_seed L seed n o1 c1 l1 w = (Done (code Ok), w') \<and>
      mem w' = put_result o1 l1 ep (mem w)) \<and>
    (\<exists>w'. pqforge_mldsa_keygen_from_seed D aid seed n o1 c1 l1 o2 c2 l2 w = (Done (code Ok), w') \<and>
      mem w' = put_result o2 l2 ds (put_result o1 l1 dp (mem w)) \<and> rng w' = rng w)"
proof -
  have "xs = sd" "es = sd" and pub: "ed25519_public_spec L sd = Produce ep"
    using pairs(1,2)
    by (auto simp: x25519_pair_def ed25519_pair_def ed25519_public_spec_def on_ext_def split: ext.splits)
  then show ?thesis
    using x25519_keygen_fits [OF seed pairs(1), of o1 c1 l1 o2 c2 l2]
      ed25519_keygen_fits [OF seed pairs(2), of o1 c1 l1 o2 c2 l2]
      ed25519_public_fits [OF seed pub, of o1 c1 l1]
      mldsa_from_seed_fits [OF seed(1) pairs(3), of o1 c1 l1 o2 c2 l2] bufs
    by simp
qed

text \<open>
  Both verifiers return the verdict of the library on the bytes behind the
  pointers, \<open>Ok\<close> only for a signature the library accepts, and never write to the caller's
  memory; for Ed25519 a public key or signature of the wrong length is \<open>AuthFailed\<close>
  without asking the library.
\<close>

lemma verify_decides:
  assumes "slice_at (mem w) pubkey n pk" "input_at (mem w) msg m ms" "slice_at (mem w) sg l sig"
  shows "(\<exists>w'. pqforge_mldsa_verify D aid pubkey n msg m sg l w =
        (Done (code (mldsa_verify_spec D aid pk ms sig)), w') \<and> mem w' = mem w) \<and>
    (mldsa_verify_spec D aid pk ms sig = Ok \<longleftrightarrow>
       (\<exists>alg. dsa_alg aid = Some alg \<and> dsa_verify D alg pk ms sig = ExtOk ())) \<and>
    (\<exists>w'. pqforge_ed25519_verify L pubkey n msg m sg l w =
        (Done (code (ed25519_verify_spec L pk ms sig)), w') \<and> mem w' = mem w) \<and>
    (ed25519_verify_spec L pk ms sig = Ok \<longleftrightarrow>
       length pk = 32 \<and> length sig = 64 \<and> ed_verify L pk ms sig = ExtOk ())"
  using mldsa_verify_delivers [OF assms, of D aid] ed25519_verify_delivers [OF assms, of L]
  by (auto simp: mldsa_verify_spec_def ed25519_verify_spec_def split: option.splits ext.splits if_splits)

text \<open>
  When the secret-key buffer is too small the public key has been
  written, its length and the needed secret-key length are reported, and no secret byte
  has reached the caller; when already the public-key buffer is too small, neither the
  secret-key buffer nor its length cell is touched. The exported secret is wiped both times.
\<close>

lemma kem_keygen_partial:
  assumes lib: "kem_alg aid = Some alg" "mlkem_keygen_spec L alg (rng w) = Produce (pk, sk)"
    and outs: "out_ok (mem w) o1 c1" "len_ok (mem w) l1" "out_ok (mem w) o2 c2" "len_ok (mem w) l2"
    and nn: "\<not> is_null o1" "\<not> is_null l1" "\<not> is_null o2" "\<not> is_null l2"
    and small: "unat c1 < length pk \<or> unat c2 < length sk" and "wipes w"
  shows "\<exists>w'. pqforge_mlkem_keygen L aid o1 c1 l1 o2 c2 l2 w = (Done (code BufferTooSmall), w') \<and>
    released w' = released w @ [replicate (length sk) 0] \<and>
    mem w' = (if unat c1 < length pk then put_bytes l1 (le_bytes (of_nat (length pk))) (mem w)
      else put_bytes l2 (le_bytes (of_nat (length sk))) (put_result o1 l1 pk (mem w)))"
proof (cases "unat c1 < length pk")
  case True
  then show ?thesis
    unfolding mlkem_keygen_delivers [OF lib(1) outs] lib(2) using nn \<open>wipes w\<close>
    by (simp add: write_two_status_def write_two_mem_def write_out_status_def write_out_mem_def wipes_def)
next
  case False
  then have "unat c2 < length sk" using small by simp
  then show ?thesis
    unfolding mlkem_keygen_delivers [OF lib(1) outs] lib(2) using False nn \<open>wipes w\<close>
    by (simp add: write_two_status_def write_two_mem_def write_out_status_def write_out_mem_def
        put_result_def wipes_def)
qed

end
